(* ===== verification/Zt_Prelude.thy ===== *)
theory Zt_Prelude
  imports Main "HOL-Library.Sublist"
begin

text \<open>
  The shared vocabulary of the development: the collections of simplification facts that the
  component theories extend, the type of a stateful C++ call (explicit state passing over a
  world \<open>'w\<close>), and generic facts on lists that more than one component needs.
\<close>

named_theorems zt_simps \<open>unfolding rules of small accessors that component proofs always want\<close>
named_theorems len_bounds \<open>length bounds of rendered texts\<close>

text \<open>
  A C++ call that may change the outside world (a modem, a socket, the session table) is a
  function from the world to its result and the next world.
\<close>

type_synonym ('w, 'a) eff = "'w \<Rightarrow> 'a \<times> 'w"

text \<open>\<open>std::function\<close> members may be empty; an empty one is \<^term>\<open>None\<close>.\<close>

type_synonym 'f callable = "'f option"

subsection \<open>Lists\<close>

lemma takeWhile_neq_append:
  "c \<notin> set xs \<Longrightarrow> takeWhile (\<lambda>x. x \<noteq> c) (xs @ c # ys) = xs"
  by (induction xs) auto

lemma dropWhile_neq_append:
  "c \<notin> set xs \<Longrightarrow> dropWhile (\<lambda>x. x \<noteq> c) (xs @ c # ys) = c # ys"
  by (induction xs) auto

lemma takeWhile_neq_id: "c \<notin> set xs \<Longrightarrow> takeWhile (\<lambda>x. x \<noteq> c) xs = xs"
  by (induction xs) auto

lemma dropWhile_neq_Nil: "c \<notin> set xs \<Longrightarrow> dropWhile (\<lambda>x. x \<noteq> c) xs = []"
  by (induction xs) auto

lemma length_takeWhile_less: "x \<in> set xs \<Longrightarrow> \<not> P x \<Longrightarrow> length (takeWhile P xs) < length xs"
  by (induction xs) auto

lemma dropWhile_hd: "dropWhile P xs = y # ys \<Longrightarrow> \<not> P y"
  by (induction xs) (auto split: if_splits)

lemma dropWhile_id: "xs = [] \<or> \<not> P (hd xs) \<Longrightarrow> dropWhile P xs = xs"
  by (cases xs) auto

lemma take_takeWhile_length: "take (length (takeWhile P xs)) xs = takeWhile P xs"
  by (metis append_eq_conv_conj takeWhile_dropWhile_id)

lemma drop_takeWhile_length: "drop (length (takeWhile P xs)) xs = dropWhile P xs"
  by (metis append_eq_conv_conj takeWhile_dropWhile_id)

lemma dropWhile_prefix_all:
  "\<forall>x \<in> set xs. P x \<Longrightarrow> ys \<noteq> [] \<Longrightarrow> \<not> P (hd ys) \<Longrightarrow> dropWhile P (xs @ ys) = ys"
  by (induction xs) (auto simp: dropWhile_id)

lemma takeWhile_prefix_all:
  "\<forall>x \<in> set xs. P x \<Longrightarrow> ys \<noteq> [] \<Longrightarrow> \<not> P (hd ys) \<Longrightarrow> takeWhile P (xs @ ys) = xs"
  by (induction xs) (auto simp: takeWhile_eq_Nil_iff)

lemma dropWhile_all: "\<forall>x \<in> set xs. P x \<Longrightarrow> dropWhile P xs = []"
  by (induction xs) auto

lemma set_dropWhile_sub: "set (dropWhile P xs) \<subseteq> set xs"
  by (induction xs) auto

text \<open>A state change applied for each element of a list, in list order: the C++ range-for.\<close>

fun for_each :: "('a \<Rightarrow> 'w \<Rightarrow> 'w) \<Rightarrow> 'a list \<Rightarrow> 'w \<Rightarrow> 'w" where
  "for_each f [] w = w"
| "for_each f (x # xs) w = for_each f xs (f x w)"

lemma for_each_append [simp]: "for_each f (xs @ ys) w = for_each f ys (for_each f xs w)"
  by (induction xs arbitrary: w) auto

lemma for_each_invariant:
  "P w \<Longrightarrow> (\<And>x w. x \<in> set xs \<Longrightarrow> P w \<Longrightarrow> P (f x w)) \<Longrightarrow> P (for_each f xs w)"
  by (induction xs arbitrary: w) auto

lemma for_each_frame:
  "(\<And>x w. x \<in> set xs \<Longrightarrow> g (f x w) = g w) \<Longrightarrow> g (for_each f xs w) = g w"
  by (induction xs arbitrary: w) auto

end
