(* ===== verification/Cpp_Std.thy ===== *)
theory Cpp_Std
  imports Zt_Prelude
begin

text \<open>
  The parts of the C++ standard library the sources use on strings and numbers, as functions on
  \<open>string\<close> (a list of bytes): \<open>find\<close>, \<open>rfind\<close>, \<open>substr\<close>, \<open>find_first_not_of\<close>, \<open>getline\<close>,
  \<open>tolower\<close> in the "C" locale, \<open>to_string\<close>, \<open>stol\<close>/\<open>stoi\<close> (with the exceptions they throw as
  \<open>None\<close>) and \<open>atoi\<close>.  A prefix test \<open>s.rfind(p, 0) == 0\<close> is \<^const>\<open>prefix\<close>, a substring test
  \<open>s.find(t) != npos\<close> is \<^const>\<open>sublist\<close>.
\<close>

subsection \<open>Characters\<close>

abbreviation newline :: char where "newline \<equiv> CHR 0x0A"
abbreviation creturn :: char where "creturn \<equiv> CHR 0x0D"
abbreviation tab :: char where "tab \<equiv> CHR 0x09"
abbreviation dquote :: char where "dquote \<equiv> CHR 0x22"

definition tolower :: "char \<Rightarrow> char" where
  "tolower c = (if 65 \<le> (of_char c :: nat) \<and> (of_char c :: nat) \<le> 90
                then char_of ((of_char c :: nat) + 32) else c)"

lemma tolower_range: "of_char (tolower c) < (65 :: nat) \<or> 90 < (of_char (tolower c) :: nat)"
  by (auto simp: tolower_def)

lemma tolower_idem [simp]: "tolower (tolower c) = tolower c"
  using tolower_range [of c] by (auto simp: tolower_def [of "tolower c"])

lemma map_tolower_idem [simp]: "map tolower (map tolower s) = map tolower s"
  by simp

definition is_digit :: "char \<Rightarrow> bool" where
  "is_digit c \<longleftrightarrow> 48 \<le> (of_char c :: nat) \<and> (of_char c :: nat) \<le> 57"

definition is_space :: "char \<Rightarrow> bool" where
  "is_space c \<longleftrightarrow> c \<in> {CHR '' '', CHR 0x09, CHR 0x0A, CHR 0x0B, CHR 0x0C, CHR 0x0D}"

subsection \<open>Searching and cutting\<close>

definition str_find :: "char \<Rightarrow> string \<Rightarrow> nat option" where
  "str_find c s = (if c \<in> set s then Some (length (takeWhile (\<lambda>x. x \<noteq> c) s)) else None)"

definition str_find_from :: "char \<Rightarrow> nat \<Rightarrow> string \<Rightarrow> nat option" where
  "str_find_from c pos s = map_option (\<lambda>i. pos + i) (str_find c (drop pos s))"

definition str_rfind :: "char \<Rightarrow> string \<Rightarrow> nat option" where
  "str_rfind c s = map_option (\<lambda>i. length s - 1 - i) (str_find c (rev s))"

text \<open>\<open>s.substr(pos, n)\<close> and \<open>s.substr(pos)\<close>; every call in the sources has \<open>pos \<le> s.size()\<close>.\<close>

definition substr :: "nat \<Rightarrow> nat \<Rightarrow> string \<Rightarrow> string" where
  "substr pos n s = take n (drop pos s)"

definition find_first_not_of :: "string \<Rightarrow> string \<Rightarrow> nat option" where
  "find_first_not_of cs s =
     (if \<forall>c \<in> set s. c \<in> set cs then None else Some (length (takeWhile (\<lambda>c. c \<in> set cs) s)))"

definition find_last_not_of :: "string \<Rightarrow> string \<Rightarrow> nat option" where
  "find_last_not_of cs s =
     map_option (\<lambda>i. length s - 1 - i) (find_first_not_of cs (rev s))"

lemma str_find_None [simp]: "str_find c s = None \<longleftrightarrow> c \<notin> set s"
  by (simp add: str_find_def)

lemma str_find_Nil [simp]: "str_find c [] = None"
  by simp

lemma str_find_append:
  "c \<notin> set xs \<Longrightarrow> str_find c (xs @ c # ys) = Some (length xs)"
  by (simp add: str_find_def takeWhile_neq_append)

lemma str_find_SomeD:
  "str_find c s = Some i \<Longrightarrow>
     i < length s \<and> take i s = takeWhile (\<lambda>x. x \<noteq> c) s
     \<and> c \<notin> set (take i s) \<and> s = take i s @ c # drop (Suc i) s"
proof -
  assume a: "str_find c s = Some i"
  then have c: "c \<in> set s" and i: "i = length (takeWhile (\<lambda>x. x \<noteq> c) s)"
    by (auto simp: str_find_def split: if_splits)
  from c obtain ys zs where s: "s = ys @ c # zs" and "c \<notin> set ys"
    by (meson split_list_first)
  with i have "i = length ys" by (simp add: takeWhile_neq_append)
  with s \<open>c \<notin> set ys\<close> show ?thesis by (simp add: takeWhile_neq_append)
qed

lemma str_find_from_append:
  "c \<notin> set ys \<Longrightarrow> str_find_from c (Suc (length xs)) (xs @ d # ys @ c # zs)
     = Some (Suc (length xs) + length ys)"
  by (simp add: str_find_from_def str_find_append)

lemma str_rfind_append:
  assumes "c \<notin> set ys"
  shows "str_rfind c (xs @ c # ys) = Some (length xs)"
proof -
  have "str_find c (rev (xs @ c # ys)) = Some (length ys)"
    using assms str_find_append [of c "rev ys" "rev xs"] by simp
  then show ?thesis by (simp add: str_rfind_def)
qed

lemma str_rfind_None [simp]: "str_rfind c s = None \<longleftrightarrow> c \<notin> set s"
  by (simp add: str_rfind_def)

subsection \<open>Lines\<close>

text \<open>
  The lines successive calls of \<open>std::getline\<close> deliver: the text is cut at newlines, and a text
  that ends in a newline has no empty last line.
\<close>

function getlines :: "string \<Rightarrow> string list" where
  "getlines [] = []"
| "getlines (c # s) =
     (let t = c # s in
      takeWhile (\<lambda>x. x \<noteq> newline) t # getlines (drop 1 (dropWhile (\<lambda>x. x \<noteq> newline) t)))"
  by pat_completeness auto
termination
proof (relation "measure length", goal_cases)
  case (2 c s x)
  have "length (dropWhile (\<lambda>x. x \<noteq> newline) (c # s)) \<le> Suc (length s)"
    using length_dropWhile_le [of "\<lambda>x. x \<noteq> newline" "c # s"] by simp
  with 2 show ?case by (cases "dropWhile (\<lambda>x. x \<noteq> newline) (c # s)") auto
qed auto

declare getlines.simps(2) [simp del]

lemma getlines_unfold:
  "s \<noteq> [] \<Longrightarrow> getlines s =
     takeWhile (\<lambda>x. x \<noteq> newline) s # getlines (drop 1 (dropWhile (\<lambda>x. x \<noteq> newline) s))"
  by (cases s) (simp_all add: getlines.simps(2))

lemma getlines_line:
  "newline \<notin> set l \<Longrightarrow> getlines (l @ newline # s) = l # getlines s"
  by (simp add: getlines_unfold takeWhile_neq_append dropWhile_neq_append)

lemma getlines_last_line:
  "newline \<notin> set l \<Longrightarrow> l \<noteq> [] \<Longrightarrow> getlines l = [l]"
  by (simp add: getlines_unfold takeWhile_neq_id dropWhile_neq_Nil)

fun unlines :: "string list \<Rightarrow> string" where
  "unlines [] = []"
| "unlines (l # ls) = l @ newline # unlines ls"

lemma getlines_unlines:
  "\<forall>l \<in> set ls. newline \<notin> set l \<Longrightarrow> getlines (unlines ls @ s) = ls @ getlines s"
  by (induction ls) (auto simp: getlines_line)

lemma getlines_no_newline: "l \<in> set (getlines s) \<Longrightarrow> newline \<notin> set l"
proof (induction s rule: getlines.induct)
  case (2 c s)
  then show ?case
    by (auto simp: getlines_unfold dest: set_takeWhileD)
qed simp

subsection \<open>Trimming\<close>

definition blanks :: string where
  "blanks = [CHR '' '', CHR 0x09, CHR 0x0D, CHR 0x0A]"

definition trim :: "string \<Rightarrow> string" where
  "trim s =
     (case find_first_not_of blanks s of
        None \<Rightarrow> []
      | Some b \<Rightarrow>
          (case find_last_not_of blanks s of
             None \<Rightarrow> []
           | Some e \<Rightarrow> substr b (e - b + 1) s))"

text \<open>Trimming drops the blanks on both sides, whatever the index arithmetic.\<close>

definition strip :: "string \<Rightarrow> string" where
  "strip s = rev (dropWhile (\<lambda>c. c \<in> set blanks) (rev (dropWhile (\<lambda>c. c \<in> set blanks) s)))"

lemma strip_decompose:
  assumes "\<forall>c \<in> set pre \<union> set post. c \<in> set blanks"
    and "hd m \<notin> set blanks" and "last m \<notin> set blanks" and "m \<noteq> []"
  shows "strip (pre @ m @ post) = m"
proof -
  have "dropWhile (\<lambda>c. c \<in> set blanks) (pre @ m @ post) = m @ post"
    using assms by (intro dropWhile_prefix_all) auto
  moreover have "dropWhile (\<lambda>c. c \<in> set blanks) (rev post @ rev m) = rev m"
    using assms by (intro dropWhile_prefix_all) (auto simp: hd_rev)
  ultimately show ?thesis by (simp add: strip_def)
qed

lemma trim_decompose:
  assumes "\<forall>c \<in> set pre \<union> set post. c \<in> set blanks"
    and "hd m \<notin> set blanks" and "last m \<notin> set blanks" and "m \<noteq> []"
  shows "trim (pre @ m @ post) = m"
proof -
  have tw: "takeWhile (\<lambda>c. c \<in> set blanks) (pre @ m @ post) = pre"
    using assms by (intro takeWhile_prefix_all) auto
  have twr: "takeWhile (\<lambda>c. c \<in> set blanks) (rev post @ rev m @ rev pre) = rev post"
    using assms by (intro takeWhile_prefix_all) (auto simp: hd_rev)
  have ex: "\<not> (\<forall>c \<in> set (pre @ m @ post). c \<in> set blanks)"
    using assms by (metis Un_iff hd_in_set set_append)
  have ff: "find_first_not_of blanks (pre @ m @ post) = Some (length pre)"
    using ex tw by (simp only: find_first_not_of_def if_False)
  have "find_first_not_of blanks (rev (pre @ m @ post)) = Some (length post)"
    using ex twr by (auto simp: find_first_not_of_def)
  then have "find_last_not_of blanks (pre @ m @ post) = Some (length pre + length m - 1)"
    by (simp add: find_last_not_of_def)
  with ff assms(4) show ?thesis
    by (cases m) (simp_all add: trim_def substr_def)
qed

lemma blanks_or_middle:
  obtains (blank) "\<forall>c \<in> set s. c \<in> set blanks"
  | (middle) pre m post where "s = pre @ m @ post" "\<forall>c \<in> set pre \<union> set post. c \<in> set blanks"
      "m \<noteq> []" "hd m \<notin> set blanks" "last m \<notin> set blanks"
proof (cases "\<forall>c \<in> set s. c \<in> set blanks")
  case True
  then show ?thesis by (rule blank)
next
  case False
  let ?P = "\<lambda>c. c \<in> set blanks"
  define m' where "m' = dropWhile ?P s"
  define m where "m = rev (dropWhile ?P (rev m'))"
  have ne: "m' \<noteq> []" using False by (auto simp: m'_def dropWhile_eq_Nil_conv)
  then have hd: "\<not> ?P (hd m')" unfolding m'_def by (rule hd_dropWhile)
  then have "\<exists>c \<in> set m'. \<not> ?P c" using ne hd_in_set by blast
  then have ne2: "dropWhile ?P (rev m') \<noteq> []" by (auto simp: dropWhile_eq_Nil_conv)
  have s: "s = takeWhile ?P s @ m'" by (simp add: m'_def)
  have m': "m' = m @ rev (takeWhile ?P (rev m'))"
    unfolding m_def by (metis rev_append rev_rev_ident takeWhile_dropWhile_id)
  show ?thesis
  proof (rule middle [of "takeWhile ?P s" m "rev (takeWhile ?P (rev m'))"])
    show "s = takeWhile ?P s @ m @ rev (takeWhile ?P (rev m'))" using s m' by simp
    show "\<forall>c \<in> set (takeWhile ?P s) \<union> set (rev (takeWhile ?P (rev m'))). ?P c"
      by (auto dest: set_takeWhileD)
    show "m \<noteq> []" using ne2 by (simp add: m_def)
    then show "\<not> ?P (hd m)" using hd m' by (metis hd_append2)
    show "\<not> ?P (last m)" unfolding m_def last_rev by (rule hd_dropWhile [OF ne2])
  qed
qed

lemma trim_strip: "trim s = strip s"
proof (cases s rule: blanks_or_middle)
  case blank
  then have "dropWhile (\<lambda>c. c \<in> set blanks) s = []" by (rule dropWhile_all)
  with blank show ?thesis by (simp add: trim_def find_first_not_of_def strip_def del: dropWhile_eq_Nil_conv)
next
  case (middle pre m post)
  then show ?thesis by (simp add: trim_decompose strip_decompose)
qed

definition trimmed :: "string \<Rightarrow> bool" where
  "trimmed s \<longleftrightarrow> s = [] \<or> (hd s \<notin> set blanks \<and> last s \<notin> set blanks)"

lemma trim_trimmed [simp]: "trimmed (trim s)"
proof (cases s rule: blanks_or_middle)
  case blank
  then have "dropWhile (\<lambda>c. c \<in> set blanks) s = []" by (rule dropWhile_all)
  then show ?thesis by (simp add: trim_strip strip_def trimmed_def del: dropWhile_eq_Nil_conv)
next
  case (middle pre m post)
  then show ?thesis by (simp add: trim_decompose trimmed_def)
qed

lemma trim_pad:
  assumes "trimmed m" and "\<forall>c \<in> set pre \<union> set post. c \<in> set blanks"
  shows "trim (pre @ m @ post) = m"
proof (cases "m = []")
  case True
  with assms(2) show ?thesis
    by (auto simp: trim_def find_first_not_of_def)
next
  case False
  with assms show ?thesis by (auto simp: trimmed_def intro: trim_decompose)
qed

lemma trim_id: "trimmed s \<Longrightarrow> trim s = s"
  using trim_pad [of s "[]" "[]"] by simp

lemma trim_Nil [simp]: "trim [] = []"
  by (simp add: trim_strip strip_def)

lemma set_trim: "set (trim s) \<subseteq> set s"
  unfolding trim_strip strip_def set_rev
  using set_dropWhile_sub [of "\<lambda>c. c \<in> set blanks"] by (metis order_trans set_rev)

end
