(* ===== verification/Gnmi_Command.thy ===== *)
theory Gnmi_Command
  imports Cpp_Std
begin

text \<open>
  The command layer's parser, \<open>src/gnmi_command.cpp\<close> and \<open>inc/zerotouch/gnmi_command.hpp\<close>: the
  grammar \<open>IOT GNMI GET <xpath[,xpath...]>\<close> and
  \<open>IOT GNMI SET <xpath[,xpath...]> <value[,value...]>\<close> over the tokens of an SMS body.  The
  tokenizer itself is \<open>smsctl::tokenize\<close>, outside the repository.
\<close>

datatype GnmiKind = NotGnmi | Unknown | Get | Set

record GnmiCommand =
  cmd_kind :: GnmiKind
  cmd_xpaths :: "string list"
  cmd_updates :: "(string \<times> string) list"
  cmd_error :: string

definition empty_command :: GnmiCommand where
  "empty_command = \<lparr>cmd_kind = NotGnmi, cmd_xpaths = [], cmd_updates = [], cmd_error = []\<rparr>"

definition ieq :: "string \<Rightarrow> string \<Rightarrow> bool" where
  "ieq a b \<longleftrightarrow> length a = length b \<and> (\<forall>i < length a. tolower (a ! i) = b ! i)"

fun csv_loop :: "string list \<Rightarrow> string \<Rightarrow> string \<Rightarrow> string list" where
  "csv_loop out cur [] = out @ [cur]"
| "csv_loop out cur (c # s) =
     (if c = CHR '','' then csv_loop (out @ [cur]) [] s else csv_loop out (cur @ [c]) s)"

definition csv :: "string \<Rightarrow> string list" where
  "csv s = csv_loop [] [] s"

definition parse_gnmi :: "string list \<Rightarrow> GnmiCommand" where
  "parse_gnmi t =
     (let cmd = empty_command in
      if length t < 2 \<or> \<not> ieq (t ! 0) ''iot'' \<or> \<not> ieq (t ! 1) ''gnmi'' then cmd
      else if length t < 3 then
        cmd\<lparr>cmd_kind := Unknown, cmd_error := ''gnmi: expected GET or SET''\<rparr>
      else if ieq (t ! 2) ''get'' then
        (if length t < 4 then
           cmd\<lparr>cmd_kind := Unknown, cmd_error := ''gnmi get: missing xpath''\<rparr>
         else cmd\<lparr>cmd_kind := Get, cmd_xpaths := csv (t ! 3)\<rparr>)
      else if ieq (t ! 2) ''set'' then
        (if length t < 5 then
           cmd\<lparr>cmd_kind := Unknown, cmd_error := ''gnmi set: expected <xpaths> <values>''\<rparr>
         else
           (let xs = csv (t ! 3); vs = csv (t ! 4) in
            if length xs \<noteq> length vs then
              cmd\<lparr>cmd_kind := Unknown, cmd_error := ''gnmi set: xpath/value count mismatch''\<rparr>
            else
              cmd\<lparr>cmd_kind := Set,
                  cmd_updates := map (\<lambda>i. (xs ! i, vs ! i)) [0..<length xs]\<rparr>))
      else cmd\<lparr>cmd_kind := Unknown, cmd_error := ''gnmi: unknown operation''\<rparr>)"

subsection \<open>Keywords\<close>

lemma ieq_iff: "ieq a b \<longleftrightarrow> map tolower a = b"
  by (auto simp: ieq_def list_eq_iff_nth_eq)

lemma ieq_cong: "map tolower a = map tolower a' \<Longrightarrow> ieq a b = ieq a' b"
  by (simp add: ieq_iff)

subsection \<open>Comma-separated lists\<close>

text \<open>The inverse of \<^const>\<open>csv\<close>: fields joined by commas.\<close>

fun csv_join :: "string list \<Rightarrow> string" where
  "csv_join [] = []"
| "csv_join [x] = x"
| "csv_join (x # y # r) = x @ CHR '','' # csv_join (y # r)"

abbreviation comma_free :: "string \<Rightarrow> bool" where
  "comma_free s \<equiv> CHR '','' \<notin> set s"

lemma csv_loop_append: "csv_loop (out @ out') cur s = out @ csv_loop out' cur s"
  by (induction s arbitrary: out' cur) auto

lemma csv_loop_out: "csv_loop out cur s = out @ csv_loop [] cur s"
  using csv_loop_append [of out "[]"] by simp

lemma csv_loop_field:
  "comma_free x \<Longrightarrow> csv_loop out cur (x @ s) = csv_loop out (cur @ x) s"
  by (induction x arbitrary: cur) auto

lemma csv_no_comma: "comma_free x \<Longrightarrow> csv x = [x]"
  using csv_loop_field [of x "[]" "[]" "[]"] by (simp add: csv_def)

lemma csv_field: "comma_free x \<Longrightarrow> csv (x @ CHR '','' # s) = x # csv s"
  using csv_loop_field [of x "[]" "[]" "CHR '','' # s"] csv_loop_out [of "[x]" "[]" s]
  by (simp add: csv_def)

lemma csv_csv_join: "xs \<noteq> [] \<Longrightarrow> \<forall>x \<in> set xs. comma_free x \<Longrightarrow> csv (csv_join xs) = xs"
  by (induction xs rule: csv_join.induct) (auto simp: csv_no_comma csv_field)

lemma csv_loop_fields:
  "comma_free cur \<Longrightarrow>
     csv_loop [] cur s \<noteq> [] \<and> (\<forall>x \<in> set (csv_loop [] cur s). comma_free x)
     \<and> csv_join (csv_loop [] cur s) = cur @ s"
proof (induction s arbitrary: cur)
  case (Cons c s)
  show ?case
  proof (cases "c = CHR '',''")
    case True
    from Cons.IH [of "[]"] obtain y r where "csv_loop [] [] s = y # r"
      by (cases "csv_loop [] [] s") auto
    with Cons.IH [of "[]"] Cons.prems True show ?thesis
      by (simp add: csv_loop_out [of "[cur]" "[]" s])
  next
    case False
    with Cons.IH [of "cur @ [c]"] Cons.prems show ?thesis by simp
  qed
qed simp

lemma csv_nonempty [simp]: "csv s \<noteq> []"
  and csv_comma_free: "x \<in> set (csv s) \<Longrightarrow> comma_free x"
  and csv_join_csv [simp]: "csv_join (csv s) = s"
  using csv_loop_fields [of "[]" s] by (auto simp: csv_def)

lemma length_csv: "length (csv s) = Suc (count_list s (CHR '',''))"
proof -
  have "length (csv_loop [] cur s) = Suc (count_list s (CHR '',''))" for cur
    by (induction s arbitrary: cur) (auto simp: csv_loop_out [of "[_]"])
  then show ?thesis by (simp add: csv_def)
qed

subsection \<open>Facts on the parser that its clients use\<close>

lemma updates_zip: "length xs = length vs \<Longrightarrow> map (\<lambda>i. (xs ! i, vs ! i)) [0..<length vs] = zip xs vs"
  by (rule nth_equalityI) auto

lemma parse_gnmi_not_gnmi:
  "cmd_kind (parse_gnmi t) = NotGnmi \<longleftrightarrow>
     \<not> (\<exists>i g r. t = i # g # r \<and> ieq i ''iot'' \<and> ieq g ''gnmi'')"
proof -
  have "(\<exists>i g r. t = i # g # r \<and> ieq i ''iot'' \<and> ieq g ''gnmi'') \<longleftrightarrow>
      \<not> (length t < 2 \<or> \<not> ieq (t ! 0) ''iot'' \<or> \<not> ieq (t ! 1) ''gnmi'')"
    by (cases t rule: remdups_adj.cases) auto
  then show ?thesis by (auto simp: parse_gnmi_def empty_command_def Let_def)
qed

lemma parse_gnmi_error_only_unknown:
  "cmd_error (parse_gnmi t) \<noteq> [] \<longleftrightarrow> cmd_kind (parse_gnmi t) = Unknown"
  by (simp add: parse_gnmi_def empty_command_def Let_def)

text \<open>
  C8.  The GET grammar, both ways: a token list is read as a GET of the paths \<open>xs\<close> exactly when it
  starts with the three keywords in any mix of upper and lower case and its fourth token is the
  comma-joined list \<open>xs\<close> (non-empty, fields without commas).  No path is lost, split or invented.
\<close>

theorem parse_gnmi_get_iff:
  "cmd_kind (parse_gnmi t) = Get \<and> cmd_xpaths (parse_gnmi t) = xs \<longleftrightarrow>
     (\<exists>i g k rest. t = i # g # k # csv_join xs # rest
        \<and> map tolower i = ''iot'' \<and> map tolower g = ''gnmi'' \<and> map tolower k = ''get''
        \<and> xs \<noteq> [] \<and> (\<forall>x \<in> set xs. comma_free x))"
proof
  assume l: "cmd_kind (parse_gnmi t) = Get \<and> cmd_xpaths (parse_gnmi t) = xs"
  then have len: "4 \<le> length t" and kw: "ieq (t ! 0) ''iot''" "ieq (t ! 1) ''gnmi''" "ieq (t ! 2) ''get''"
    and xs: "xs = csv (t ! 3)"
    by (auto simp: parse_gnmi_def empty_command_def Let_def split: if_splits)
  from len obtain i g k x rest where t: "t = i # g # k # x # rest"
    by (auto simp: Suc_le_length_iff numeral_eq_Suc)
  with xs have "x = csv_join xs" "xs \<noteq> []" "\<forall>x \<in> set xs. comma_free x"
    by (auto dest: csv_comma_free)
  with t kw show "\<exists>i g k rest. t = i # g # k # csv_join xs # rest
        \<and> map tolower i = ''iot'' \<and> map tolower g = ''gnmi'' \<and> map tolower k = ''get''
        \<and> xs \<noteq> [] \<and> (\<forall>x \<in> set xs. comma_free x)"
    by (auto simp: ieq_iff)
next
  assume "\<exists>i g k rest. t = i # g # k # csv_join xs # rest
        \<and> map tolower i = ''iot'' \<and> map tolower g = ''gnmi'' \<and> map tolower k = ''get''
        \<and> xs \<noteq> [] \<and> (\<forall>x \<in> set xs. comma_free x)"
  then show "cmd_kind (parse_gnmi t) = Get \<and> cmd_xpaths (parse_gnmi t) = xs"
    by (auto simp: parse_gnmi_def empty_command_def ieq_iff csv_csv_join)
qed

theorem parse_gnmi_get_iff_witness:
  "cmd_kind (parse_gnmi [''iot'', ''GnMi'', ''GET'', ''/a,/b'', ''x'']) = Get
   \<and> cmd_xpaths (parse_gnmi [''iot'', ''GnMi'', ''GET'', ''/a,/b'', ''x'']) = [''/a'', ''/b'']"
  by (subst parse_gnmi_get_iff) (simp add: tolower_def char_of_def bit_0)

text \<open>
  C13.  The SET grammar, both ways: a token list is read as a SET of the update list \<open>us\<close> exactly
  when it starts with the three keywords and its next two tokens are the comma-joined paths and
  the comma-joined values of \<open>us\<close>, in the same order.  The pairing is positional, and lists of
  different lengths are never read as a SET.
\<close>

theorem parse_gnmi_set_iff:
  "cmd_kind (parse_gnmi t) = Set \<and> cmd_updates (parse_gnmi t) = us \<longleftrightarrow>
     (\<exists>i g k rest. t = i # g # k # csv_join (map fst us) # csv_join (map snd us) # rest
        \<and> map tolower i = ''iot'' \<and> map tolower g = ''gnmi'' \<and> map tolower k = ''set''
        \<and> us \<noteq> [] \<and> (\<forall>(x, v) \<in> set us. comma_free x \<and> comma_free v))"
proof
  assume l: "cmd_kind (parse_gnmi t) = Set \<and> cmd_updates (parse_gnmi t) = us"
  then have len: "5 \<le> length t"
    and kw: "ieq (t ! 0) ''iot''" "ieq (t ! 1) ''gnmi''" "ieq (t ! 2) ''set''"
    and eq: "length (csv (t ! 3)) = length (csv (t ! 4))" and us: "us = zip (csv (t ! 3)) (csv (t ! 4))"
    by (auto simp: parse_gnmi_def empty_command_def Let_def updates_zip split: if_splits)
  from len obtain i g k x v rest where t: "t = i # g # k # x # v # rest"
    by (auto simp: Suc_le_length_iff numeral_eq_Suc)
  from us t eq have fs: "map fst us = csv x" "map snd us = csv v" by simp_all
  then have "us \<noteq> []" by (metis csv_nonempty map_is_Nil_conv)
  moreover have "\<forall>(a, b) \<in> set us. comma_free a \<and> comma_free b"
    using us t by (auto dest: set_zip_leftD set_zip_rightD csv_comma_free)
  ultimately show "\<exists>i g k rest. t = i # g # k # csv_join (map fst us) # csv_join (map snd us) # rest
        \<and> map tolower i = ''iot'' \<and> map tolower g = ''gnmi'' \<and> map tolower k = ''set''
        \<and> us \<noteq> [] \<and> (\<forall>(x, v) \<in> set us. comma_free x \<and> comma_free v)"
    using t kw fs by (auto simp: ieq_iff)
next
  assume "\<exists>i g k rest. t = i # g # k # csv_join (map fst us) # csv_join (map snd us) # rest
        \<and> map tolower i = ''iot'' \<and> map tolower g = ''gnmi'' \<and> map tolower k = ''set''
        \<and> us \<noteq> [] \<and> (\<forall>(x, v) \<in> set us. comma_free x \<and> comma_free v)"
  then obtain i g k rest where
    t: "t = i # g # k # csv_join (map fst us) # csv_join (map snd us) # rest"
    and kw: "ieq i ''iot''" "ieq g ''gnmi''" "ieq k ''set''"
    and ne: "us \<noteq> []" and cf: "\<forall>(x, v) \<in> set us. comma_free x \<and> comma_free v"
    by (auto simp: ieq_iff)
  from ne cf have "csv (csv_join (map fst us)) = map fst us" "csv (csv_join (map snd us)) = map snd us"
    by (fastforce intro!: csv_csv_join)+
  with t kw show "cmd_kind (parse_gnmi t) = Set \<and> cmd_updates (parse_gnmi t) = us"
    using updates_zip [of "map fst us" "map snd us"]
    by (simp add: parse_gnmi_def empty_command_def Let_def ieq_iff zip_map_fst_snd)
qed

theorem parse_gnmi_set_iff_witness:
  "cmd_kind (parse_gnmi [''IOT'', ''gnmi'', ''Set'', ''/a,/b'', ''1,2'']) = Set
   \<and> cmd_updates (parse_gnmi [''IOT'', ''gnmi'', ''Set'', ''/a,/b'', ''1,2''])
       = [(''/a'', ''1''), (''/b'', ''2'')]"
  by (subst parse_gnmi_set_iff) (simp add: tolower_def char_of_def bit_0)

end
