(* ===== verification/Cpp_Num.thy ===== *)
theory Cpp_Num
  imports Cpp_Std "HOL-Library.Word"
begin

text \<open>
  Decimal numbers as the C++ standard library reads and prints them: \<open>std::to_string\<close>,
  \<open>std::stol\<close> and \<open>std::stoi\<close> (leading white space, one sign, the longest run of digits; no
  digit is \<open>std::invalid_argument\<close>, a value outside the type is \<open>std::out_of_range\<close>, both here
  \<open>None\<close>), and \<open>atoi\<close>, which yields 0 where there is no digit and is undefined (\<open>None\<close>) out of
  range.  \<open>long\<close> has 64 bits and \<open>int\<close> 32, as on every target the build files name.
\<close>

type_synonym u16 = "16 word"
type_synonym u32 = "32 word"
type_synonym u64 = "64 word"

subsection \<open>Printing\<close>

definition digit_char :: "nat \<Rightarrow> char" where
  "digit_char d = char_of (48 + d)"

fun show_nat :: "nat \<Rightarrow> string" where
  "show_nat n = (if n < 10 then [digit_char n] else show_nat (n div 10) @ [digit_char (n mod 10)])"

declare show_nat.simps [simp del]

definition to_string :: "int \<Rightarrow> string" where
  "to_string n = (if n < 0 then CHR ''-'' # show_nat (nat (- n)) else show_nat (nat n))"

subsection \<open>Reading\<close>

definition digit_val :: "char \<Rightarrow> nat" where
  "digit_val c = of_char c - 48"

definition digits_val :: "string \<Rightarrow> nat" where
  "digits_val ds = foldl (\<lambda>n c. 10 * n + digit_val c) 0 ds"

definition strtol10 :: "string \<Rightarrow> int option" where
  "strtol10 s =
     (let t = dropWhile is_space s;
          neg = (t \<noteq> [] \<and> hd t = CHR ''-'');
          u = (if t \<noteq> [] \<and> (hd t = CHR ''-'' \<or> hd t = CHR ''+'') then tl t else t);
          ds = takeWhile is_digit u
      in if ds = [] then None
         else Some (if neg then - int (digits_val ds) else int (digits_val ds)))"

definition in_signed_range :: "nat \<Rightarrow> int \<Rightarrow> bool" where
  "in_signed_range w n \<longleftrightarrow> - (2 ^ (w - 1)) \<le> n \<and> n < 2 ^ (w - 1)"

definition stol :: "string \<Rightarrow> int option" where
  "stol s = (case strtol10 s of None \<Rightarrow> None
             | Some n \<Rightarrow> if in_signed_range 64 n then Some n else None)"

definition stoi :: "string \<Rightarrow> int option" where
  "stoi s = (case strtol10 s of None \<Rightarrow> None
             | Some n \<Rightarrow> if in_signed_range 32 n then Some n else None)"

definition atoi :: "string \<Rightarrow> int option" where
  "atoi s = (case strtol10 s of None \<Rightarrow> Some 0
             | Some n \<Rightarrow> if in_signed_range 32 n then Some n else None)"

subsection \<open>Reading back what was printed\<close>

lemma of_char_digit_char: "d < 10 \<Longrightarrow> of_char (digit_char d) = 48 + d"
  by (simp add: digit_char_def)

lemma is_digit_digit_char [simp]: "d < 10 \<Longrightarrow> is_digit (digit_char d)"
  by (simp add: is_digit_def of_char_digit_char)

lemma digit_val_digit_char [simp]: "d < 10 \<Longrightarrow> digit_val (digit_char d) = d"
  by (simp add: digit_val_def of_char_digit_char)

lemma show_nat_nonempty [simp]: "show_nat n \<noteq> []"
  by (subst show_nat.simps) simp

lemma show_nat_digits: "\<forall>c \<in> set (show_nat n). is_digit c"
proof (induction n rule: show_nat.induct)
  case (1 n)
  then show ?case by (subst show_nat.simps) auto
qed

lemma length_show_nat: "n < 10 ^ k \<Longrightarrow> 0 < k \<Longrightarrow> length (show_nat n) \<le> k"
proof (induction k arbitrary: n)
  case (Suc k)
  show ?case
  proof (cases "n < 10")
    case False
    with Suc.prems have "n div 10 < 10 ^ k" "0 < k" by (auto simp: less_mult_imp_div_less mult.commute intro: gr0I)
    with Suc.IH [of "n div 10"] False show ?thesis by (simp add: show_nat.simps [of n])
  qed (simp add: show_nat.simps)
qed simp

lemma digits_val_snoc: "digits_val (ds @ [c]) = 10 * digits_val ds + digit_val c"
  by (simp add: digits_val_def)

lemma digits_val_show_nat [simp]: "digits_val (show_nat n) = n"
proof (induction n rule: show_nat.induct)
  case (1 n)
  then show ?case
    by (subst show_nat.simps) (auto simp: digits_val_snoc digits_val_def)
qed

lemma digit_not_space: "is_digit c \<Longrightarrow> \<not> is_space c"
  by (auto simp: is_digit_def is_space_def)

lemma digit_not_sign: "is_digit c \<Longrightarrow> c \<noteq> CHR ''-'' \<and> c \<noteq> CHR ''+''"
  by (auto simp: is_digit_def)

lemma takeWhile_digits_show_nat:
  "rest = [] \<or> \<not> is_digit (hd rest) \<Longrightarrow> takeWhile is_digit (show_nat n @ rest) = show_nat n"
  by (cases rest) (auto simp: show_nat_digits intro: takeWhile_prefix_all)

lemma hd_show_nat_digit: "is_digit (hd (show_nat n @ rest))"
  using show_nat_digits [of n] hd_in_set [OF show_nat_nonempty, of n] by simp

lemma strtol10_show_nat:
  assumes "rest = [] \<or> \<not> is_digit (hd rest)"
  shows "strtol10 (show_nat n @ rest) = Some (int n)"
proof -
  have d: "is_digit (hd (show_nat n @ rest))" by (rule hd_show_nat_digit)
  then have "dropWhile is_space (show_nat n @ rest) = show_nat n @ rest"
    by (intro dropWhile_id) (auto dest: digit_not_space)
  with d show ?thesis
    by (simp add: strtol10_def Let_def digit_not_sign [OF d [simplified]]
        takeWhile_digits_show_nat [OF assms])
qed

lemma strtol10_neg_show_nat:
  assumes "rest = [] \<or> \<not> is_digit (hd rest)"
  shows "strtol10 (CHR ''-'' # show_nat n @ rest) = Some (- int n)"
proof -
  have "dropWhile is_space (CHR ''-'' # show_nat n @ rest) = CHR ''-'' # show_nat n @ rest"
    by (simp add: is_space_def)
  then show ?thesis
    by (simp add: strtol10_def Let_def takeWhile_digits_show_nat [OF assms])
qed

lemma strtol10_to_string:
  assumes "rest = [] \<or> \<not> is_digit (hd rest)"
  shows "strtol10 (to_string n @ rest) = Some n"
  using strtol10_show_nat [OF assms] strtol10_neg_show_nat [OF assms]
  by (simp add: to_string_def)

lemma stol_to_string: "in_signed_range 64 n \<Longrightarrow> stol (to_string n) = Some n"
  using strtol10_to_string [of "[]" n] by (simp add: stol_def)

lemma stoi_to_string: "in_signed_range 32 n \<Longrightarrow> stoi (to_string n) = Some n"
  using strtol10_to_string [of "[]" n] by (simp add: stoi_def)

lemma atoi_to_string: "in_signed_range 32 n \<Longrightarrow> atoi (to_string n) = Some n"
  using strtol10_to_string [of "[]" n] by (simp add: atoi_def)

lemma set_to_string: "c \<in> set (to_string n) \<Longrightarrow> is_digit c \<or> c = CHR ''-''"
  using show_nat_digits by (auto simp: to_string_def split: if_splits)

lemma to_string_nonempty [simp]: "to_string n \<noteq> []"
  by (simp add: to_string_def)

lemma trimmed_to_string [simp]: "trimmed (to_string n)"
proof -
  have "c \<notin> set blanks" if "c \<in> set (to_string n)" for c
    using set_to_string [OF that] by (auto simp: blanks_def is_digit_def)
  then show ?thesis by (simp add: trimmed_def)
qed

lemma stol_bounds: "stol s = Some n \<Longrightarrow> - (2 ^ 63) \<le> n \<and> n < 2 ^ 63"
  by (auto simp: stol_def in_signed_range_def split: option.splits if_splits)

lemma stoi_bounds: "stoi s = Some n \<Longrightarrow> - (2 ^ 31) \<le> n \<and> n < 2 ^ 31"
  by (auto simp: stoi_def in_signed_range_def split: option.splits if_splits)

end
