(* ===== verification/Gnmi_Reply.thy ===== *)
theory Gnmi_Reply
  imports Cpp_Num
begin

text \<open>
  The results a gNMI backend reports (\<open>inc/zerotouch/gnmi_sink.hpp\<close>) and their rendering as one
  reply SMS (\<open>src/gnmi_reply.cpp\<close>, \<open>inc/zerotouch/gnmi_reply.hpp\<close>).
\<close>

record GnmiPathResult =
  pr_xpath :: string
  pr_value :: string
  pr_error :: string

record GnmiResult =
  res_ok :: bool
  res_grpc_status :: int
  res_grpc_message :: string
  res_paths :: "GnmiPathResult list"

definition empty_result :: GnmiResult where
  "empty_result = \<lparr>res_ok = False, res_grpc_status = - 1, res_grpc_message = [], res_paths = []\<rparr>"

definition kMaxReply :: nat where
  "kMaxReply = 160"

definition clamp_sms :: "string \<Rightarrow> nat \<Rightarrow> string" where
  "clamp_sms s mx =
     (if length s \<le> mx then s
      else if mx \<le> 3 then substr 0 mx s
      else substr 0 (mx - 3) s @ ''...'')"

abbreviation clamp_reply :: "string \<Rightarrow> string" where
  "clamp_reply s \<equiv> clamp_sms s kMaxReply"

definition grpc_status_text :: "int \<Rightarrow> string" where
  "grpc_status_text code =
     (if code = - 1 then ''transport error''
      else if code = 1 then ''cancelled''
      else if code = 2 then ''unknown''
      else if code = 3 then ''invalid argument''
      else if code = 4 then ''deadline exceeded''
      else if code = 5 then ''not found''
      else if code = 6 then ''already exists''
      else if code = 7 then ''permission denied''
      else if code = 8 then ''resource exhausted''
      else if code = 9 then ''failed precondition''
      else if code = 10 then ''aborted''
      else if code = 11 then ''out of range''
      else if code = 12 then ''unimplemented''
      else if code = 13 then ''internal''
      else if code = 14 then ''unavailable''
      else if code = 15 then ''data loss''
      else if code = 16 then ''unauthenticated''
      else if code = 0 then ''failed'' else ''status '' @ to_string code)"

definition failure_text :: "GnmiResult \<Rightarrow> string" where
  "failure_text r = (if res_grpc_message r = [] then grpc_status_text (res_grpc_status r)
                     else res_grpc_message r)"

text \<open>One row of a GET reply: a row with an error shows the error, never the value.\<close>

definition row_text :: "GnmiPathResult \<Rightarrow> string" where
  "row_text p = pr_xpath p @ ''='' @
     (if pr_error p = [] then pr_value p else ''<'' @ pr_error p @ ''>'')"

fun get_body :: "string \<Rightarrow> bool \<Rightarrow> GnmiPathResult list \<Rightarrow> string" where
  "get_body body first [] = body"
| "get_body body first (p # ps) =
     get_body ((if first then body else body @ ''; '') @ row_text p) False ps"

definition format_get :: "GnmiResult \<Rightarrow> string" where
  "format_get r =
     (if \<not> res_ok r then clamp_reply (''ERR GNMI GET '' @ failure_text r)
      else clamp_reply (get_body ''OK GNMI GET '' True (res_paths r)))"

definition format_set :: "GnmiResult \<Rightarrow> nat \<Rightarrow> string" where
  "format_set r n =
     (if \<not> res_ok r then clamp_reply (''ERR GNMI SET '' @ failure_text r)
      else clamp_reply (''OK GNMI SET '' @ to_string (int n) @ '' path(s) updated''))"

subsection \<open>Clamping\<close>

lemma clamp_sms_length [len_bounds]: "length (clamp_sms s mx) \<le> mx"
  by (auto simp: clamp_sms_def substr_def)

lemma clamp_sms_short: "length s \<le> mx \<Longrightarrow> clamp_sms s mx = s"
  by (simp add: clamp_sms_def)

lemma clamp_sms_take: "take (mx - 3) (clamp_sms s mx) = take (mx - 3) s"
  by (auto simp: clamp_sms_def substr_def)

lemma clamp_reply_Nil [simp]: "clamp_reply s = [] \<longleftrightarrow> s = []"
  by (auto simp: clamp_sms_def substr_def kMaxReply_def)

lemma clamp_reply_prefix:
  "prefix p s \<Longrightarrow> length p \<le> kMaxReply - 3 \<Longrightarrow> prefix p (clamp_reply s)"
proof -
  assume p: "prefix p s" and l: "length p \<le> kMaxReply - 3"
  then have "prefix p (take (kMaxReply - 3) s)"
    by (auto simp: prefix_def)
  then have "prefix p (take (kMaxReply - 3) (clamp_reply s))"
    by (simp add: clamp_sms_take)
  then show ?thesis using prefix_order.trans take_is_prefix by blast
qed

subsection \<open>The rows of a GET reply\<close>

lemma get_body_prefix: "prefix body (get_body body first ps)"
proof (induction ps arbitrary: body first)
  case (Cons p ps)
  have "prefix body ((if first then body else body @ ''; '') @ row_text p)" by auto
  also have "prefix \<dots> (get_body body first (p # ps))" using Cons.IH by simp
  finally show ?case .
qed simp

text \<open>Two result lists that show the same thing: equal but for the values of failed rows.\<close>

definition shows_same :: "GnmiPathResult \<Rightarrow> GnmiPathResult \<Rightarrow> bool" where
  "shows_same p q \<longleftrightarrow> pr_xpath p = pr_xpath q \<and> pr_error p = pr_error q
     \<and> (pr_error p = [] \<longrightarrow> pr_value p = pr_value q)"

lemma row_text_cong: "shows_same p q \<Longrightarrow> row_text p = row_text q"
  by (auto simp: shows_same_def row_text_def)

lemma get_body_cong: "list_all2 shows_same ps qs \<Longrightarrow> get_body body first ps = get_body body first qs"
  by (induction ps qs arbitrary: body first rule: list_all2_induct) (auto dest: row_text_cong)

lemma format_get_length [len_bounds]: "length (format_get r) \<le> kMaxReply"
  and format_set_length [len_bounds]: "length (format_set r n) \<le> kMaxReply"
  by (simp_all add: format_get_def format_set_def len_bounds)

lemma format_nonempty [simp]: "format_get r \<noteq> []" "format_set r n \<noteq> []"
  using get_body_prefix [of "''OK GNMI GET ''" True "res_paths r"]
  by (auto simp: format_get_def format_set_def)

text \<open>
  Non-interference of a GET reply: the SMS text depends on a row's value only when the row
  carries no error.  Two results that agree on the outcome and on all rows, except for the values
  of rows with an error, are rendered to the same SMS, so the value behind a denied path cannot be
  recovered from the reply.
\<close>

theorem format_get_masks_values:
  assumes "res_ok r = res_ok r'" "res_grpc_status r = res_grpc_status r'"
    and "res_grpc_message r = res_grpc_message r'"
    and "list_all2 shows_same (res_paths r) (res_paths r')"
  shows "format_get r = format_get r'"
  using assms by (simp add: format_get_def failure_text_def get_body_cong)

theorem format_get_masks_values_witness:
  "format_get \<lparr>res_ok = True, res_grpc_status = 0, res_grpc_message = [],
      res_paths = [\<lparr>pr_xpath = ''/p'', pr_value = ''s3cr3t'', pr_error = ''denied''\<rparr>]\<rparr>
   = format_get \<lparr>res_ok = True, res_grpc_status = 0, res_grpc_message = [],
      res_paths = [\<lparr>pr_xpath = ''/p'', pr_value = [], pr_error = ''denied''\<rparr>]\<rparr>"
  by (rule format_get_masks_values) (simp_all add: shows_same_def)

text \<open>
  C36.  A reply always fits one SMS and says what happened: it is at most 160 bytes, it starts with
  \<open>OK GNMI\<close> exactly when the operation succeeded and with \<open>ERR GNMI\<close> exactly when it failed,
  however long the server's message or the values are.
\<close>

theorem replies_fit_and_tell_outcome:
  "length (format_get r) \<le> kMaxReply \<and> length (format_set r n) \<le> kMaxReply
   \<and> (prefix ''OK GNMI GET '' (format_get r) \<longleftrightarrow> res_ok r)
   \<and> (prefix ''ERR GNMI GET '' (format_get r) \<longleftrightarrow> \<not> res_ok r)
   \<and> (prefix ''OK GNMI SET '' (format_set r n) \<longleftrightarrow> res_ok r)
   \<and> (prefix ''ERR GNMI SET '' (format_set r n) \<longleftrightarrow> \<not> res_ok r)"
proof -
  have ex: "\<not> (prefix (a # p) s \<and> prefix (b # q) s)" if "a \<noteq> b" for a b :: char and p q s
    using that by (cases s) auto
  have g1: "res_ok r \<Longrightarrow> prefix ''OK GNMI GET '' (format_get r)"
    unfolding format_get_def if_not_P if_P
    using clamp_reply_prefix [OF get_body_prefix] by (simp add: kMaxReply_def)
  have g2: "\<not> res_ok r \<Longrightarrow> prefix ''ERR GNMI GET '' (format_get r)"
    using clamp_reply_prefix [of "''ERR GNMI GET ''" "''ERR GNMI GET '' @ failure_text r"]
    by (simp add: format_get_def kMaxReply_def)
  have s1: "res_ok r \<Longrightarrow> prefix ''OK GNMI SET '' (format_set r n)"
    using clamp_reply_prefix [of "''OK GNMI SET ''"
        "''OK GNMI SET '' @ to_string (int n) @ '' path(s) updated''"]
    by (simp add: format_set_def kMaxReply_def)
  have s2: "\<not> res_ok r \<Longrightarrow> prefix ''ERR GNMI SET '' (format_set r n)"
    using clamp_reply_prefix [of "''ERR GNMI SET ''" "''ERR GNMI SET '' @ failure_text r"]
    by (simp add: format_set_def kMaxReply_def)
  from g1 g2 s1 s2 ex [of "CHR ''O''" "CHR ''E''"] show ?thesis
    using format_get_length format_set_length by blast
qed

end
