(* ===== verification/Gnmi_Executor.thy ===== *)
theory Gnmi_Executor
  imports Gnmi_Command Gnmi_Reply
begin

text \<open>
  The seam to a gNMI backend (\<open>GnmiSink\<close>, \<open>inc/zerotouch/gnmi_sink.hpp\<close>) and the executor that
  authenticates a parsed command, runs it through the backend and renders the reply
  (\<open>src/gnmi_executor.cpp\<close>).  A backend call may change the world; the session lookup behind
  \<open>AuthFn\<close> may too.
\<close>

record 'w GnmiSink =
  sink_get :: "string list \<Rightarrow> ('w, GnmiResult) eff"
  sink_set :: "(string \<times> string) list \<Rightarrow> ('w, GnmiResult) eff"

datatype Access = AccessNone | Viewer | Admin

text \<open>The levels are ordered as the enumeration lists them.\<close>

instantiation Access :: linorder
begin

fun rank :: "Access \<Rightarrow> nat" where
  "rank AccessNone = 0"
| "rank Viewer = 1"
| "rank Admin = 2"

definition less_eq_Access :: "Access \<Rightarrow> Access \<Rightarrow> bool" where
  "less_eq_Access a b \<longleftrightarrow> rank a \<le> rank b"

definition less_Access :: "Access \<Rightarrow> Access \<Rightarrow> bool" where
  "less_Access a b \<longleftrightarrow> rank a < rank b"

instance
proof
  show "x = y" if "x \<le> y" "y \<le> x" for x y :: Access
    using that by (cases x; cases y) (simp_all add: less_eq_Access_def)
qed (auto simp: less_eq_Access_def less_Access_def)

end

type_synonym 'w AuthFn = "string \<Rightarrow> ('w, Access) eff"

record 'w GnmiExecutor =
  gx_sink :: "'w GnmiSink"
  gx_auth :: "'w AuthFn callable"

definition GnmiExecutor_handle :: "'w GnmiExecutor \<Rightarrow> GnmiCommand \<Rightarrow> string \<Rightarrow> ('w, string) eff" where
  "GnmiExecutor_handle gex cmd sender w =
     (let (access, w1) = (case gx_auth gex of Some auth \<Rightarrow> auth sender w | None \<Rightarrow> (AccessNone, w)) in
      case cmd_kind cmd of
        NotGnmi \<Rightarrow> ([], w1)
      | Unknown \<Rightarrow> (clamp_reply (''ERR '' @ cmd_error cmd), w1)
      | Get \<Rightarrow>
          if access = AccessNone then (clamp_reply ''ERR GNMI GET login required'', w1)
          else (let (r, w2) = sink_get (gx_sink gex) (cmd_xpaths cmd) w1 in (format_get r, w2))
      | Set \<Rightarrow>
          if access \<noteq> Admin then (clamp_reply ''ERR GNMI SET admin login required'', w1)
          else (let (r, w2) = sink_set (gx_sink gex) (cmd_updates cmd) w1
                in (format_set r (length (cmd_updates cmd)), w2)))"

subsection \<open>Access control\<close>

text \<open>The access a sender holds, and whether it suffices for a command.\<close>

definition access_of :: "'w GnmiExecutor \<Rightarrow> string \<Rightarrow> 'w \<Rightarrow> Access" where
  "access_of gex sender w = (case gx_auth gex of Some auth \<Rightarrow> fst (auth sender w) | None \<Rightarrow> AccessNone)"

definition after_auth :: "'w GnmiExecutor \<Rightarrow> string \<Rightarrow> 'w \<Rightarrow> 'w" where
  "after_auth gex sender w = (case gx_auth gex of Some auth \<Rightarrow> snd (auth sender w) | None \<Rightarrow> w)"

definition permitted :: "GnmiKind \<Rightarrow> Access \<Rightarrow> bool" where
  "permitted k a \<longleftrightarrow> (k = Get \<and> a \<noteq> AccessNone) \<or> (k = Set \<and> a = Admin)"

lemma permitted_iff: "permitted k a \<longleftrightarrow> (k = Get \<and> Viewer \<le> a) \<or> (k = Set \<and> Admin \<le> a)"
  by (cases a) (auto simp: permitted_def less_eq_Access_def)

lemma permitted_mono: "permitted k a \<Longrightarrow> a \<le> b \<Longrightarrow> permitted k b"
  by (auto simp: permitted_iff)

lemma handle_unfold:
  "GnmiExecutor_handle gex cmd sender w =
     (let w1 = after_auth gex sender w in
      case cmd_kind cmd of
        NotGnmi \<Rightarrow> ([], w1)
      | Unknown \<Rightarrow> (clamp_reply (''ERR '' @ cmd_error cmd), w1)
      | Get \<Rightarrow>
          if \<not> permitted Get (access_of gex sender w)
          then (clamp_reply ''ERR GNMI GET login required'', w1)
          else (let (r, w2) = sink_get (gx_sink gex) (cmd_xpaths cmd) w1 in (format_get r, w2))
      | Set \<Rightarrow>
          if \<not> permitted Set (access_of gex sender w)
          then (clamp_reply ''ERR GNMI SET admin login required'', w1)
          else (let (r, w2) = sink_set (gx_sink gex) (cmd_updates cmd) w1
                in (format_set r (length (cmd_updates cmd)), w2)))"
  by (auto simp: GnmiExecutor_handle_def after_auth_def access_of_def permitted_def Let_def
      split: option.splits prod.splits GnmiKind.splits)

lemma executor_refused_get:
  "cmd_kind cmd = Get \<Longrightarrow> \<not> permitted Get (access_of gex sender w) \<Longrightarrow>
     fst (GnmiExecutor_handle gex cmd sender w) = clamp_reply ''ERR GNMI GET login required''"
  by (simp add: handle_unfold Let_def)

lemma handle_length [len_bounds]: "length (fst (GnmiExecutor_handle gex cmd sender w)) \<le> kMaxReply"
  by (simp add: handle_unfold Let_def len_bounds split: GnmiKind.split prod.split)

lemma handle_empty_iff: "fst (GnmiExecutor_handle gex cmd sender w) = [] \<longleftrightarrow> cmd_kind cmd = NotGnmi"
  by (simp add: handle_unfold Let_def split: GnmiKind.split prod.split)

subsection \<open>The contract of a backend\<close>

text \<open>
  A backend promises never to return a value for a sensitive path: such a row carries an error and
  no value.  Whatever backend keeps the promise, the executor's replies never show a value for a
  sensitive path.
\<close>

locale masking_sink =
  fixes snk :: "'w GnmiSink"
    and sensitive :: "string \<Rightarrow> bool"
  assumes get_masks: "sink_get snk xs w = (r, w') \<Longrightarrow> p \<in> set (res_paths r) \<Longrightarrow>
      sensitive (pr_xpath p) \<Longrightarrow> pr_value p = [] \<and> pr_error p \<noteq> []"
begin

lemma masked_row:
  "sink_get snk xs w = (r, w') \<Longrightarrow> p \<in> set (res_paths r) \<Longrightarrow> sensitive (pr_xpath p) \<Longrightarrow>
     row_text p = pr_xpath p @ ''=<'' @ pr_error p @ ''>''"
  using get_masks [of xs w r w' p] by (simp add: row_text_def)

text \<open>
  A reply to a permitted GET is the rendering of exactly the rows the backend returned, and shows each
  row of a sensitive path as its path and the error.
\<close>

lemma get_reply_rows:
  assumes "gx_sink gex = snk" "cmd_kind cmd = Get" "permitted Get (access_of gex sender w)"
    and "sink_get snk (cmd_xpaths cmd) (after_auth gex sender w) = (r, w')"
  shows "GnmiExecutor_handle gex cmd sender w = (format_get r, w')
    \<and> (\<forall>p \<in> set (res_paths r). sensitive (pr_xpath p) \<longrightarrow> row_text p = pr_xpath p @ ''=<'' @ pr_error p @ ''>'')"
  using assms masked_row [OF assms(4)] by (simp add: handle_unfold Let_def)

end

text \<open>
  C35.  Access control of the gNMI commands: without the required access (a session for GET, an Admin
  session for SET) the backend is never called.  The world after the command is the world the
  session lookup left, and the reply is the fixed refusal, the same for every backend; a malformed
  command never reaches the backend either.
\<close>

theorem executor_refuses_without_access:
  assumes "\<not> permitted (cmd_kind cmd) (access_of gex sender w)"
  shows "GnmiExecutor_handle gex cmd sender w =
    ((case cmd_kind cmd of
        NotGnmi \<Rightarrow> []
      | Unknown \<Rightarrow> clamp_reply (''ERR '' @ cmd_error cmd)
      | Get \<Rightarrow> ''ERR GNMI GET login required''
      | Set \<Rightarrow> ''ERR GNMI SET admin login required''), after_auth gex sender w)"
  using assms by (cases "cmd_kind cmd") (simp_all add: handle_unfold clamp_sms_def kMaxReply_def)

theorem executor_refuses_without_access_witness:
  "GnmiExecutor_handle
     \<lparr>gx_sink = \<lparr>sink_get = (\<lambda>_ w. (empty_result, w + 1)), sink_set = (\<lambda>_ w. (empty_result, w + 1))\<rparr>,
      gx_auth = Some (\<lambda>_ w. (Viewer, w))\<rparr>
     (empty_command\<lparr>cmd_kind := Set, cmd_updates := [(''/a'', ''1'')]\<rparr>) ''+1555'' (0 :: nat)
   = (''ERR GNMI SET admin login required'', 0)"
  by (subst executor_refuses_without_access)
    (simp_all add: permitted_def access_of_def after_auth_def)

end
