(* ===== verification/Sms_Bridge.thy ===== *)
theory Sms_Bridge
  imports Gnmi_Executor
begin

text \<open>
  The SMS seam (\<open>inc/zerotouch/sms_transport.hpp\<close>), the reachability test of a sender
  (\<open>src/sms_util.cpp\<close>) and the bridge that handles one inbound SMS (\<open>src/bridge.cpp\<close>,
  \<open>inc/zerotouch/bridge.hpp\<close>): gate the sender, tokenize, route to the gNMI executor or to the
  classic engine, and send a non-empty reply.
\<close>

record InboundSms =
  sms_sender :: string
  sms_text :: string
  sms_ts :: string

text \<open>
  A transport: \<open>send\<close>, and \<open>start\<close> with the callback \<open>on_message\<close> registered before it (an empty
  callback when none was).
\<close>

record 'w ISmsTransport =
  tx_send :: "string \<Rightarrow> string \<Rightarrow> ('w, bool) eff"
  tx_start :: "(InboundSms \<Rightarrow> 'w \<Rightarrow> 'w) callable \<Rightarrow> 'w \<Rightarrow> 'w"

fun reachable_loop :: "nat \<Rightarrow> string \<Rightarrow> bool" where
  "reachable_loop digits [] = (digits \<ge> 7)"
| "reachable_loop digits (c # s) =
     (if is_digit c then reachable_loop (digits + 1) s
      else if c \<noteq> CHR ''+'' \<and> c \<noteq> CHR '' '' \<and> c \<noteq> CHR ''-'' then False
      else reachable_loop digits s)"

definition is_reachable_sender :: "string \<Rightarrow> bool" where
  "is_reachable_sender sender = reachable_loop 0 sender"

record 'w Bridge =
  br_tx :: "'w ISmsTransport"
  br_gex :: "'w GnmiExecutor"
  br_tok :: "(string \<Rightarrow> string list) callable"
  br_fallback :: "(string \<Rightarrow> string \<Rightarrow> ('w, string) eff) callable"
  br_allow :: "(string \<Rightarrow> ('w, bool) eff) callable"

definition send_unless_empty :: "'w Bridge \<Rightarrow> string \<Rightarrow> string \<Rightarrow> 'w \<Rightarrow> 'w" where
  "send_unless_empty br to reply w = (if reply \<noteq> [] then snd (tx_send (br_tx br) to reply w) else w)"

definition Bridge_on_sms :: "'w Bridge \<Rightarrow> InboundSms \<Rightarrow> 'w \<Rightarrow> 'w" where
  "Bridge_on_sms br inb w =
     (let (allowed, w1) =
        (case br_allow br of Some allow \<Rightarrow> allow (sms_sender inb) w | None \<Rightarrow> (True, w)) in
      if \<not> allowed then w1
      else
        let tokens = (case br_tok br of Some tok \<Rightarrow> tok (sms_text inb) | None \<Rightarrow> []);
            g = parse_gnmi tokens in
        if cmd_kind g \<noteq> NotGnmi then
          (let (reply, w2) = GnmiExecutor_handle (br_gex br) g (sms_sender inb) w1
           in send_unless_empty br (sms_sender inb) reply w2)
        else
          (case br_fallback br of
             Some fallback \<Rightarrow>
               (let (reply, w2) = fallback (sms_sender inb) (sms_text inb) w1
                in send_unless_empty br (sms_sender inb) reply w2)
           | None \<Rightarrow> w1))"

definition Bridge_start :: "'w Bridge \<Rightarrow> 'w \<Rightarrow> 'w" where
  "Bridge_start br w = tx_start (br_tx br) (Some (Bridge_on_sms br)) w"

subsection \<open>Reachable senders\<close>

lemma reachable_loop_iff:
  "reachable_loop d s \<longleftrightarrow>
     (\<forall>c \<in> set s. is_digit c \<or> c \<in> {CHR ''+'', CHR '' '', CHR ''-''})
     \<and> 7 \<le> d + length (filter is_digit s)"
  by (induction d s rule: reachable_loop.induct) auto

text \<open>
  A sender is one the device can answer exactly when its text consists of digits, plus signs,
  spaces and hyphens only and has at least seven digits.
\<close>

theorem reachable_sender_iff:
  "is_reachable_sender s \<longleftrightarrow>
     set s \<subseteq> {c. is_digit c} \<union> {CHR ''+'', CHR '' '', CHR ''-''} \<and> 7 \<le> length (filter is_digit s)"
  by (auto simp: is_reachable_sender_def reachable_loop_iff)

subsection \<open>The gate\<close>

definition gate :: "'w Bridge \<Rightarrow> string \<Rightarrow> ('w, bool) eff" where
  "gate br sender w = (case br_allow br of Some allow \<Rightarrow> allow sender w | None \<Rightarrow> (True, w))"

text \<open>The reply of the routed engine, and the world it leaves.\<close>

definition route :: "'w Bridge \<Rightarrow> InboundSms \<Rightarrow> ('w, string) eff" where
  "route br inb w =
     (let g = parse_gnmi (case br_tok br of Some tok \<Rightarrow> tok (sms_text inb) | None \<Rightarrow> []) in
      if cmd_kind g \<noteq> NotGnmi then GnmiExecutor_handle (br_gex br) g (sms_sender inb) w
      else (case br_fallback br of Some f \<Rightarrow> f (sms_sender inb) (sms_text inb) w | None \<Rightarrow> ([], w)))"

lemma on_sms_gate_route:
  "Bridge_on_sms br inb w =
     (let (allowed, w1) = gate br (sms_sender inb) w in
      if \<not> allowed then w1
      else (let (reply, w2) = route br inb w1 in send_unless_empty br (sms_sender inb) reply w2))"
  by (auto simp: Bridge_on_sms_def gate_def route_def send_unless_empty_def Let_def
      split: option.splits prod.splits)

subsection \<open>The contract of a transport and what the bridge makes of it\<close>

text \<open>
  \<open>sent\<close> observes the messages handed to the network.  A transport appends exactly the message it
  was given when \<open>send\<close> returns true and nothing when it returns false; the gate, the executor
  and the classic engine do not send by themselves.
\<close>

locale bridge_contract =
  fixes br :: "'w Bridge"
    and sent :: "'w \<Rightarrow> (string \<times> string) list"
  assumes send_logs: "tx_send (br_tx br) to txt w = (b, w') \<Longrightarrow>
      sent w' = (if b then sent w @ [(to, txt)] else sent w)"
    and gate_quiet: "gate br s w = (b, w') \<Longrightarrow> sent w' = sent w"
    and auth_quiet: "sent (after_auth (br_gex br) s w) = sent w"
    and get_quiet: "sink_get (gx_sink (br_gex br)) xs w = (r, w') \<Longrightarrow> sent w' = sent w"
    and set_quiet: "sink_set (gx_sink (br_gex br)) us w = (r, w') \<Longrightarrow> sent w' = sent w"
    and fallback_quiet: "br_fallback br = Some f \<Longrightarrow> f s t w = (reply, w') \<Longrightarrow> sent w' = sent w"
begin

lemma handle_quiet: "GnmiExecutor_handle (br_gex br) cmd s w = (reply, w') \<Longrightarrow> sent w' = sent w"
  using auth_quiet [of s w]
  by (auto simp: handle_unfold Let_def split: GnmiKind.splits prod.splits if_splits
      dest!: get_quiet set_quiet)

lemma route_quiet: "route br inb w = (reply, w') \<Longrightarrow> sent w' = sent w"
  by (auto simp: route_def Let_def split: if_splits option.splits dest: handle_quiet fallback_quiet)

lemma sent_send_unless_empty:
  "sent (send_unless_empty br to reply w) = sent w \<or>
   (reply \<noteq> [] \<and> sent (send_unless_empty br to reply w) = sent w @ [(to, reply)])"
proof (cases "tx_send (br_tx br) to reply w")
  case (Pair b w')
  then show ?thesis using send_logs [OF Pair] by (auto simp: send_unless_empty_def)
qed

lemma dropped_in_silence:
  "\<not> fst (gate br (sms_sender inb) w) \<Longrightarrow> sent (Bridge_on_sms br inb w) = sent w"
  using gate_quiet by (auto simp: on_sms_gate_route split: prod.splits)

lemma at_most_one_reply:
  "sent (Bridge_on_sms br inb w) = sent w \<or>
   (\<exists>reply. reply \<noteq> [] \<and> sent (Bridge_on_sms br inb w) = sent w @ [(sms_sender inb, reply)])"
proof -
  obtain a w1 where g: "gate br (sms_sender inb) w = (a, w1)" by fastforce
  obtain reply w2 where r: "route br inb w1 = (reply, w2)" by fastforce
  have "sent w2 = sent w" using gate_quiet [OF g] route_quiet [OF r] by simp
  then show ?thesis
    using g r gate_quiet [OF g] sent_send_unless_empty [of "sms_sender inb" reply w2]
    by (auto simp: on_sms_gate_route)
qed

lemma gnmi_reply_fits:
  assumes "cmd_kind (parse_gnmi tokens) \<noteq> NotGnmi" and "br_tok br = Some tok"
    and "tok (sms_text inb) = tokens"
    and "sent (Bridge_on_sms br inb w) \<noteq> sent w"
  shows "\<exists>reply. reply \<noteq> [] \<and> length reply \<le> kMaxReply \<and>
    sent (Bridge_on_sms br inb w) = sent w @ [(sms_sender inb, reply)]"
proof -
  obtain a w1 where g: "gate br (sms_sender inb) w = (a, w1)" by fastforce
  obtain reply w2 where r: "route br inb w1 = (reply, w2)" by fastforce
  have "sent w2 = sent w" using gate_quiet [OF g] route_quiet [OF r] by simp
  moreover have "length reply \<le> kMaxReply"
    using r assms handle_length [of "br_gex br" "parse_gnmi tokens" "sms_sender inb" w1]
    by (simp add: route_def)
  ultimately show ?thesis
    using assms(4) g r gate_quiet [OF g] sent_send_unless_empty [of "sms_sender inb" reply w2]
    by (auto simp: on_sms_gate_route split: if_splits)
qed

end

end
