(* ===== verification/Smsctl.thy ===== *)
theory Smsctl
  imports Sms_Bridge
begin

text \<open>
  The interface of the classic command engine \<open>smsctl\<close>, a library outside the repository, as the
  three programs use it: the tokenizer and parser, the session store with its configuration, and
  the executor, which acts on a \<open>DsSink\<close> and resolves users through a callback.  Its functions are
  the fields of a record and parameters of every definition that calls them; \<open>'ss\<close> is the state of
  a session store, \<open>'c\<close> a parsed command, \<open>'d\<close> the world behind the \<open>DsSink\<close>.
\<close>

record Account =
  acc_id :: string
  acc_hash :: string
  acc_access :: string

record 'd DsSink =
  ds_set :: "string \<Rightarrow> string \<Rightarrow> ('d, bool) eff"
  ds_get :: "string \<Rightarrow> ('d, string option) eff"
  ds_arm_trigger :: "string \<Rightarrow> string \<Rightarrow> ('d, bool) eff"
  ds_now_ms :: "('d, u64) eff"

record SessionConfig =
  ss_session_ttl_sec :: u32
  ss_lockout_failures :: u32
  ss_lockout_sec :: u32
  ss_allowed_numbers :: "string list"

datatype Kind = NotACommand | Wifi | FactoryReset | OtherKind

type_synonym 'd LookupFn = "string \<Rightarrow> ('d, Account option) eff"

record ('ss, 'c, 'd) smsctl =
  tokenize :: "string \<Rightarrow> string list"
  sms_parse :: "string \<Rightarrow> 'c"
  kind_of :: "'c \<Rightarrow> Kind"
  keyword :: "'c \<Rightarrow> string"
  sha256_hex :: "string \<Rightarrow> string"
  session :: "string \<Rightarrow> u64 \<Rightarrow> 'ss \<Rightarrow> Account option \<times> 'ss"
  session_sender_allowed :: "string \<Rightarrow> 'ss \<Rightarrow> bool"
  session_config :: "'ss \<Rightarrow> SessionConfig"
  session_set_config :: "SessionConfig \<Rightarrow> 'ss \<Rightarrow> 'ss"
  session_count :: "'ss \<Rightarrow> nat"
  session_sweep :: "u64 \<Rightarrow> 'ss \<Rightarrow> 'ss"
  executor_handle :: "'d DsSink \<Rightarrow> 'd LookupFn \<Rightarrow> 'c \<Rightarrow> string \<Rightarrow> u64 \<Rightarrow> u64 \<Rightarrow> ('ss \<times> 'd, string) eff"

text \<open>The access a session gives: the same three lines in the daemon, the appliance and the simulator.\<close>

definition account_access :: "Account option \<Rightarrow> Access" where
  "account_access acc =
     (case acc of None \<Rightarrow> AccessNone
      | Some a \<Rightarrow> if acc_access a = ''Admin'' then Admin else Viewer)"

text \<open>The seed of a command's one-time codes: \<open>x * 2654435761 + ++handled\<close> in 64 bits.\<close>

definition command_seed :: "u64 \<Rightarrow> u64 \<Rightarrow> u64" where
  "command_seed x handled = x * 2654435761 + handled"

lemma account_access_iff:
  "account_access acc = Admin \<longleftrightarrow> (\<exists>a. acc = Some a \<and> acc_access a = ''Admin'')"
  "account_access acc = AccessNone \<longleftrightarrow> acc = None"
  by (auto simp: account_access_def split: option.splits)

lemma command_seed_distinct: "command_seed x h = command_seed x h' \<longleftrightarrow> h = h'"
  by (simp add: command_seed_def)

text \<open>
  An instance of the classic engine on which the properties are tried: words are separated by
  single spaces, every sender holds the administrator's session, and no text is a command.
\<close>

definition demo_smsctl :: "(unit, unit, 'd) smsctl" where
  "demo_smsctl =
     \<lparr>tokenize = (\<lambda>s. csv (map (\<lambda>c. if c = CHR '' '' then CHR '','' else c) s)),
      sms_parse = (\<lambda>_. ()), kind_of = (\<lambda>_. NotACommand), keyword = (\<lambda>_. []), sha256_hex = (\<lambda>s. s),
      session = (\<lambda>_ _ ss. (Some \<lparr>acc_id = ''admin'', acc_hash = [], acc_access = ''Admin''\<rparr>, ss)),
      session_sender_allowed = (\<lambda>_ _. True),
      session_config = (\<lambda>_. \<lparr>ss_session_ttl_sec = 600, ss_lockout_failures = 5, ss_lockout_sec = 900,
                              ss_allowed_numbers = []\<rparr>),
      session_set_config = (\<lambda>_ ss. ss), session_count = (\<lambda>_. 1), session_sweep = (\<lambda>_ ss. ss),
      executor_handle = (\<lambda>_ _ _ _ _ _ sd. ([], sd))\<rparr>"

end
