(* ===== verification/Path_Policy.thy ===== *)
theory Path_Policy
  imports Cpp_Std
begin

text \<open>
  The sensitive-path denylist, \<open>src/path_policy.cpp\<close>: an xpath is sensitive when its lower-cased
  text contains one of the deny tokens.
\<close>

definition default_deny_tokens :: "string list" where
  "default_deny_tokens =
     [''password'', ''passwd'', ''psk'', ''secret'', ''private-key'', ''privatekey'',
      ''credential'', ''pre-shared'', ''apikey'', ''api-key'', ''auth-key'']"

definition is_sensitive_path :: "string \<Rightarrow> string list \<Rightarrow> bool" where
  "is_sensitive_path xpath tokens =
     (let low = map tolower xpath in list_ex (\<lambda>t. t \<noteq> [] \<and> sublist t low) tokens)"

text \<open>The overload that uses the built-in tokens.\<close>

definition is_sensitive_path_default :: "string \<Rightarrow> bool" where
  "is_sensitive_path_default xpath = is_sensitive_path xpath default_deny_tokens"

subsection \<open>What the denylist matches\<close>

lemma sublist_map_iff: "sublist t (map f xs) \<longleftrightarrow> (\<exists>pre m post. xs = pre @ m @ post \<and> map f m = t)"
proof
  assume "sublist t (map f xs)"
  from sublist_map_rightE [OF this] show "\<exists>pre m post. xs = pre @ m @ post \<and> map f m = t"
    by (auto simp: sublist_def)
qed auto

lemma is_sensitive_path_iff:
  "is_sensitive_path xpath tokens \<longleftrightarrow>
     (\<exists>t \<in> set tokens. t \<noteq> [] \<and> (\<exists>pre m post. xpath = pre @ m @ post \<and> map tolower m = t))"
  by (auto simp: is_sensitive_path_def list_ex_iff sublist_map_iff)

lemma is_sensitive_path_Nil [simp]: "\<not> is_sensitive_path xpath []"
  by (simp add: is_sensitive_path_def)

lemma is_sensitive_path_extend:
  "is_sensitive_path xpath tokens \<Longrightarrow> is_sensitive_path (pre @ xpath @ post) tokens"
proof -
  assume "is_sensitive_path xpath tokens"
  then obtain t where "t \<in> set tokens" "t \<noteq> []" "sublist t (map tolower xpath)"
    by (auto simp: is_sensitive_path_def list_ex_iff)
  moreover have "sublist (map tolower xpath) (map tolower (pre @ xpath @ post))" by simp
  ultimately show ?thesis
    unfolding is_sensitive_path_def list_ex_iff Let_def using sublist_order.order_trans by blast
qed

text \<open>
  A deny token that is not lower case never matches: only the path is lower-cased, so a custom
  token with a capital letter (such as \<open>PSK\<close>) protects nothing.
\<close>

lemma upper_case_token_is_dead:
  assumes "map tolower t \<noteq> t"
  shows "\<not> is_sensitive_path xpath [t]"
proof
  assume "is_sensitive_path xpath [t]"
  then obtain m where "map tolower m = t" by (auto simp: is_sensitive_path_iff)
  then have "map tolower t = t" by (metis map_tolower_idem)
  with assms show False by contradiction
qed

subsection \<open>The code against its header\<close>

text \<open>
  What \<open>inc/zerotouch/path_policy.hpp\<close> promises: a path is sensitive when it contains a token, the case
  of letters being ignored on both sides; an empty token is no token.
\<close>

definition promised_sensitive :: "string \<Rightarrow> string list \<Rightarrow> bool" where
  "promised_sensitive xpath tokens \<longleftrightarrow> (\<exists>t \<in> set tokens. t \<noteq> [] \<and> sublist (map tolower t) (map tolower xpath))"

abbreviation lower_case :: "string \<Rightarrow> bool" where
  "lower_case t \<equiv> map tolower t = t"

lemma sensitive_lower_tokens: "is_sensitive_path xpath tokens = promised_sensitive xpath (filter lower_case tokens)"
proof -
  have "sublist t (map tolower xpath) \<longleftrightarrow> lower_case t \<and> sublist (map tolower t) (map tolower xpath)" for t
    by (metis sublist_map_iff map_tolower_idem)
  then show ?thesis unfolding is_sensitive_path_def promised_sensitive_def list_ex_iff Let_def set_filter by blast
qed

lemma default_tokens_lower: "list_all lower_case default_deny_tokens"
  by code_simp

text \<open>
  C37.  The denylist keeps the promise of its header for lower-case tokens only.  With the built-in
  tokens it is the case-insensitive match that the header describes.  With a configured list it is
  that match for the tokens in lower case, and the others are dead: the list agrees with the
  header on every path exactly when each token with a capital letter is covered by tokens in lower
  case (in whatever case it is written, they catch it), so a list such as \<open>PSK\<close> alone lets every
  path through.
\<close>

theorem denylist_promise_lower_case_only:
  "is_sensitive_path_default xpath = promised_sensitive xpath default_deny_tokens
   \<and> is_sensitive_path xpath tokens = promised_sensitive xpath (filter lower_case tokens)
   \<and> ((\<forall>x. is_sensitive_path x tokens = promised_sensitive x tokens) \<longleftrightarrow>
        (\<forall>t \<in> set tokens. t \<noteq> [] \<and> \<not> lower_case t \<longrightarrow> is_sensitive_path t tokens))"
proof -
  have "filter lower_case default_deny_tokens = default_deny_tokens"
    using default_tokens_lower by (simp add: filter_id_conv list_all_iff)
  then have 1: "is_sensitive_path_default xpath = promised_sensitive xpath default_deny_tokens"
    by (simp add: is_sensitive_path_default_def sensitive_lower_tokens)
  have self: "promised_sensitive t tokens" if "t \<in> set tokens" "t \<noteq> []" for t
    using that by (auto simp: promised_sensitive_def)
  have "is_sensitive_path x tokens = promised_sensitive x tokens"
    if all: "\<forall>t \<in> set tokens. t \<noteq> [] \<and> \<not> lower_case t \<longrightarrow> is_sensitive_path t tokens" for x
  proof
    show "is_sensitive_path x tokens \<Longrightarrow> promised_sensitive x tokens"
      unfolding sensitive_lower_tokens by (auto simp: promised_sensitive_def)
    assume "promised_sensitive x tokens"
    then obtain t where t: "t \<in> set tokens" "t \<noteq> []" "sublist (map tolower t) (map tolower x)"
      by (auto simp: promised_sensitive_def)
    show "is_sensitive_path x tokens"
    proof (cases "lower_case t")
      case True
      with t show ?thesis unfolding sensitive_lower_tokens by (auto simp: promised_sensitive_def)
    next
      case False
      with t all obtain u where "u \<in> set tokens" "lower_case u" "u \<noteq> []" "sublist (map tolower u) (map tolower t)"
        unfolding sensitive_lower_tokens by (auto simp: promised_sensitive_def)
      moreover from this(4) t(3) have "sublist (map tolower u) (map tolower x)" by (rule sublist_order.order_trans)
      ultimately show ?thesis unfolding sensitive_lower_tokens promised_sensitive_def set_filter by blast
    qed
  qed
  with 1 sensitive_lower_tokens self show ?thesis by blast
qed

theorem denylist_promise_lower_case_only_witness:
  "\<not> (\<forall>x. is_sensitive_path x [''PSK''] = promised_sensitive x [''PSK''])
   \<and> is_sensitive_path_default ''/wifi/PsK''"
proof -
  have u: "\<not> lower_case ''PSK''" "\<not> is_sensitive_path ''PSK'' [''PSK'']" "promised_sensitive ''/wifi/PsK'' default_deny_tokens"
    by code_simp+
  from denylist_promise_lower_case_only [of "''/wifi/PsK''" "[''PSK'']"] u show ?thesis by simp
qed

end
