(* ===== verification/Local_Gnmi_Sink.thy ===== *)
theory Local_Gnmi_Sink
  imports Gnmi_Executor Path_Policy
begin

text \<open>
  The production backend, \<open>src/local_gnmi_sink.cpp\<close> and \<open>inc/zerotouch/local_gnmi_sink.hpp\<close>: it
  turns a GET or SET into one gNMI RPC against the device-local server and applies the denylist on
  both legs of a GET.

  The gNMI messages are protobuf messages of grace-server, a library outside the repository; a
  message is here the record of the fields the sources read and write.  The path and value codecs
  (\<open>gnmi_util\<close>), the (de)serialisation (\<open>SerializeToString\<close>, \<open>ParseFromString\<close>) and the blocking
  client \<open>gnmi_client::call\<close> are parameters: the types of paths, typed values and wire bytes too (\<open>no_bytes\<close> is the empty
  string of bytes).
\<close>

record 'p GetRequest =
  gq_target :: string
  gq_json :: bool
  gq_path :: "'p list"

record ('p, 'v) Update =
  up_path :: 'p
  up_val :: 'v

record ('p, 'v) Notification =
  nt_timestamp :: int
  nt_update :: "('p, 'v) Update list"

record ('p, 'v) SetRequest =
  sq_target :: string
  sq_update :: "('p, 'v) Update list"
  sq_replace :: "('p, 'v) Update list"
  sq_delete :: "'p list"

datatype Operation = UPDATE | REPLACE | DELETE

record 'p SetResponse =
  sr_timestamp :: int
  sr_response :: "('p \<times> Operation) list"

record ('p, 'v, 'b) gnmi_lib =
  no_bytes :: 'b
  parse_yang_path :: "string \<Rightarrow> 'p"
  path_to_string :: "'p \<Rightarrow> string"
  set_typed_value :: "string \<Rightarrow> 'v"
  typed_value_to_string :: "'v \<Rightarrow> string"
  get_req_bytes :: "'p GetRequest \<Rightarrow> 'b"
  get_req_parse :: "'b \<Rightarrow> 'p GetRequest option"
  get_resp_bytes :: "('p, 'v) Notification list \<Rightarrow> 'b"
  get_resp_parse :: "'b \<Rightarrow> ('p, 'v) Notification list option"
  set_req_bytes :: "('p, 'v) SetRequest \<Rightarrow> 'b"
  set_req_parse :: "'b \<Rightarrow> ('p, 'v) SetRequest option"
  set_resp_bytes :: "'p SetResponse \<Rightarrow> 'b"
  set_resp_parse :: "'b \<Rightarrow> 'p SetResponse option"

text \<open>\<open>gnmi_client::response\<close> and \<open>gnmi_client::call(host, port, method, pb, tls)\<close>\<close>

record 'b rpc_response =
  rr_status :: int
  rr_message :: string
  rr_body :: 'b

type_synonym ('w, 'b) rpc = "string \<Rightarrow> u16 \<Rightarrow> string \<Rightarrow> 'b \<Rightarrow> ('w, 'b rpc_response) eff"

record SinkConfig =
  sc_host :: string
  sc_port :: u16
  sc_get_role :: string
  sc_set_role :: string
  sc_deny_tokens :: "string list"

definition default_sink_config :: SinkConfig where
  "default_sink_config =
     \<lparr>sc_host = ''127.0.0.1'', sc_port = 50051, sc_get_role = ''VIEWER'', sc_set_role = ''ADMIN'',
      sc_deny_tokens = []\<rparr>"

definition rpc_ok :: "'b rpc_response \<Rightarrow> GnmiResult \<Rightarrow> bool \<times> GnmiResult" where
  "rpc_ok r out =
     (rr_status r = 0, out\<lparr>res_grpc_status := rr_status r, res_grpc_message := rr_message r\<rparr>)"

definition deny_of :: "SinkConfig \<Rightarrow> string list" where
  "deny_of cfg = (if sc_deny_tokens cfg = [] then default_deny_tokens else sc_deny_tokens cfg)"

abbreviation denied_row :: "string \<Rightarrow> GnmiPathResult" where
  "denied_row xp \<equiv> \<lparr>pr_xpath = xp, pr_value = [], pr_error = ''sensitive path denied''\<rparr>"

text \<open>The request loop: the rows of denied paths, the paths of the request, and the paths asked.\<close>

fun request_loop :: "('p, 'v, 'b) gnmi_lib \<Rightarrow> string list \<Rightarrow> string list \<Rightarrow>
    GnmiPathResult list \<times> 'p list \<times> string list \<Rightarrow> GnmiPathResult list \<times> 'p list \<times> string list" where
  "request_loop lib deny [] acc = acc"
| "request_loop lib deny (xp # xps) (rows, req, asked) =
     (if is_sensitive_path xp deny then request_loop lib deny xps (rows @ [denied_row xp], req, asked)
      else request_loop lib deny xps (rows, req @ [parse_yang_path lib xp], asked @ [xp]))"

text \<open>One returned leaf, re-checked on the way out.\<close>

definition leaf_row :: "('p, 'v, 'b) gnmi_lib \<Rightarrow> string list \<Rightarrow> ('p, 'v) Update \<Rightarrow> GnmiPathResult" where
  "leaf_row lib deny u =
     (let xp = path_to_string lib (up_path u) in
      if is_sensitive_path xp deny then denied_row xp
      else \<lparr>pr_xpath = xp, pr_value = typed_value_to_string lib (up_val u), pr_error = []\<rparr>)"

definition response_rows ::
  "('p, 'v, 'b) gnmi_lib \<Rightarrow> string list \<Rightarrow> ('p, 'v) Notification list \<Rightarrow> GnmiPathResult list" where
  "response_rows lib deny resp = concat (map (\<lambda>n. map (leaf_row lib deny) (nt_update n)) resp)"

definition LocalGnmiSink_get ::
  "('p, 'v, 'b) gnmi_lib \<Rightarrow> ('w, 'b) rpc \<Rightarrow> SinkConfig \<Rightarrow> string list \<Rightarrow> ('w, GnmiResult) eff" where
  "LocalGnmiSink_get lib call cfg xpaths w =
     (let deny = deny_of cfg;
          (rows, paths, asked) = request_loop lib deny xpaths ([], [], []);
          req = \<lparr>gq_target = sc_get_role cfg, gq_json = True, gq_path = paths\<rparr>;
          out = empty_result\<lparr>res_paths := rows\<rparr> in
      if asked = [] then
        (out\<lparr>res_ok := (if rows = [] then False else True), res_grpc_status := 0\<rparr>, w)
      else
        (let (r, w1) = call (sc_host cfg) (sc_port cfg) ''/gnmi.gNMI/Get'' (get_req_bytes lib req) w;
             (good, out1) = rpc_ok r out in
         if \<not> good then (out1, w1)
         else
           (case get_resp_parse lib (rr_body r) of
              None \<Rightarrow> (out1\<lparr>res_grpc_message := ''response parse failed''\<rparr>, w1)
            | Some resp \<Rightarrow>
                (out1\<lparr>res_paths := res_paths out1 @ response_rows lib deny resp, res_ok := True\<rparr>, w1))))"

definition LocalGnmiSink_set ::
  "('p, 'v, 'b) gnmi_lib \<Rightarrow> ('w, 'b) rpc \<Rightarrow> SinkConfig \<Rightarrow> (string \<times> string) list
     \<Rightarrow> ('w, GnmiResult) eff" where
  "LocalGnmiSink_set lib call cfg updates w =
     (let out = empty_result;
          req = \<lparr>sq_target = sc_set_role cfg,
                 sq_update = map (\<lambda>(x, v). \<lparr>up_path = parse_yang_path lib x,
                                              up_val = set_typed_value lib v\<rparr>) updates,
                 sq_replace = [], sq_delete = []\<rparr>;
          (r, w1) = call (sc_host cfg) (sc_port cfg) ''/gnmi.gNMI/Set'' (set_req_bytes lib req) w;
          (good, out1) = rpc_ok r out in
      if \<not> good then (out1, w1)
      else
        (case set_resp_parse lib (rr_body r) of
           None \<Rightarrow> (out1\<lparr>res_grpc_message := ''response parse failed''\<rparr>, w1)
         | Some resp \<Rightarrow>
             (out1\<lparr>res_paths := map (\<lambda>ur. \<lparr>pr_xpath = path_to_string lib (fst ur),
                                             pr_value = [], pr_error = []\<rparr>) (sr_response resp),
                   res_ok := True\<rparr>, w1)))"

definition LocalGnmiSink ::
  "('p, 'v, 'b) gnmi_lib \<Rightarrow> ('w, 'b) rpc \<Rightarrow> SinkConfig \<Rightarrow> 'w GnmiSink" where
  "LocalGnmiSink lib call cfg =
     \<lparr>sink_get = LocalGnmiSink_get lib call cfg, sink_set = LocalGnmiSink_set lib call cfg\<rparr>"

subsection \<open>A plain library\<close>

text \<open>
  An instance of the parameters on which the properties are tried: paths and values are their own
  texts, and a message is carried as it is.
\<close>

datatype wire =
    WEmpty
  | WGetReq "string GetRequest"
  | WGetResp "(string, string) Notification list"
  | WSetReq "(string, string) SetRequest"
  | WSetResp "string SetResponse"

definition plain_lib :: "(string, string, wire) gnmi_lib" where
  "plain_lib =
     \<lparr>no_bytes = WEmpty, parse_yang_path = (\<lambda>x. x), path_to_string = (\<lambda>p. p),
      set_typed_value = (\<lambda>v. v), typed_value_to_string = (\<lambda>v. v),
      get_req_bytes = WGetReq, get_req_parse = (\<lambda>b. case b of WGetReq m \<Rightarrow> Some m | _ \<Rightarrow> None),
      get_resp_bytes = WGetResp, get_resp_parse = (\<lambda>b. case b of WGetResp m \<Rightarrow> Some m | _ \<Rightarrow> None),
      set_req_bytes = WSetReq, set_req_parse = (\<lambda>b. case b of WSetReq m \<Rightarrow> Some m | _ \<Rightarrow> None),
      set_resp_bytes = WSetResp, set_resp_parse = (\<lambda>b. case b of WSetResp m \<Rightarrow> Some m | _ \<Rightarrow> None)\<rparr>"

lemma plain_lib_sel [simp]:
  "no_bytes plain_lib = WEmpty" "parse_yang_path plain_lib = (\<lambda>x. x)" "path_to_string plain_lib = (\<lambda>x. x)"
  "set_typed_value plain_lib = (\<lambda>x. x)" "typed_value_to_string plain_lib = (\<lambda>x. x)"
  "get_req_bytes plain_lib = WGetReq" "get_resp_bytes plain_lib = WGetResp"
  "set_req_bytes plain_lib = WSetReq" "set_resp_bytes plain_lib = WSetResp"
  "get_req_parse plain_lib (WGetReq a) = Some a" "get_resp_parse plain_lib (WGetResp b) = Some b"
  "set_req_parse plain_lib (WSetReq c) = Some c" "set_resp_parse plain_lib (WSetResp d) = Some d"
  "set_req_parse plain_lib WEmpty = None"
  by (simp_all add: plain_lib_def)

subsection \<open>What is asked and what is shown\<close>

lemma request_loop_eq:
  "request_loop lib deny xps (rows, req, asked) =
     (rows @ map denied_row (filter (\<lambda>x. is_sensitive_path x deny) xps),
      req @ map (parse_yang_path lib) (filter (\<lambda>x. \<not> is_sensitive_path x deny) xps),
      asked @ filter (\<lambda>x. \<not> is_sensitive_path x deny) xps)"
  by (induction xps arbitrary: rows req asked) auto

lemma leaf_row_masks:
  "is_sensitive_path (pr_xpath (leaf_row lib deny u)) deny \<Longrightarrow>
     leaf_row lib deny u = denied_row (pr_xpath (leaf_row lib deny u))"
  by (simp add: leaf_row_def Let_def split: if_splits)

lemma local_get_rows:
  "LocalGnmiSink_get lib call cfg xpaths w = (r, w') \<Longrightarrow> p \<in> set (res_paths r) \<Longrightarrow>
     is_sensitive_path (pr_xpath p) (deny_of cfg) \<Longrightarrow> p = denied_row (pr_xpath p)"
  by (auto simp: LocalGnmiSink_get_def request_loop_eq Let_def rpc_ok_def empty_result_def
      response_rows_def dest!: leaf_row_masks split: if_splits prod.splits option.splits)

interpretation local_sink: masking_sink "LocalGnmiSink lib call cfg"
  "\<lambda>x. is_sensitive_path x (deny_of cfg)" for lib call cfg
proof (unfold_locales, goal_cases)
  case (1 xs w r w' p)
  then have "p = denied_row (pr_xpath p)" by (auto simp: LocalGnmiSink_def intro: local_get_rows)
  then show ?case by (cases p) simp
qed

text \<open>
  Two answers of a server that differ in the values of sensitive leaves only: the same status and
  message, and bodies that parse to the same leaves in the same order, with equal texts for the
  values of all leaves that are not sensitive.
\<close>

definition same_leaf :: "('p, 'v, 'b) gnmi_lib \<Rightarrow> string list \<Rightarrow> ('p, 'v) Update \<Rightarrow> ('p, 'v) Update \<Rightarrow> bool" where
  "same_leaf lib deny u v \<longleftrightarrow> path_to_string lib (up_path u) = path_to_string lib (up_path v)
     \<and> (\<not> is_sensitive_path (path_to_string lib (up_path u)) deny \<longrightarrow>
          typed_value_to_string lib (up_val u) = typed_value_to_string lib (up_val v))"

definition same_but_secrets :: "('p, 'v, 'b) gnmi_lib \<Rightarrow> string list \<Rightarrow> 'b rpc_response \<Rightarrow> 'b rpc_response \<Rightarrow> bool" where
  "same_but_secrets lib deny r r' \<longleftrightarrow> rr_status r = rr_status r' \<and> rr_message r = rr_message r'
     \<and> rel_option (list_all2 (\<lambda>n n'. list_all2 (same_leaf lib deny) (nt_update n) (nt_update n')))
         (get_resp_parse lib (rr_body r)) (get_resp_parse lib (rr_body r'))"

lemma leaf_row_same: "same_leaf lib deny u v \<Longrightarrow> leaf_row lib deny u = leaf_row lib deny v"
  by (auto simp: same_leaf_def leaf_row_def Let_def)

lemma response_rows_same:
  assumes "list_all2 (\<lambda>n n'. list_all2 (same_leaf lib deny) (nt_update n) (nt_update n')) resp resp'"
  shows "response_rows lib deny resp = response_rows lib deny resp'"
proof -
  have rows: "map (leaf_row lib deny) us = map (leaf_row lib deny) vs" if "list_all2 (same_leaf lib deny) us vs" for us vs
    using that by (induction rule: list_all2_induct) (simp_all add: leaf_row_same)
  from assms show ?thesis
    by (induction rule: list_all2_induct) (simp_all add: response_rows_def rows)
qed

lemma local_get_same:
  assumes "\<And>pb. same_but_secrets lib (deny_of cfg) (fst (call (sc_host cfg) (sc_port cfg) ''/gnmi.gNMI/Get'' pb w))
      (fst (call' (sc_host cfg) (sc_port cfg) ''/gnmi.gNMI/Get'' pb w'))"
  shows "fst (LocalGnmiSink_get lib call cfg xs w) = fst (LocalGnmiSink_get lib call' cfg xs w')"
proof -
  let ?pb = "get_req_bytes lib \<lparr>gq_target = sc_get_role cfg, gq_json = True,
    gq_path = map (parse_yang_path lib) (filter (\<lambda>x. \<not> is_sensitive_path x (deny_of cfg)) xs)\<rparr>"
  obtain r v where r: "call (sc_host cfg) (sc_port cfg) ''/gnmi.gNMI/Get'' ?pb w = (r, v)" by fastforce
  obtain r' v' where r': "call' (sc_host cfg) (sc_port cfg) ''/gnmi.gNMI/Get'' ?pb w' = (r', v')" by fastforce
  have "same_but_secrets lib (deny_of cfg) r r'" using assms [of ?pb] r r' by simp
  then show ?thesis
    by (auto simp: LocalGnmiSink_get_def request_loop_eq r r' rpc_ok_def Let_def same_but_secrets_def
        response_rows_same split: option.splits)
qed

text \<open>
  C1.  The denylist holds end to end for the production backend.  The answer to a GET is the rendering
  of exactly the rows the backend returns, and each of these whose path is sensitive is the refusal.
  The values behind sensitive paths cannot be seen in it at all: against any other server whose
  answers differ from this one's in the values of sensitive leaves only, in any number of them and at
  any place of a subtree, the same GET by the same kind of sender gets the same reply, byte for byte.
  Codecs, servers and token lists are arbitrary, and so is how the RPC ends.
\<close>

theorem local_sink_never_leaks:
  assumes "gx_sink gex = LocalGnmiSink lib call cfg" "gx_sink gex' = LocalGnmiSink lib call' cfg" "cmd_kind cmd = Get"
    and "access_of gex sender w = access_of gex' sender' w'"
    and "\<And>pb. same_but_secrets lib (deny_of cfg)
      (fst (call (sc_host cfg) (sc_port cfg) ''/gnmi.gNMI/Get'' pb (after_auth gex sender w)))
      (fst (call' (sc_host cfg) (sc_port cfg) ''/gnmi.gNMI/Get'' pb (after_auth gex' sender' w')))"
  shows "fst (GnmiExecutor_handle gex cmd sender w) = fst (GnmiExecutor_handle gex' cmd sender' w')
    \<and> (permitted Get (access_of gex sender w) \<longrightarrow>
        (let rows = res_paths (fst (LocalGnmiSink_get lib call cfg (cmd_xpaths cmd) (after_auth gex sender w))) in
         (\<forall>p \<in> set rows. is_sensitive_path (pr_xpath p) (deny_of cfg) \<longrightarrow> p = denied_row (pr_xpath p))
         \<and> (prefix ''OK'' (fst (GnmiExecutor_handle gex cmd sender w)) \<longrightarrow>
              fst (GnmiExecutor_handle gex cmd sender w) = clamp_reply (get_body ''OK GNMI GET '' True rows))))"
proof (cases "permitted Get (access_of gex sender w)")
  case True
  let ?g = "LocalGnmiSink_get lib call cfg (cmd_xpaths cmd) (after_auth gex sender w)"
  let ?g' = "LocalGnmiSink_get lib call' cfg (cmd_xpaths cmd) (after_auth gex' sender' w')"
  have same: "fst ?g = fst ?g'" using assms(5) by (rule local_get_same)
  have h: "fst (GnmiExecutor_handle gex cmd sender w) = format_get (fst ?g)"
    using local_sink.get_reply_rows [OF assms(1,3) True, of "fst ?g" "snd ?g"] by (simp add: LocalGnmiSink_def)
  have h': "fst (GnmiExecutor_handle gex' cmd sender' w') = format_get (fst ?g')"
    using local_sink.get_reply_rows [OF assms(2,3), of sender' w' "fst ?g'" "snd ?g'"] True assms(4)
    by (simp add: LocalGnmiSink_def)
  have "\<not> prefix ''OK'' (format_get r)" if "\<not> res_ok r" for r
    using that clamp_reply_prefix [of "''ERR''" "''ERR GNMI GET '' @ failure_text r"]
    by (auto simp: format_get_def kMaxReply_def prefix_def)
  then have "prefix ''OK'' (format_get (fst ?g)) \<longrightarrow>
      format_get (fst ?g) = clamp_reply (get_body ''OK GNMI GET '' True (res_paths (fst ?g)))"
    by (auto simp: format_get_def)
  moreover have "\<forall>p \<in> set (res_paths (fst ?g)). is_sensitive_path (pr_xpath p) (deny_of cfg) \<longrightarrow> p = denied_row (pr_xpath p)"
    using local_get_rows [of lib call cfg "cmd_xpaths cmd" _ "fst ?g" "snd ?g"] by simp
  ultimately show ?thesis using h h' same by (simp add: Let_def)
next
  case False
  with assms(4) executor_refused_get [OF assms(3), of gex sender w] executor_refused_get [OF assms(3), of gex' sender' w']
  show ?thesis by simp
qed

text \<open>Servers that answer every GET with a subtree of three leaves, two of them secrets.\<close>

definition leaky_call :: "string \<Rightarrow> string \<Rightarrow> (unit, wire) rpc" where
  "leaky_call secret1 secret2 host port method pb w =
     (\<lparr>rr_status = 0, rr_message = [], rr_body = WGetResp [\<lparr>nt_timestamp = 0, nt_update =
         [\<lparr>up_path = ''/s/mtu'', up_val = ''9''\<rparr>, \<lparr>up_path = ''/s/Password'', up_val = secret1\<rparr>]\<rparr>,
       \<lparr>nt_timestamp = 0, nt_update = [\<lparr>up_path = ''/s/psk'', up_val = secret2\<rparr>]\<rparr>]\<rparr>, w)"

definition leaky_executor :: "string \<Rightarrow> string \<Rightarrow> unit GnmiExecutor" where
  "leaky_executor secret1 secret2 = \<lparr>gx_sink = LocalGnmiSink plain_lib (leaky_call secret1 secret2) default_sink_config,
                                     gx_auth = Some (\<lambda>_ w. (Viewer, w))\<rparr>"

theorem local_sink_never_leaks_witness:
  "fst (GnmiExecutor_handle (leaky_executor ''hunter2'' ''s3cr3t'') (empty_command\<lparr>cmd_kind := Get, cmd_xpaths := [''/s'']\<rparr>) ''+1'' ()) =
     ''OK GNMI GET /s/mtu=9; /s/Password=<sensitive path denied>; /s/psk=<sensitive path denied>''"
proof -
  let ?cmd = "empty_command\<lparr>cmd_kind := Get, cmd_xpaths := [''/s'']\<rparr>"
  have s: "is_sensitive_path ''/s/Password'' (deny_of default_sink_config)" "is_sensitive_path ''/s/psk'' (deny_of default_sink_config)"
    by code_simp+
  have "fst (GnmiExecutor_handle (leaky_executor ''hunter2'' ''s3cr3t'') ?cmd ''+1'' ())
      = fst (GnmiExecutor_handle (leaky_executor ''x'' ''y'') ?cmd ''+1'' ())"
    using local_sink_never_leaks [of "leaky_executor ''hunter2'' ''s3cr3t''" plain_lib "leaky_call ''hunter2'' ''s3cr3t''" default_sink_config
        "leaky_executor ''x'' ''y''" "leaky_call ''x'' ''y''" ?cmd "''+1''" "()" "''+1''" "()"]
    by (simp add: leaky_executor_def leaky_call_def access_of_def same_but_secrets_def same_leaf_def s)
  also have "\<dots> = ''OK GNMI GET /s/mtu=9; /s/Password=<sensitive path denied>; /s/psk=<sensitive path denied>''"
    by code_simp
  finally show ?thesis .
qed

text \<open>
  What leaves the device on a GET: the world changes by exactly one RPC, whose request names
  the non-sensitive paths in the order asked and nothing else; when every path is sensitive there
  is no RPC at all and the reply rows are the refusals.
\<close>

theorem local_get_request:
  "snd (LocalGnmiSink_get lib call cfg xpaths w) =
     (let ask = filter (\<lambda>x. \<not> is_sensitive_path x (deny_of cfg)) xpaths in
      if ask = [] then w
      else snd (call (sc_host cfg) (sc_port cfg) ''/gnmi.gNMI/Get''
        (get_req_bytes lib \<lparr>gq_target = sc_get_role cfg, gq_json = True,
           gq_path = map (parse_yang_path lib) ask\<rparr>) w))
   \<and> (filter (\<lambda>x. \<not> is_sensitive_path x (deny_of cfg)) xpaths = [] \<longrightarrow>
        LocalGnmiSink_get lib call cfg xpaths w =
          (\<lparr>res_ok = (xpaths \<noteq> []), res_grpc_status = 0, res_grpc_message = [],
            res_paths = map denied_row xpaths\<rparr>, w))"
proof -
  have "filter (\<lambda>x. is_sensitive_path x (deny_of cfg)) xpaths = xpaths"
    if "filter (\<lambda>x. \<not> is_sensitive_path x (deny_of cfg)) xpaths = []"
    using that by (induction xpaths) (auto split: if_splits)
  then show ?thesis
    by (auto simp: LocalGnmiSink_get_def request_loop_eq Let_def rpc_ok_def empty_result_def
        split: prod.split option.split)
qed

theorem local_get_request_witness:
  "LocalGnmiSink_get plain_lib (leaky_call [] []) default_sink_config [''/wifi/psk'', ''/a/secret''] () =
     (\<lparr>res_ok = True, res_grpc_status = 0, res_grpc_message = [],
       res_paths = [denied_row ''/wifi/psk'', denied_row ''/a/secret'']\<rparr>, ())"
proof -
  have "filter (\<lambda>x. \<not> is_sensitive_path x (deny_of default_sink_config)) [''/wifi/psk'', ''/a/secret''] = []"
    by code_simp
  from local_get_request [THEN conjunct2, THEN mp, OF this] show ?thesis by simp
qed

end
