(* ===== verification/Std_Map.thy ===== *)
theory Std_Map
  imports Zt_Prelude "HOL-Library.List_Lexorder" "HOL-Library.Char_ord"
begin

text \<open>
  \<open>std::map\<close> as an association list with strictly increasing keys.  The order of iteration is
  visible in the program (rows of a subtree read, lines of a dump), so the map is kept as the
  sequence a range-for visits.  Keys that are \<open>std::string\<close>s are ordered bytewise, which is the
  lexicographic order on lists of characters.
\<close>

type_synonym ('k, 'v) smap = "('k \<times> 'v) list"

definition smap_inv :: "('k::linorder, 'v) smap \<Rightarrow> bool" where
  "smap_inv m \<longleftrightarrow> sorted_wrt (<) (map fst m)"

text \<open>\<open>m[k] = v\<close>\<close>

fun smap_set :: "'k::linorder \<Rightarrow> 'v \<Rightarrow> ('k, 'v) smap \<Rightarrow> ('k, 'v) smap" where
  "smap_set k v [] = [(k, v)]"
| "smap_set k v ((k', v') # m) =
     (if k < k' then (k, v) # (k', v') # m
      else if k = k' then (k, v) # m
      else (k', v') # smap_set k v m)"

text \<open>\<open>m.find(k)\<close>, with \<^term>\<open>None\<close> for \<open>m.end()\<close>\<close>

definition smap_find :: "('k, 'v) smap \<Rightarrow> 'k \<Rightarrow> 'v option" where
  "smap_find m k = map_of m k"

text \<open>\<open>m.erase(k)\<close>\<close>

definition smap_erase :: "'k \<Rightarrow> ('k, 'v) smap \<Rightarrow> ('k, 'v) smap" where
  "smap_erase k m = filter (\<lambda>(k', _). k' \<noteq> k) m"

text \<open>The loop \<open>if (p(it->first)) it = m.erase(it); else ++it;\<close>\<close>

definition smap_erase_if :: "('k \<Rightarrow> bool) \<Rightarrow> ('k, 'v) smap \<Rightarrow> ('k, 'v) smap" where
  "smap_erase_if p m = filter (\<lambda>(k, _). \<not> p k) m"

locale std_map =
  fixes empty_m :: "'m"
    and set_m :: "'k \<Rightarrow> 'v \<Rightarrow> 'm \<Rightarrow> 'm"
    and find_m :: "'m \<Rightarrow> 'k \<Rightarrow> 'v option"
    and erase_m :: "'k \<Rightarrow> 'm \<Rightarrow> 'm"
    and size_m :: "'m \<Rightarrow> nat"
    and inv_m :: "'m \<Rightarrow> bool"
  assumes find_empty: "find_m empty_m = (\<lambda>_. None)"
    and find_set: "inv_m m \<Longrightarrow> find_m (set_m k v m) = (find_m m)(k \<mapsto> v)"
    and find_erase: "inv_m m \<Longrightarrow> find_m (erase_m k m) = (find_m m)(k := None)"
    and size_find: "inv_m m \<Longrightarrow> finite (dom (find_m m)) \<and> size_m m = card (dom (find_m m))"
    and inv_empty: "inv_m empty_m"
    and inv_set: "inv_m m \<Longrightarrow> inv_m (set_m k v m)"
    and inv_erase: "inv_m m \<Longrightarrow> inv_m (erase_m k m)"
begin

lemma find_set_same: "inv_m m \<Longrightarrow> find_m (set_m k v m) k = Some v"
  by (simp add: find_set)

lemma find_set_other: "inv_m m \<Longrightarrow> k \<noteq> k' \<Longrightarrow> find_m (set_m k v m) k' = find_m m k'"
  by (simp add: find_set)

lemma size_set_fresh: "inv_m m \<Longrightarrow> find_m m k = None \<Longrightarrow> size_m (set_m k v m) = Suc (size_m m)"
  using size_find [of m] size_find [OF inv_set, of m k v]
  by (simp add: find_set card_insert_if domIff)

lemma size_set_present: "inv_m m \<Longrightarrow> find_m m k \<noteq> None \<Longrightarrow> size_m (set_m k v m) = size_m m"
  using size_find [of m] size_find [OF inv_set, of m k v]
  by (simp add: find_set insert_absorb domIff)

lemma inv_set_all: "inv_m m \<Longrightarrow> inv_m (for_each (\<lambda>(k, v). set_m k v) kvs m)"
  by (rule for_each_invariant) (auto intro: inv_set)

lemma find_set_all:
  "inv_m m \<Longrightarrow> find_m (for_each (\<lambda>(k, v). set_m k v) kvs m) = find_m m ++ map_of (rev kvs)"
proof (induction kvs arbitrary: m)
  case (Cons kv kvs)
  obtain a b where kv: "kv = (a, b)" by (cases kv)
  have "find_m (set_m a b m) = find_m m ++ [a \<mapsto> b]"
    by (simp only: find_set [OF Cons.prems] map_add_upd map_add_empty)
  then show ?case
    using Cons.IH [OF inv_set [OF Cons.prems]] by (simp add: kv map_add_assoc fun_upd_def)
qed simp

end

lemma smap_set_keys: "set (map fst (smap_set k v m)) = insert k (set (map fst m))"
  by (induction k v m rule: smap_set.induct) auto

lemma smap_set_inv: "smap_inv m \<Longrightarrow> smap_inv (smap_set k v m)"
proof (induction k v m rule: smap_set.induct)
  case (2 k v k' v' m)
  then have tl: "smap_inv m" and lt: "\<forall>x \<in> set (map fst m). k' < x"
    by (auto simp: smap_inv_def)
  have "\<forall>x \<in> set (map fst (smap_set k v m)). k' < x" if "\<not> k < k'" "k \<noteq> k'"
    using that lt unfolding smap_set_keys by auto
  with 2 tl lt show ?case by (auto simp: smap_inv_def)
qed (simp add: smap_inv_def)

lemma smap_find_set: "smap_find (smap_set k v m) = (smap_find m)(k \<mapsto> v)"
  unfolding smap_find_def by (induction k v m rule: smap_set.induct) (auto simp: fun_eq_iff)

lemma smap_inv_filter: "smap_inv m \<Longrightarrow> smap_inv (filter p m)"
proof (induction m)
  case (Cons a m)
  then show ?case by (auto simp: smap_inv_def)
qed simp

lemma smap_find_filter_keys:
  "smap_find (filter (\<lambda>(k, _). p k) m) k = (if p k then smap_find m k else None)"
  unfolding smap_find_def by (induction m) auto

lemma smap_inv_distinct: "smap_inv m \<Longrightarrow> distinct (map fst m)"
  by (simp add: smap_inv_def strict_sorted_iff)

interpretation smp: std_map "[]" smap_set smap_find smap_erase length smap_inv
proof (unfold_locales, goal_cases)
  case 1
  show ?case by (simp add: smap_find_def fun_eq_iff)
next
  case (2 m k v)
  show ?case by (rule smap_find_set)
next
  case (3 m k)
  show ?case
    using smap_find_filter_keys [of "\<lambda>k'. k' \<noteq> k" m] by (auto simp: smap_erase_def fun_eq_iff)
next
  case (4 m)
  then have d: "distinct (map fst m)" by (rule smap_inv_distinct)
  have "dom (map_of m) = set (map fst m)" by (simp add: dom_map_of_conv_image_fst)
  moreover have "smap_find m = map_of m" by (simp add: fun_eq_iff smap_find_def)
  ultimately show ?case using distinct_card [OF d] by simp
next
  case 5
  show ?case by (simp add: smap_inv_def)
next
  case (6 m k v)
  then show ?case by (rule smap_set_inv)
next
  case (7 m k)
  then show ?case by (simp add: smap_erase_def smap_inv_filter)
qed

lemma smap_find_Some_iff: "smap_inv m \<Longrightarrow> smap_find m k = Some v \<longleftrightarrow> (k, v) \<in> set m"
  by (simp add: smap_find_def smap_inv_distinct)

end
