(* ===== verification/Gnmi_Tree.thy ===== *)
theory Gnmi_Tree
  imports Std_Map
begin

text \<open>
  The configuration tree of the simulated gNMI server, \<open>sim/gnmi_tree.hpp\<close>: a flat map from xpaths
  to values, read and deleted with the subtree rules of gNMI.
\<close>

record TreeEntry =
  te_xpath :: string
  te_value :: string

record GnmiTree =
  m_kv :: "(string, string) smap"

definition empty_tree :: GnmiTree where
  "empty_tree = \<lparr>m_kv = []\<rparr>"

definition GnmiTree_set :: "GnmiTree \<Rightarrow> string \<Rightarrow> string \<Rightarrow> GnmiTree" where
  "GnmiTree_set t xpath value = t\<lparr>m_kv := smap_set xpath value (m_kv t)\<rparr>"

definition subtree_prefix :: "string \<Rightarrow> string" where
  "subtree_prefix xpath = (if xpath = ''/'' then ''/'' else xpath @ ''/'')"

definition GnmiTree_lookup :: "GnmiTree \<Rightarrow> string \<Rightarrow> TreeEntry list" where
  "GnmiTree_lookup t xpath =
     (case smap_find (m_kv t) xpath of
        Some v \<Rightarrow> [\<lparr>te_xpath = xpath, te_value = v\<rparr>]
      | None \<Rightarrow> map (\<lambda>(k, v). \<lparr>te_xpath = k, te_value = v\<rparr>)
                  (filter (\<lambda>(k, v). prefix (subtree_prefix xpath) k) (m_kv t)))"

text \<open>The erase loop, over the entries the iterator has still to visit.\<close>

fun erase_loop :: "string \<Rightarrow> (string, string) smap \<Rightarrow> nat \<Rightarrow> nat \<times> (string, string) smap" where
  "erase_loop p [] n = (n, [])"
| "erase_loop p ((k, v) # m) n =
     (if prefix p k then erase_loop p m (n + 1)
      else (let (n', m') = erase_loop p m n in (n', (k, v) # m')))"

definition GnmiTree_erase :: "GnmiTree \<Rightarrow> string \<Rightarrow> nat \<times> GnmiTree" where
  "GnmiTree_erase t xpath =
     (case smap_find (m_kv t) xpath of
        Some _ \<Rightarrow> (1, t\<lparr>m_kv := smap_erase xpath (m_kv t)\<rparr>)
      | None \<Rightarrow> (let (n, m) = erase_loop (subtree_prefix xpath) (m_kv t) 0 in (n, t\<lparr>m_kv := m\<rparr>)))"

definition GnmiTree_size :: "GnmiTree \<Rightarrow> nat" where
  "GnmiTree_size t = length (m_kv t)"

subsection \<open>The tree as a finite map\<close>

definition tree_inv :: "GnmiTree \<Rightarrow> bool" where
  "tree_inv t \<longleftrightarrow> smap_inv (m_kv t)"

definition tree_map :: "GnmiTree \<Rightarrow> string \<Rightarrow> string option" where
  "tree_map t = smap_find (m_kv t)"

text \<open>The leaves a path selects: the leaf itself when there is one, else every leaf below it.\<close>

definition selects :: "(string \<Rightarrow> string option) \<Rightarrow> string \<Rightarrow> string \<Rightarrow> bool" where
  "selects m xpath k \<longleftrightarrow> (if m xpath \<noteq> None then k = xpath else prefix (subtree_prefix xpath) k)"

lemma erase_loop_eq:
  "erase_loop p m n =
     (n + length (filter (\<lambda>(k, v). prefix p k) m), filter (\<lambda>(k, v). \<not> prefix p k) m)"
  by (induction p m n rule: erase_loop.induct) (auto split: prod.splits)

lemma tree_set_inv [simp]: "tree_inv t \<Longrightarrow> tree_inv (GnmiTree_set t k v)"
  by (simp add: tree_inv_def GnmiTree_set_def smap_set_inv)

lemma tree_map_set [simp]: "tree_map (GnmiTree_set t k v) = (tree_map t)(k \<mapsto> v)"
  by (simp add: tree_map_def GnmiTree_set_def smap_find_set)

lemma tree_map_empty [simp]: "tree_map empty_tree = (\<lambda>_. None)"
  by (simp add: tree_map_def empty_tree_def smap_find_def fun_eq_iff)

lemma tree_inv_empty [simp]: "tree_inv empty_tree"
  by (simp add: tree_inv_def empty_tree_def smap_inv_def)

lemma tree_erase_inv: "tree_inv t \<Longrightarrow> tree_inv (snd (GnmiTree_erase t k))"
  by (auto simp: tree_inv_def GnmiTree_erase_def erase_loop_eq smap_erase_def
      intro: smap_inv_filter split: option.split)

lemma tree_map_erase:
  "tree_map (snd (GnmiTree_erase t xpath)) =
     (\<lambda>k. if selects (tree_map t) xpath k then None else tree_map t k)"
proof (cases "smap_find (m_kv t) xpath")
  case None
  then show ?thesis
    using smap_find_filter_keys [of "\<lambda>k. \<not> prefix (subtree_prefix xpath) k" "m_kv t"]
    by (simp add: GnmiTree_erase_def erase_loop_eq tree_map_def selects_def fun_eq_iff)
next
  case (Some v)
  then show ?thesis
    using smap_find_filter_keys [of "\<lambda>k. k \<noteq> xpath" "m_kv t"]
    by (simp add: GnmiTree_erase_def tree_map_def selects_def fun_eq_iff smap_erase_def)
qed

lemma set_lookup:
  "tree_inv t \<Longrightarrow> e \<in> set (GnmiTree_lookup t xpath) \<longleftrightarrow>
     selects (tree_map t) xpath (te_xpath e) \<and> tree_map t (te_xpath e) = Some (te_value e)"
proof (cases "smap_find (m_kv t) xpath")
  case None
  assume "tree_inv t"
  then have mem: "smap_find (m_kv t) k = Some v \<longleftrightarrow> (k, v) \<in> set (m_kv t)" for k v
    by (simp add: tree_inv_def smap_find_Some_iff)
  from None show ?thesis
    by (cases e) (auto simp: GnmiTree_lookup_def selects_def tree_map_def mem image_iff)
next
  case (Some v)
  then show ?thesis
    by (cases e) (auto simp: GnmiTree_lookup_def selects_def tree_map_def)
qed

lemma map_xpath_lookup:
  "map te_xpath (GnmiTree_lookup t xpath) =
     (case smap_find (m_kv t) xpath of Some _ \<Rightarrow> [xpath]
      | None \<Rightarrow> filter (prefix (subtree_prefix xpath)) (map fst (m_kv t)))"
  by (auto simp: GnmiTree_lookup_def filter_map o_def case_prod_beta' split: option.split)

lemma sorted_wrt_filter_keys: "sorted_wrt R xs \<Longrightarrow> sorted_wrt R (filter P xs)"
  by (induction xs) auto

lemma lookup_sorted: "tree_inv t \<Longrightarrow> sorted_wrt (<) (map te_xpath (GnmiTree_lookup t xpath))"
  by (auto simp: map_xpath_lookup tree_inv_def smap_inv_def intro: sorted_wrt_filter_keys
      split: option.split)

lemma erase_count: "fst (GnmiTree_erase t xpath) = length (GnmiTree_lookup t xpath)"
  by (auto simp: GnmiTree_erase_def GnmiTree_lookup_def erase_loop_eq split: option.split)

lemma erase_size:
  assumes "tree_inv t"
  shows "GnmiTree_size (snd (GnmiTree_erase t xpath)) + fst (GnmiTree_erase t xpath) = GnmiTree_size t"
proof (cases "smap_find (m_kv t) xpath")
  case None
  then show ?thesis
    using sum_length_filter_compl [of "\<lambda>(k, v). prefix (subtree_prefix xpath) k" "m_kv t"]
    by (simp add: GnmiTree_erase_def erase_loop_eq GnmiTree_size_def case_prod_beta')
next
  case (Some v)
  then have "smap_find (smap_set xpath v (smap_erase xpath (m_kv t))) = smap_find (m_kv t)"
    using assms by (auto simp: smap_find_set tree_inv_def smp.find_erase fun_eq_iff)
  moreover have i: "smap_inv (smap_erase xpath (m_kv t))"
    using assms by (simp add: tree_inv_def smp.inv_erase)
  ultimately have "length (smap_set xpath v (smap_erase xpath (m_kv t))) = length (m_kv t)"
    using smp.size_find [OF smp.inv_set [OF i, of xpath v]] smp.size_find [of "m_kv t"] assms
    by (simp add: tree_inv_def)
  with Some i assms show ?thesis
    by (simp add: GnmiTree_erase_def GnmiTree_size_def smp.size_set_fresh smp.find_erase tree_inv_def)
qed

text \<open>
  Reading the tree: with the tree's invariant, a lookup lists exactly the leaves the path
  selects with their current values, each once and in path order.  The leaf at the path hides the
  leaves below it, \<open>/\<close> selects every absolute path, and a path never selects a sibling that merely
  continues its last name (the selected key is the path followed by a slash).
\<close>

theorem lookup_lists_selection:
  assumes "tree_inv t"
  shows "set (GnmiTree_lookup t xpath) =
      {e. selects (tree_map t) xpath (te_xpath e) \<and> tree_map t (te_xpath e) = Some (te_value e)}
    \<and> sorted_wrt (<) (map te_xpath (GnmiTree_lookup t xpath))"
  using set_lookup [OF assms] lookup_sorted [OF assms] by blast

theorem lookup_lists_selection_witness:
  "set (GnmiTree_lookup \<lparr>m_kv = [(''/a'', ''1''), (''/a/b'', ''2''), (''/ab'', ''3'')]\<rparr> ''/a'') =
      {e. selects (tree_map \<lparr>m_kv = [(''/a'', ''1''), (''/a/b'', ''2''), (''/ab'', ''3'')]\<rparr>) ''/a'' (te_xpath e)
        \<and> tree_map \<lparr>m_kv = [(''/a'', ''1''), (''/a/b'', ''2''), (''/ab'', ''3'')]\<rparr> (te_xpath e) = Some (te_value e)}
    \<and> sorted_wrt (<) (map te_xpath
        (GnmiTree_lookup \<lparr>m_kv = [(''/a'', ''1''), (''/a/b'', ''2''), (''/ab'', ''3'')]\<rparr> ''/a''))"
  by (rule lookup_lists_selection) (simp add: tree_inv_def smap_inv_def)

text \<open>
  C30.  Deleting from the tree: the count returned is the number of leaves a lookup of the same
  path would have listed, exactly those leaves are gone, every other leaf keeps its value, the size
  drops by the count, and the invariant is kept.
\<close>

theorem erase_removes_selection:
  assumes "tree_inv t" and "GnmiTree_erase t xpath = (n, t')"
  shows "n = length (GnmiTree_lookup t xpath) \<and> tree_inv t' \<and> GnmiTree_size t' + n = GnmiTree_size t
    \<and> tree_map t' = (\<lambda>k. if selects (tree_map t) xpath k then None else tree_map t k)"
  using erase_count [of t xpath] tree_erase_inv [OF assms(1), of xpath] tree_map_erase [of t xpath]
    erase_size [OF assms(1), of xpath] assms(2)
  by simp

theorem erase_removes_selection_witness:
  "(2 :: nat) = length (GnmiTree_lookup \<lparr>m_kv = [(''/a/b'', ''2''), (''/a/c'', ''4''), (''/ab'', ''3'')]\<rparr> ''/a'')
   \<and> tree_inv \<lparr>m_kv = [(''/ab'', ''3'')]\<rparr>"
  using erase_removes_selection [of "\<lparr>m_kv = [(''/a/b'', ''2''), (''/a/c'', ''4''), (''/ab'', ''3'')]\<rparr>"
      "''/a''" 2 "\<lparr>m_kv = [(''/ab'', ''3'')]\<rparr>"]
  by (simp add: tree_inv_def smap_inv_def GnmiTree_erase_def smap_find_def subtree_prefix_def)

end
