(* ===== verification/Gnmi_Simd.thy ===== *)
theory Gnmi_Simd
  imports Local_Gnmi_Sink Gnmi_Tree
begin

text \<open>
  The simulated gNMI server, \<open>sim/zt_gnmi_simd.cpp\<close>: the Get and Set handlers over the shared tree
  \<open>g_tree\<close>, the table of connections and the command line.  The gRPC session and the reactor are
  grace-server's; the codecs are the library parameter of the production backend.  \<open>clk i\<close> is the
  \<open>i\<close>-th reading of the clock within one call of a handler.  Log lines are not modelled.
\<close>

type_synonym 'b unary = "int \<times> 'b"

definition leaf_update :: "('p, 'v, 'b) gnmi_lib \<Rightarrow> TreeEntry \<Rightarrow> ('p, 'v) Update" where
  "leaf_update lib row = \<lparr>up_path = parse_yang_path lib (te_xpath row),
                          up_val = set_typed_value lib (te_value row)\<rparr>"

fun get_loop :: "('p, 'v, 'b) gnmi_lib \<Rightarrow> (nat \<Rightarrow> int) \<Rightarrow> GnmiTree \<Rightarrow> 'p list \<Rightarrow>
    ('p, 'v) Notification list \<Rightarrow> nat \<Rightarrow> ('p, 'v) Notification list \<times> nat" where
  "get_loop lib clk t [] resp found = (resp, found)"
| "get_loop lib clk t (p # ps) resp found =
     (let rows = GnmiTree_lookup t (path_to_string lib p) in
      get_loop lib clk t ps
        (resp @ [\<lparr>nt_timestamp = clk (length resp), nt_update = map (leaf_update lib) rows\<rparr>])
        (found + length rows))"

definition handle_get :: "('p, 'v, 'b) gnmi_lib \<Rightarrow> (nat \<Rightarrow> int) \<Rightarrow> 'b \<Rightarrow> GnmiTree \<Rightarrow> 'b unary" where
  "handle_get lib clk req_pb t =
     (case get_req_parse lib req_pb of
        None \<Rightarrow> (3, no_bytes lib)
      | Some req \<Rightarrow>
          (let (resp, found) = get_loop lib clk t (gq_path req) [] 0 in
           if 0 < length (gq_path req) \<and> found = 0 then (5, no_bytes lib)
           else (0, get_resp_bytes lib resp)))"

definition apply_update :: "('p, 'v, 'b) gnmi_lib \<Rightarrow> ('p, 'v) Update \<Rightarrow> GnmiTree \<Rightarrow> GnmiTree" where
  "apply_update lib u t =
     GnmiTree_set t (path_to_string lib (up_path u)) (typed_value_to_string lib (up_val u))"

definition apply_replace :: "('p, 'v, 'b) gnmi_lib \<Rightarrow> ('p, 'v) Update \<Rightarrow> GnmiTree \<Rightarrow> GnmiTree" where
  "apply_replace lib u t =
     GnmiTree_set (snd (GnmiTree_erase t (path_to_string lib (up_path u))))
       (path_to_string lib (up_path u)) (typed_value_to_string lib (up_val u))"

definition apply_delete :: "('p, 'v, 'b) gnmi_lib \<Rightarrow> 'p \<Rightarrow> GnmiTree \<Rightarrow> GnmiTree" where
  "apply_delete lib d t = snd (GnmiTree_erase t (path_to_string lib d))"

definition handle_set ::
  "('p, 'v, 'b) gnmi_lib \<Rightarrow> (nat \<Rightarrow> int) \<Rightarrow> 'b \<Rightarrow> (GnmiTree, 'b unary) eff" where
  "handle_set lib clk req_pb t =
     (case set_req_parse lib req_pb of
        None \<Rightarrow> ((3, no_bytes lib), t)
      | Some req \<Rightarrow>
          if sq_target req \<noteq> ''ADMIN'' then ((7, no_bytes lib), t)
          else
            (let t1 = for_each (apply_update lib) (sq_update req) t;
                 t2 = for_each (apply_replace lib) (sq_replace req) t1;
                 t3 = for_each (apply_delete lib) (sq_delete req) t2;
                 resp = \<lparr>sr_timestamp = clk 0,
                         sr_response = map (\<lambda>u. (up_path u, UPDATE)) (sq_update req)
                           @ map (\<lambda>u. (up_path u, REPLACE)) (sq_replace req)
                           @ map (\<lambda>d. (d, DELETE)) (sq_delete req)\<rparr>
             in ((0, set_resp_bytes lib resp), t3)))"

text \<open>The handlers a connection registers with its gRPC session, by method name.\<close>

definition sim_conn_unary ::
  "('p, 'v, 'b) gnmi_lib \<Rightarrow> (nat \<Rightarrow> int) \<Rightarrow> string \<Rightarrow> ('b \<Rightarrow> (GnmiTree, 'b unary) eff) option" where
  "sim_conn_unary lib clk method =
     (if method = ''/gnmi.gNMI/Get'' then Some (\<lambda>pb t. (handle_get lib clk pb t, t))
      else if method = ''/gnmi.gNMI/Set'' then Some (handle_set lib clk) else None)"

subsection \<open>Connections and the command line\<close>

text \<open>
  The listener's map from channels to connections.  Accepting a channel that is still in the map
  fails and destroys the new connection.
\<close>

definition handle_connect :: "int \<Rightarrow> 'conn \<Rightarrow> (int \<rightharpoonup> 'conn) \<Rightarrow> int \<times> (int \<rightharpoonup> 'conn)" where
  "handle_connect channel conn conns =
     (case conns channel of Some _ \<Rightarrow> (- 1, conns) | None \<Rightarrow> (0, conns(channel \<mapsto> conn)))"

definition server_handle_close :: "int \<Rightarrow> (int \<rightharpoonup> 'conn) \<Rightarrow> int \<times> (int \<rightharpoonup> 'conn)" where
  "server_handle_close channel conns =
     ((if conns channel = None then 0 else 1), conns(channel := None))"

definition conn_handle_close :: "bool \<Rightarrow> int \<Rightarrow> (int \<rightharpoonup> 'conn) \<Rightarrow> int \<times> (int \<rightharpoonup> 'conn)" where
  "conn_handle_close has_parent channel conns =
     (0, if has_parent then snd (server_handle_close channel conns) else conns)"

text \<open>How \<open>main\<close> goes on after the arguments: it exits, an exception escapes it, or it runs.\<close>

datatype 'a main_start = Exit int | Uncaught | Run 'a

record SimdArgs =
  sa_host :: string
  sa_port :: u16
  sa_seed :: string
  sa_verbose :: bool

definition default_simd_args :: SimdArgs where
  "default_simd_args = \<lparr>sa_host = ''0.0.0.0'', sa_port = 50051,
     sa_seed = ''/etc/zerotouch/gnmi-tree.lua'', sa_verbose = True\<rparr>"

text \<open>\<open>HOST:PORT\<close> cut at the last colon, the port read by \<open>std::stoi\<close> and cast to 16 bits.\<close>

fun simd_args :: "string list \<Rightarrow> SimdArgs \<Rightarrow> SimdArgs main_start" where
  "simd_args [] a = Run a"
| "simd_args (s # ss) a =
     (if prefix ''--listen='' s then
        (let hp = drop 9 s in
         case str_rfind CHR '':'' hp of
           None \<Rightarrow> Exit 2
         | Some colon \<Rightarrow>
             (case stoi (drop (colon + 1) hp) of
                None \<Rightarrow> Uncaught
              | Some n \<Rightarrow> simd_args ss (a\<lparr>sa_host := substr 0 colon hp, sa_port := word_of_int n\<rparr>)))
      else if prefix ''--seed='' s then simd_args ss (a\<lparr>sa_seed := drop 7 s\<rparr>)
      else if s = ''--quiet'' then simd_args ss (a\<lparr>sa_verbose := False\<rparr>)
      else if s = ''--help'' \<or> s = ''-h'' then Exit 0
      else Exit 2)"

subsection \<open>The handlers on the tree as a map\<close>

lemma get_loop_eq:
  "get_loop lib clk t ps resp found =
     (resp @ map (\<lambda>(i, p). \<lparr>nt_timestamp = clk i,
        nt_update = map (leaf_update lib) (GnmiTree_lookup t (path_to_string lib p))\<rparr>)
        (enumerate (length resp) ps),
      found + (\<Sum>p\<leftarrow>ps. length (GnmiTree_lookup t (path_to_string lib p))))"
  by (induction ps arbitrary: resp found) (simp_all add: Let_def)

text \<open>The abstract effect of the three kinds of change on the map from paths to values.\<close>

definition map_delete :: "string \<Rightarrow> (string \<rightharpoonup> string) \<Rightarrow> (string \<rightharpoonup> string)" where
  "map_delete x m = (\<lambda>k. if selects m x k then None else m k)"

definition map_update :: "string \<times> string \<Rightarrow> (string \<rightharpoonup> string) \<Rightarrow> (string \<rightharpoonup> string)" where
  "map_update xv m = m(fst xv \<mapsto> snd xv)"

definition map_replace :: "string \<times> string \<Rightarrow> (string \<rightharpoonup> string) \<Rightarrow> (string \<rightharpoonup> string)" where
  "map_replace xv m = map_update xv (map_delete (fst xv) m)"

definition decoded :: "('p, 'v, 'b) gnmi_lib \<Rightarrow> ('p, 'v) Update \<Rightarrow> string \<times> string" where
  "decoded lib u = (path_to_string lib (up_path u), typed_value_to_string lib (up_val u))"

lemma apply_update_inv: "tree_inv t \<Longrightarrow> tree_inv (apply_update lib u t)"
  and apply_replace_inv: "tree_inv t \<Longrightarrow> tree_inv (apply_replace lib u t)"
  and apply_delete_inv: "tree_inv t \<Longrightarrow> tree_inv (apply_delete lib d t)"
  by (simp_all add: apply_update_def apply_replace_def apply_delete_def tree_erase_inv)

lemmas for_each_tree_inv = for_each_invariant [where P = tree_inv]

lemma for_each_refines:
  "(\<And>x t. rep (f x t) = g (dec x) (rep t)) \<Longrightarrow>
     rep (for_each f xs t) = for_each g (map dec xs) (rep t)"
  by (induction xs arbitrary: t) simp_all

lemma updates_refine:
  "tree_map (for_each (apply_update lib) us t) = for_each map_update (map (decoded lib) us) (tree_map t)"
  by (rule for_each_refines [where rep = tree_map]) (simp add: apply_update_def map_update_def decoded_def)

lemma replaces_refine:
  "tree_map (for_each (apply_replace lib) us t) = for_each map_replace (map (decoded lib) us) (tree_map t)"
  by (rule for_each_refines [where rep = tree_map])
    (simp add: apply_replace_def map_replace_def map_update_def map_delete_def decoded_def tree_map_erase)

lemma deletes_refine:
  "tree_map (for_each (apply_delete lib) ds t) = for_each map_delete (map (path_to_string lib) ds) (tree_map t)"
  by (rule for_each_refines [where rep = tree_map]) (simp add: apply_delete_def map_delete_def tree_map_erase)

lemma for_each_map_update: "for_each map_update xvs m = m ++ map_of (rev xvs)"
proof (induction xvs arbitrary: m)
  case (Cons xv xvs)
  have "for_each map_update (xv # xvs) m = map_update xv m ++ map_of (rev xvs)" by (simp add: Cons.IH)
  also have "map_update xv m = m ++ [fst xv \<mapsto> snd xv]"
    by (simp only: map_update_def map_add_upd map_add_empty)
  finally show ?case by (simp only: map_add_assoc rev.simps map_of_append map_of.simps fst_conv split: prod.split)
qed simp

text \<open>
  C26.  The Set handler refines its specification on maps: an ADMIN request is answered with
  status 0, and the tree, seen as a map, changes by the updates in order (a later update of a path
  wins), then the replaces (each drops what its path selects, then writes it), then the deletes;
  the invariant is kept and every operation is acknowledged in that order.
\<close>

theorem handle_set_refines:
  assumes "tree_inv t" and "set_req_parse lib pb = Some req" and "sq_target req = ''ADMIN''"
    and "handle_set lib clk pb t = ((status, body), t')"
  shows "status = 0 \<and> tree_inv t'
    \<and> tree_map t' =
        for_each map_delete (map (path_to_string lib) (sq_delete req))
          (for_each map_replace (map (decoded lib) (sq_replace req))
            (tree_map t ++ map_of (rev (map (decoded lib) (sq_update req)))))
    \<and> body = set_resp_bytes lib
        \<lparr>sr_timestamp = clk 0,
         sr_response = map (\<lambda>u. (up_path u, UPDATE)) (sq_update req)
           @ map (\<lambda>u. (up_path u, REPLACE)) (sq_replace req) @ map (\<lambda>d. (d, DELETE)) (sq_delete req)\<rparr>"
proof -
  have "tree_inv (for_each (apply_delete lib) (sq_delete req)
      (for_each (apply_replace lib) (sq_replace req) (for_each (apply_update lib) (sq_update req) t)))"
    by (intro for_each_tree_inv apply_update_inv apply_replace_inv apply_delete_inv assms(1))
  with assms show ?thesis
    by (auto simp: handle_set_def Let_def deletes_refine replaces_refine updates_refine
        for_each_map_update)
qed

definition demo_set :: "(string, string) SetRequest" where
  "demo_set = \<lparr>sq_target = ''ADMIN'',
     sq_update = [\<lparr>up_path = ''/a/b'', up_val = ''1''\<rparr>, \<lparr>up_path = ''/c'', up_val = ''2''\<rparr>],
     sq_replace = [\<lparr>up_path = ''/a'', up_val = ''3''\<rparr>], sq_delete = [''/c'']\<rparr>"

theorem handle_set_refines_witness:
  "tree_inv \<lparr>m_kv = [(''/a'', ''3'')]\<rparr>
   \<and> tree_map \<lparr>m_kv = [(''/a'', ''3'')]\<rparr> =
       for_each map_delete [''/c''] (for_each map_replace [(''/a'', ''3'')]
         (tree_map empty_tree ++ map_of (rev [(''/a/b'', ''1''), (''/c'', ''2'')])))"
proof -
  let ?b = "WSetResp \<lparr>sr_timestamp = 7, sr_response =
     [(''/a/b'', UPDATE), (''/c'', UPDATE), (''/a'', REPLACE), (''/c'', DELETE)]\<rparr>"
  have h: "handle_set plain_lib (\<lambda>_. 7) (WSetReq demo_set) empty_tree = ((0, ?b), \<lparr>m_kv = [(''/a'', ''3'')]\<rparr>)"
    by code_simp
  have t: "sq_target demo_set = ''ADMIN''" by (simp add: demo_set_def)
  have "set_req_parse plain_lib (WSetReq demo_set) = Some demo_set" by simp
  from handle_set_refines [OF tree_inv_empty this t h] show ?thesis
    by (simp add: demo_set_def decoded_def del: tree_map_empty)
qed

subsection \<open>Client and server together\<close>

text \<open>
  The assumptions on the libraries: a parsed message is the one serialised; the texts of the paths
  and values at hand survive their codecs; and the client call runs the handler the server has
  registered for the method, with the status trailer only (no \<open>grpc-message\<close>).
\<close>

definition codec_ok :: "('p, 'v, 'b) gnmi_lib \<Rightarrow> bool" where
  "codec_ok lib \<longleftrightarrow>
     (\<forall>m. get_req_parse lib (get_req_bytes lib m) = Some m)
     \<and> (\<forall>m. get_resp_parse lib (get_resp_bytes lib m) = Some m)
     \<and> (\<forall>m. set_req_parse lib (set_req_bytes lib m) = Some m)
     \<and> (\<forall>m. set_resp_parse lib (set_resp_bytes lib m) = Some m)"

definition text_ok :: "('p, 'v, 'b) gnmi_lib \<Rightarrow> string \<times> string \<Rightarrow> bool" where
  "text_ok lib xv \<longleftrightarrow> path_to_string lib (parse_yang_path lib (fst xv)) = fst xv
     \<and> typed_value_to_string lib (set_typed_value lib (snd xv)) = snd xv"

definition served_by ::
  "('p, 'v, 'b) gnmi_lib \<Rightarrow> (nat \<Rightarrow> int) \<Rightarrow> (GnmiTree, 'b) rpc \<Rightarrow> bool" where
  "served_by lib clk call \<longleftrightarrow>
     (\<forall>host port method h pb t. sim_conn_unary lib clk method = Some h \<longrightarrow>
        call host port method pb t =
          (let ((status, body), t') = h pb t in
           (\<lparr>rr_status = status, rr_message = [], rr_body = body\<rparr>, t')))"

lemma served_get:
  "served_by lib clk call \<Longrightarrow> call host port ''/gnmi.gNMI/Get'' pb t =
     (\<lparr>rr_status = fst (handle_get lib clk pb t), rr_message = [],
       rr_body = snd (handle_get lib clk pb t)\<rparr>, t)"
  by (simp add: served_by_def sim_conn_unary_def split: prod.split)

lemma served_set:
  "served_by lib clk call \<Longrightarrow> call host port ''/gnmi.gNMI/Set'' pb t =
     (\<lparr>rr_status = fst (fst (handle_set lib clk pb t)), rr_message = [],
       rr_body = snd (fst (handle_set lib clk pb t))\<rparr>, snd (handle_set lib clk pb t))"
  by (simp add: served_by_def sim_conn_unary_def split: prod.split)

lemma handle_get_leaf:
  assumes "codec_ok lib" and "text_ok lib (x, v)" and "tree_map t x = Some v"
  shows "handle_get lib clk (get_req_bytes lib \<lparr>gq_target = role, gq_json = True,
      gq_path = [parse_yang_path lib x]\<rparr>) t =
    (0, get_resp_bytes lib [\<lparr>nt_timestamp = clk 0, nt_update =
      [\<lparr>up_path = parse_yang_path lib x, up_val = set_typed_value lib v\<rparr>]\<rparr>])"
proof -
  have "GnmiTree_lookup t x = [\<lparr>te_xpath = x, te_value = v\<rparr>]"
    using assms(3) by (simp add: GnmiTree_lookup_def tree_map_def)
  with assms(1,2) show ?thesis
    by (simp add: handle_get_def codec_ok_def text_ok_def leaf_update_def)
qed

lemma local_get_leaf:
  assumes "codec_ok lib" "served_by lib clk call" "text_ok lib (x, v)" "tree_map t x = Some v"
    and "\<not> is_sensitive_path x (deny_of cfg)"
  shows "LocalGnmiSink_get lib call cfg [x] t =
    (\<lparr>res_ok = True, res_grpc_status = 0, res_grpc_message = [],
      res_paths = [\<lparr>pr_xpath = x, pr_value = v, pr_error = []\<rparr>]\<rparr>, t)"
  using assms(3,5) assms(1) [unfolded codec_ok_def] handle_get_leaf [OF assms(1,3,4), of clk "sc_get_role cfg"]
  by (simp add: LocalGnmiSink_get_def request_loop_eq served_get [OF assms(2)] rpc_ok_def
      empty_result_def response_rows_def leaf_row_def text_ok_def Let_def)

lemma local_set_admin:
  assumes "codec_ok lib" "served_by lib clk call" "\<forall>xv \<in> set us. text_ok lib xv"
    and "sc_set_role cfg = ''ADMIN''"
    and "LocalGnmiSink_set lib call cfg us t = (r, t')"
  shows "r = \<lparr>res_ok = True, res_grpc_status = 0, res_grpc_message = [],
      res_paths = map (\<lambda>(x, _). \<lparr>pr_xpath = x, pr_value = [], pr_error = []\<rparr>) us\<rparr>
    \<and> tree_map t' = tree_map t ++ map_of (rev us)"
proof -
  let ?us = "map (\<lambda>(x, v). \<lparr>up_path = parse_yang_path lib x, up_val = set_typed_value lib v\<rparr>) us"
  have dec: "map (decoded lib) ?us = us"
    using assms(3) by (induction us) (auto simp: decoded_def text_ok_def)
  have rows: "map ((\<lambda>ur. \<lparr>pr_xpath = path_to_string lib (fst ur), pr_value = [], pr_error = []\<rparr>)
        \<circ> (\<lambda>u. (up_path u, UPDATE))) ?us
      = map (\<lambda>(x, _). \<lparr>pr_xpath = x, pr_value = [], pr_error = []\<rparr>) us"
    using assms(3) by (auto simp: text_ok_def)
  have "tree_map (for_each (apply_update lib) ?us t) = tree_map t ++ map_of (rev us)"
    by (simp only: updates_refine dec for_each_map_update)
  with assms rows show ?thesis
    by (auto simp: LocalGnmiSink_set_def served_set handle_set_def codec_ok_def rpc_ok_def
        empty_result_def)
qed

text \<open>
  A SET is read back by a GET, over the wire: the production backend talking to the simulated
  server with the ADMIN role stores every update (the last one of a path wins) and reports
  success; a following GET of any written path that is not sensitive returns exactly the value
  written.  The codecs and the transport are arbitrary implementations of their contracts.
\<close>

theorem set_then_get_over_the_wire:
  assumes "codec_ok lib" "served_by lib clk call" "\<forall>xv \<in> set us. text_ok lib xv"
    and "sc_set_role cfg = ''ADMIN''"
    and "LocalGnmiSink_set lib call cfg us t = (r, t')"
    and "map_of (rev us) x = Some v" and "\<not> is_sensitive_path x (deny_of cfg)"
  shows "res_ok r \<and> tree_map t' = tree_map t ++ map_of (rev us)
    \<and> LocalGnmiSink_get lib call cfg [x] t' =
        (\<lparr>res_ok = True, res_grpc_status = 0, res_grpc_message = [],
          res_paths = [\<lparr>pr_xpath = x, pr_value = v, pr_error = []\<rparr>]\<rparr>, t')"
proof -
  from local_set_admin [OF assms(1-5)]
  have r: "res_ok r" and m: "tree_map t' = tree_map t ++ map_of (rev us)" by simp_all
  from assms(6) have "(x, v) \<in> set us" by (metis map_of_SomeD set_rev)
  with assms(3) have "text_ok lib (x, v)" by blast
  moreover from m assms(6) have "tree_map t' x = Some v" by simp
  ultimately show ?thesis using local_get_leaf [OF assms(1,2)] assms(7) r m by blast
qed

text \<open>A transport that runs the registered handler in place.\<close>

definition loopback :: "(nat \<Rightarrow> int) \<Rightarrow> (GnmiTree, wire) rpc" where
  "loopback clk host port method pb t =
     (case sim_conn_unary plain_lib clk method of
        Some h \<Rightarrow> (let ((status, body), t') = h pb t in
                   (\<lparr>rr_status = status, rr_message = [], rr_body = body\<rparr>, t'))
      | None \<Rightarrow> (\<lparr>rr_status = 12, rr_message = [], rr_body = WEmpty\<rparr>, t))"

theorem set_then_get_over_the_wire_witness:
  "LocalGnmiSink_get plain_lib (loopback (\<lambda>_. 0)) default_sink_config [''/a''] \<lparr>m_kv = [(''/a'', ''2'')]\<rparr> =
     (\<lparr>res_ok = True, res_grpc_status = 0, res_grpc_message = [],
       res_paths = [\<lparr>pr_xpath = ''/a'', pr_value = ''2'', pr_error = []\<rparr>]\<rparr>, \<lparr>m_kv = [(''/a'', ''2'')]\<rparr>)"
proof (rule set_then_get_over_the_wire [where lib = plain_lib and clk = "\<lambda>_. 0"
      and us = "[(''/a'', ''1''), (''/a'', ''2'')]" and t = empty_tree, THEN conjunct2, THEN conjunct2])
  show "codec_ok plain_lib" by (simp add: codec_ok_def)
  show "served_by plain_lib (\<lambda>_. 0) (loopback (\<lambda>_. 0))" by (simp add: served_by_def loopback_def)
  show "LocalGnmiSink_set plain_lib (loopback (\<lambda>_. 0)) default_sink_config
      [(''/a'', ''1''), (''/a'', ''2'')] empty_tree =
    (\<lparr>res_ok = True, res_grpc_status = 0, res_grpc_message = [],
      res_paths = [\<lparr>pr_xpath = ''/a'', pr_value = [], pr_error = []\<rparr>,
                   \<lparr>pr_xpath = ''/a'', pr_value = [], pr_error = []\<rparr>]\<rparr>, \<lparr>m_kv = [(''/a'', ''2'')]\<rparr>)"
    by code_simp
  show "\<not> is_sensitive_path ''/a'' (deny_of default_sink_config)" by code_simp
qed (simp_all add: text_ok_def default_sink_config_def)

end
