(* ===== verification/Config_File.thy ===== *)
theory Config_File
  imports Cpp_Num
begin

text \<open>
  The configuration file of the standalone appliance, \<open>src/config.cpp\<close> and
  \<open>inc/zerotouch/config.hpp\<close>: one \<open>key = value\<close> per line, \<open>#\<close> starts a comment, unknown keys and
  malformed lines are ignored.
\<close>

datatype ModemType = Auto | Sierra | Quectel | UBlox | Generic

record AppConfig =
  enabled :: bool
  gnmi_host :: string
  gnmi_port :: u16
  allowed_numbers :: "string list"
  session_ttl_sec :: u32
  lockout_failures :: u32
  lockout_sec :: u32
  modem_dev :: string
  modem_baud :: u32
  modem_type :: ModemType
  users_file :: string

definition default_config :: AppConfig where
  "default_config =
     \<lparr>enabled = False, gnmi_host = ''127.0.0.1'', gnmi_port = 50051, allowed_numbers = [],
      session_ttl_sec = 600, lockout_failures = 5, lockout_sec = 900,
      modem_dev = ''/dev/ttyUSB2'', modem_baud = 115200, modem_type = Auto,
      users_file = ''/etc/zerotouch/users''\<rparr>"

definition to_bool :: "string \<Rightarrow> bool" where
  "to_bool v \<longleftrightarrow> v = ''1'' \<or> v = ''true'' \<or> v = ''yes'' \<or> v = ''on''"

definition to_u32 :: "string \<Rightarrow> u32 \<Rightarrow> u32" where
  "to_u32 v dflt = (case stol v of Some n \<Rightarrow> if 0 < n then word_of_int n else dflt | None \<Rightarrow> dflt)"

definition lower :: "string \<Rightarrow> string" where
  "lower s = map tolower s"

fun split_csv_loop :: "string list \<Rightarrow> string \<Rightarrow> string \<Rightarrow> string list" where
  "split_csv_loop out cur [] = (if cur \<noteq> [] then out @ [cur] else out)"
| "split_csv_loop out cur (c # s) =
     (if c = CHR '','' then split_csv_loop (if cur \<noteq> [] then out @ [cur] else out) [] s
      else if c \<noteq> CHR '' '' \<and> c \<noteq> tab then split_csv_loop out (cur @ [c]) s
      else split_csv_loop out cur s)"

definition split_csv :: "string \<Rightarrow> string list" where
  "split_csv s = split_csv_loop [] [] s"

definition parse_modem_type :: "string \<Rightarrow> ModemType" where
  "parse_modem_type s =
     (let v = lower s in
      if v = ''sierra'' then Sierra
      else if v = ''quectel'' then Quectel
      else if v = ''ublox'' \<or> v = ''u-blox'' then UBlox
      else if v = ''generic'' then Generic
      else Auto)"

fun modem_type_name :: "ModemType \<Rightarrow> string" where
  "modem_type_name Sierra = ''sierra''"
| "modem_type_name Quectel = ''quectel''"
| "modem_type_name UBlox = ''ublox''"
| "modem_type_name Generic = ''generic''"
| "modem_type_name Auto = ''auto''"

text \<open>The chain of key comparisons for one \<open>key = value\<close> pair.\<close>

definition apply_key :: "string \<Rightarrow> string \<Rightarrow> AppConfig \<Rightarrow> AppConfig" where
  "apply_key key val c =
     (if key = ''enabled'' then c\<lparr>enabled := to_bool val\<rparr>
      else if key = ''gnmi.host'' then c\<lparr>gnmi_host := val\<rparr>
      else if key = ''gnmi.port'' then c\<lparr>gnmi_port := ucast (to_u32 val (ucast (gnmi_port c)))\<rparr>
      else if key = ''allowed.numbers'' then c\<lparr>allowed_numbers := split_csv val\<rparr>
      else if key = ''session.ttl.sec'' then c\<lparr>session_ttl_sec := to_u32 val (session_ttl_sec c)\<rparr>
      else if key = ''lockout.failures'' then c\<lparr>lockout_failures := to_u32 val (lockout_failures c)\<rparr>
      else if key = ''lockout.sec'' then c\<lparr>lockout_sec := to_u32 val (lockout_sec c)\<rparr>
      else if key = ''modem.dev'' then c\<lparr>modem_dev := val\<rparr>
      else if key = ''modem.baud'' then c\<lparr>modem_baud := to_u32 val (modem_baud c)\<rparr>
      else if key = ''modem.type'' then c\<lparr>modem_type := parse_modem_type val\<rparr>
      else if key = ''users.file'' then c\<lparr>users_file := val\<rparr>
      else c)"

text \<open>Comment removal and the \<open>key = value\<close> cut of one line, shared with the users file.\<close>

definition strip_comment :: "string \<Rightarrow> string" where
  "strip_comment line = (case str_find CHR ''#'' line of Some h \<Rightarrow> take h line | None \<Rightarrow> line)"

definition config_line :: "string \<Rightarrow> AppConfig \<Rightarrow> AppConfig" where
  "config_line raw c =
     (let line = trim (strip_comment raw) in
      if line = [] then c
      else
        (case str_find CHR ''='' line of
           None \<Rightarrow> c
         | Some eq \<Rightarrow> apply_key (trim (substr 0 eq line)) (trim (drop (eq + 1) line)) c))"

definition parse_config :: "string \<Rightarrow> AppConfig" where
  "parse_config text = for_each config_line (getlines text) default_config"

subsection \<open>Lists of numbers\<close>

definition csv_item :: "string \<Rightarrow> bool" where
  "csv_item x \<longleftrightarrow> x \<noteq> [] \<and> CHR '','' \<notin> set x \<and> CHR '' '' \<notin> set x \<and> tab \<notin> set x"

fun join_csv :: "string list \<Rightarrow> string" where
  "join_csv [] = []"
| "join_csv [x] = x"
| "join_csv (x # y # r) = x @ '', '' @ join_csv (y # r)"

lemma split_csv_loop_out: "split_csv_loop out cur s = out @ split_csv_loop [] cur s"
proof (induction s arbitrary: out cur)
  case (Cons c s)
  show ?case
    using Cons.IH [of "if cur \<noteq> [] then out @ [cur] else out" "[]"] Cons.IH [of "[cur]" "[]"]
      Cons.IH [of out "cur @ [c]"] Cons.IH [of out cur]
    by (auto split: if_splits)
qed auto

lemma split_csv_loop_field:
  "CHR '','' \<notin> set x \<Longrightarrow> CHR '' '' \<notin> set x \<Longrightarrow> tab \<notin> set x \<Longrightarrow>
     split_csv_loop out cur (x @ s) = split_csv_loop out (cur @ x) s"
  by (induction x arbitrary: cur) auto

lemma split_csv_join_csv: "\<forall>x \<in> set xs. csv_item x \<Longrightarrow> split_csv (join_csv xs) = xs"
proof (induction xs rule: join_csv.induct)
  case (2 x)
  then show ?case
    using split_csv_loop_field [of x "[]" "[]" "[]"] by (simp add: split_csv_def csv_item_def)
next
  case (3 x y r)
  then have "split_csv_loop [] [] (join_csv (y # r)) = y # r" by (simp add: split_csv_def)
  with 3 show ?case
    using split_csv_loop_field [of x "[]" "[]" "'', '' @ join_csv (y # r)"]
      split_csv_loop_out [of "[x]" "[]" "join_csv (y # r)"]
    by (simp add: split_csv_def csv_item_def)
qed (simp add: split_csv_def)

lemma split_csv_items: "x \<in> set (split_csv s) \<Longrightarrow> csv_item x"
proof -
  have "(cur = [] \<or> csv_item cur) \<Longrightarrow> \<forall>x \<in> set out. csv_item x \<Longrightarrow>
      x \<in> set (split_csv_loop out cur s) \<Longrightarrow> csv_item x" for out cur
  proof (induction s arbitrary: out cur)
    case (Cons c s)
    have "cur @ [c] = [] \<or> csv_item (cur @ [c])" if "c \<noteq> CHR '',''" "c \<noteq> CHR '' ''" "c \<noteq> tab"
      using that Cons.prems(1) by (auto simp: csv_item_def)
    moreover have "\<forall>x \<in> set (if cur \<noteq> [] then out @ [cur] else out). csv_item x"
      using Cons.prems by auto
    ultimately show ?case
      using Cons.prems Cons.IH [of "[]" "if cur \<noteq> [] then out @ [cur] else out"]
        Cons.IH [of "cur @ [c]" out] Cons.IH [of cur out]
      by (cases "c = CHR '',''"; cases "c = CHR '' '' \<or> c = tab") auto
  qed (auto split: if_splits)
  from this [of "[]" "[]"] show "x \<in> set (split_csv s) \<Longrightarrow> csv_item x" by (simp add: split_csv_def)
qed

subsection \<open>The settings of a file\<close>

text \<open>The \<open>key = value\<close> pairs of a text, in order.\<close>

definition line_setting :: "string \<Rightarrow> (string \<times> string) option" where
  "line_setting raw =
     (let line = trim (strip_comment raw) in
      map_option (\<lambda>eq. (trim (substr 0 eq line), trim (drop (eq + 1) line))) (str_find CHR ''='' line))"

definition settings :: "string \<Rightarrow> (string \<times> string) list" where
  "settings text = List.map_filter line_setting (getlines text)"

lemma config_line_setting:
  "config_line raw c = (case line_setting raw of None \<Rightarrow> c | Some (k, v) \<Rightarrow> apply_key k v c)"
  by (cases "trim (strip_comment raw) = []"; cases "str_find CHR ''='' (trim (strip_comment raw))")
    (auto simp: config_line_def line_setting_def Let_def simp del: str_find_None)

lemma for_each_config_lines:
  "for_each config_line ls c = for_each (\<lambda>(k, v). apply_key k v) (List.map_filter line_setting ls) c"
  by (induction ls arbitrary: c)
    (auto simp: config_line_setting map_filter_simps split: option.split)

lemma parse_config_settings:
  "parse_config text = for_each (\<lambda>(k, v). apply_key k v) (settings text) default_config"
  by (simp add: parse_config_def settings_def for_each_config_lines)

lemma default_config_sel [simp]:
  "enabled default_config = False" "allowed_numbers default_config = []"
  "gnmi_host default_config = ''127.0.0.1''" "users_file default_config = ''/etc/zerotouch/users''"
  by (simp_all add: default_config_def)

lemma apply_key_same [simp]:
  "enabled (apply_key ''enabled'' v c) = to_bool v"
  "allowed_numbers (apply_key ''allowed.numbers'' v c) = split_csv v"
  "gnmi_host (apply_key ''gnmi.host'' v c) = v"
  "users_file (apply_key ''users.file'' v c) = v"
  by (simp_all add: apply_key_def)

lemma apply_key_other [simp]:
  "k \<noteq> ''enabled'' \<Longrightarrow> enabled (apply_key k v c) = enabled c"
  "k \<noteq> ''allowed.numbers'' \<Longrightarrow> allowed_numbers (apply_key k v c) = allowed_numbers c"
  "k \<noteq> ''gnmi.host'' \<Longrightarrow> gnmi_host (apply_key k v c) = gnmi_host c"
  "k \<noteq> ''users.file'' \<Longrightarrow> users_file (apply_key k v c) = users_file c"
  by (simp_all add: apply_key_def)

lemma last_setting_wins:
  assumes "\<And>v c. f (apply_key key v c) = g v"
    and "\<And>k v c. k \<noteq> key \<Longrightarrow> f (apply_key k v c) = f c"
  shows "f (for_each (\<lambda>(k, v). apply_key k v) kvs c) =
    (case map_of (rev kvs) key of Some v \<Rightarrow> g v | None \<Rightarrow> f c)"
proof (induction kvs arbitrary: c)
  case (Cons kv kvs)
  obtain k v where "kv = (k, v)" by (cases kv)
  with Cons.IH [of "apply_key k v c"] assms show ?case
    by (cases "k = key") (auto simp: map_add_def split: option.split)
qed simp

lemma enabled_parse_config:
  "enabled (parse_config text) =
     (case map_of (rev (settings text)) ''enabled'' of Some v \<Rightarrow> to_bool v | None \<Rightarrow> False)"
  unfolding parse_config_settings
  using last_setting_wins [of enabled "''enabled''" to_bool "settings text" default_config]
  by (simp split: option.split)

text \<open>
  What a configuration file switches on: the appliance is enabled only by a line
  \<open>enabled = v\<close> with \<open>v\<close> one of 1, true, yes, on, and the last such line of the file decides; without
  one it stays disabled.  The same rule gives the allowlist, the gNMI host and the users file from
  their last line, with the defaults of the source otherwise.
\<close>

theorem config_last_line_wins:
  "enabled (parse_config text) =
     (case map_of (rev (settings text)) ''enabled'' of Some v \<Rightarrow> to_bool v | None \<Rightarrow> False)
   \<and> allowed_numbers (parse_config text) =
     (case map_of (rev (settings text)) ''allowed.numbers'' of Some v \<Rightarrow> split_csv v | None \<Rightarrow> [])
   \<and> gnmi_host (parse_config text) =
     (case map_of (rev (settings text)) ''gnmi.host'' of Some v \<Rightarrow> v | None \<Rightarrow> ''127.0.0.1'')
   \<and> users_file (parse_config text) =
     (case map_of (rev (settings text)) ''users.file'' of Some v \<Rightarrow> v | None \<Rightarrow> ''/etc/zerotouch/users'')"
  unfolding enabled_parse_config unfolding parse_config_settings
  using last_setting_wins [of allowed_numbers "''allowed.numbers''" split_csv "settings text" default_config]
    last_setting_wins [of gnmi_host "''gnmi.host''" "\<lambda>v. v" "settings text" default_config]
    last_setting_wins [of users_file "''users.file''" "\<lambda>v. v" "settings text" default_config]
  by (simp split: option.split)

subsection \<open>Numbers\<close>

lemma to_u32_to_string:
  "0 < n \<Longrightarrow> n < 2 ^ 63 \<Longrightarrow> to_u32 (to_string n) d = word_of_int n"
  using stol_to_string [of n] by (simp add: to_u32_def in_signed_range_def)

lemma uint_pos: "w \<noteq> 0 \<Longrightarrow> 0 < uint w"
  by (simp add: order_less_le word_uint_eq_iff)

lemma to_u32_of_word: "w \<noteq> 0 \<Longrightarrow> to_u32 (to_string (uint w)) d = w"
  using uint_bounded [of w] by (subst to_u32_to_string) (auto intro: uint_pos)

lemma to_u32_of_port: "w \<noteq> 0 \<Longrightarrow> ucast (to_u32 (to_string (uint (w :: u16))) d) = w"
  using uint_bounded [of w]
  by (subst to_u32_to_string)
    (auto intro: uint_pos simp: word_uint_eq_iff unsigned_ucast_eq unsigned_of_int unsigned_take_bit_eq
      take_bit_int_eq_self)

text \<open>
  C39.  What each of the five numeric settings makes of an integer, of any size and sign: a number that
  is positive and below 2^63 is reduced modulo the width of the setting (2^32, for the gNMI port
  2^16), and any other leaves the setting as it was.  The guard against numbers that are not positive
  comes before the reduction, so \<open>gnmi.port = 65536\<close> yields port 0 and \<open>lockout.failures = 4294967296\<close>
  yields the value 0 that the guard is there to refuse.
\<close>

theorem numeric_settings_wrap:
  "let accepted = 0 < n \<and> n < 2 ^ 63; taken = (\<lambda>w old. if accepted then n mod 2 ^ w else old) in
   uint (gnmi_port (apply_key ''gnmi.port'' (to_string n) c)) = taken 16 (uint (gnmi_port c))
   \<and> uint (session_ttl_sec (apply_key ''session.ttl.sec'' (to_string n) c)) = taken 32 (uint (session_ttl_sec c))
   \<and> uint (lockout_failures (apply_key ''lockout.failures'' (to_string n) c)) = taken 32 (uint (lockout_failures c))
   \<and> uint (lockout_sec (apply_key ''lockout.sec'' (to_string n) c)) = taken 32 (uint (lockout_sec c))
   \<and> uint (modem_baud (apply_key ''modem.baud'' (to_string n) c)) = taken 32 (uint (modem_baud c))"
proof -
  have u: "to_u32 (to_string n) old = (if 0 < n \<and> n < 2 ^ 63 then word_of_int n else old)" for old
    using strtol10_to_string [of "[]" n] by (auto simp: to_u32_def stol_def in_signed_range_def)
  have "uint (gnmi_port c) mod 65536 = uint (gnmi_port c)" using uint_bounded [of "gnmi_port c"] by simp
  then show ?thesis
    by (simp add: apply_key_def u unsigned_of_int unsigned_ucast_eq take_bit_eq_mod mod_mod_cancel Let_def)
qed

theorem numeric_settings_wrap_witness:
  "uint (gnmi_port (apply_key ''gnmi.port'' (to_string 65536) default_config)) = 0
   \<and> uint (lockout_failures (apply_key ''lockout.failures'' (to_string 4294967296) default_config)) = 0
   \<and> lockout_failures (apply_key ''lockout.failures'' (to_string (- 1)) default_config) = lockout_failures default_config"
  using numeric_settings_wrap [of 65536 default_config] numeric_settings_wrap [of 4294967296 default_config]
    numeric_settings_wrap [of "- 1" default_config] by (simp add: Let_def word_uint_eq_iff)

subsection \<open>Writing a configuration and reading it back\<close>

definition plain_value :: "string \<Rightarrow> bool" where
  "plain_value v \<longleftrightarrow> trimmed v \<and> CHR ''#'' \<notin> set v \<and> newline \<notin> set v"

definition setting_line :: "string \<times> string \<Rightarrow> string" where
  "setting_line kv = fst kv @ '' = '' @ snd kv"

definition config_pairs :: "AppConfig \<Rightarrow> (string \<times> string) list" where
  "config_pairs c =
     [(''enabled'', if enabled c then ''true'' else ''false''),
      (''gnmi.host'', gnmi_host c),
      (''gnmi.port'', to_string (uint (gnmi_port c))),
      (''allowed.numbers'', join_csv (allowed_numbers c)),
      (''session.ttl.sec'', to_string (uint (session_ttl_sec c))),
      (''lockout.failures'', to_string (uint (lockout_failures c))),
      (''lockout.sec'', to_string (uint (lockout_sec c))),
      (''modem.dev'', modem_dev c),
      (''modem.baud'', to_string (uint (modem_baud c))),
      (''modem.type'', modem_type_name (modem_type c)),
      (''users.file'', users_file c)]"

definition config_text :: "AppConfig \<Rightarrow> string" where
  "config_text c = unlines (map setting_line (config_pairs c))"

definition config_ok :: "AppConfig \<Rightarrow> bool" where
  "config_ok c \<longleftrightarrow>
     plain_value (gnmi_host c) \<and> plain_value (modem_dev c) \<and> plain_value (users_file c)
     \<and> list_all (\<lambda>x. csv_item x \<and> CHR ''#'' \<notin> set x \<and> set x \<inter> set blanks = {}) (allowed_numbers c)
     \<and> gnmi_port c \<noteq> 0 \<and> session_ttl_sec c \<noteq> 0 \<and> lockout_failures c \<noteq> 0
     \<and> lockout_sec c \<noteq> 0 \<and> modem_baud c \<noteq> 0"

lemma strip_comment_id: "CHR ''#'' \<notin> set l \<Longrightarrow> strip_comment l = l"
  by (simp add: strip_comment_def flip: str_find_None)

lemma trim_setting:
  assumes "trimmed k" "k \<noteq> []" "trimmed v"
  shows "trim (k @ '' = '' @ v) = k @ '' ='' @ (if v = [] then [] else '' '' @ v)"
proof (cases "v = []")
  case True
  then show ?thesis
    using assms trim_pad [of "k @ '' =''" "[]" "'' ''"] by (auto simp: trimmed_def blanks_def)
next
  case False
  then show ?thesis
    using assms trim_id [of "k @ '' = '' @ v"] by (auto simp: trimmed_def)
qed

lemma line_setting_of_line:
  assumes "plain_value k" "k \<noteq> []" "CHR ''='' \<notin> set k" "plain_value v"
  shows "line_setting (setting_line (k, v)) = Some (k, v)"
proof -
  let ?l = "k @ '' ='' @ (if v = [] then [] else '' '' @ v)"
  have l: "trim (strip_comment (setting_line (k, v))) = ?l"
    using assms trim_setting [of k v] by (simp add: setting_line_def strip_comment_id plain_value_def)
  have "?l = (k @ '' '') @ CHR ''='' # (if v = [] then [] else '' '' @ v)" by simp
  moreover have "CHR ''='' \<notin> set (k @ '' '')" using assms(3) by simp
  ultimately have f: "str_find CHR ''='' ?l = Some (length (k @ '' ''))"
    using str_find_append by metis
  have "trim (k @ '' '') = k" using trim_pad [of k "[]" "'' ''"] assms(1)
    by (simp add: plain_value_def blanks_def)
  moreover have "trim (if v = [] then [] else '' '' @ v) = v"
    using trim_pad [of v "'' ''" "[]"] assms(4) by (auto simp: plain_value_def blanks_def)
  ultimately show ?thesis
    unfolding line_setting_def l f Let_def by (simp add: substr_def)
qed

lemma settings_of_lines:
  assumes "\<forall>(k, v) \<in> set kvs. plain_value k \<and> k \<noteq> [] \<and> CHR ''='' \<notin> set k \<and> plain_value v"
  shows "settings (unlines (map setting_line kvs)) = kvs"
proof -
  have "\<forall>l \<in> set (map setting_line kvs). newline \<notin> set l"
    using assms by (fastforce simp: setting_line_def plain_value_def)
  then have "getlines (unlines (map setting_line kvs)) = map setting_line kvs"
    using getlines_unlines [of "map setting_line kvs" "[]"] by simp
  moreover have "List.map_filter line_setting (map setting_line kvs) = kvs"
    using assms by (induction kvs) (auto simp: line_setting_of_line map_filter_simps)
  ultimately show ?thesis by (simp add: settings_def)
qed

lemma plain_value_to_string: "plain_value (to_string n)"
proof -
  have "c \<noteq> CHR ''#'' \<and> c \<noteq> newline" if "c \<in> set (to_string n)" for c
    using set_to_string [OF that] by (auto simp: is_digit_def)
  then show ?thesis by (auto simp: plain_value_def)
qed

lemma plain_value_join_csv:
  assumes "\<forall>x \<in> set xs. csv_item x \<and> CHR ''#'' \<notin> set x \<and> set x \<inter> set blanks = {}"
  shows "plain_value (join_csv xs)"
proof -
  have "plain_value (join_csv xs) \<and> (xs \<noteq> [] \<longrightarrow> join_csv xs \<noteq> [] )"
    using assms
  proof (induction xs rule: join_csv.induct)
    case (2 x)
    then show ?case
      by (auto simp: plain_value_def trimmed_def csv_item_def blanks_def disjoint_iff)
  next
    case (3 x y r)
    then have "plain_value (join_csv (y # r))" "join_csv (y # r) \<noteq> []" by auto
    moreover have "x \<noteq> []" "hd x \<notin> set blanks" "CHR ''#'' \<notin> set x" "newline \<notin> set x"
      using 3(2) by (auto simp: csv_item_def disjoint_iff blanks_def)
    ultimately show ?case by (auto simp: plain_value_def trimmed_def)
  qed (simp add: plain_value_def trimmed_def)
  then show ?thesis by simp
qed

lemma parse_modem_type_name: "parse_modem_type (modem_type_name t) = t"
  by (cases t) (simp_all add: parse_modem_type_def lower_def tolower_def)

lemma config_pairs_plain:
  "config_ok c \<Longrightarrow> \<forall>(k, v) \<in> set (config_pairs c).
     plain_value k \<and> k \<noteq> [] \<and> CHR ''='' \<notin> set k \<and> plain_value v"
  using plain_value_join_csv [of "allowed_numbers c"]
  by (cases "modem_type c") (auto simp: config_pairs_def config_ok_def plain_value_to_string list_all_iff
      plain_value_def [of "_ # _"] trimmed_def [of "_ # _"] blanks_def)

text \<open>
  C34.  A configuration survives being written and read: writing every setting of a configuration,
  one \<open>key = value\<close> line each, and parsing the text gives the same configuration, for all
  configurations whose texts have no comment sign, newline or surrounding blanks and whose numbers
  are not zero.
\<close>

theorem config_round_trip:
  assumes "config_ok c"
  shows "parse_config (config_text c) = c"
proof -
  have "settings (config_text c) = config_pairs c"
    unfolding config_text_def by (rule settings_of_lines [OF config_pairs_plain [OF assms]])
  moreover have "split_csv (join_csv (allowed_numbers c)) = allowed_numbers c"
    using assms by (intro split_csv_join_csv) (auto simp: config_ok_def list_all_iff)
  moreover have "(ucast (to_u32 (to_string (uint (gnmi_port c))) d) :: u16) = gnmi_port c" for d
    using assms by (intro to_u32_of_port) (simp add: config_ok_def)
  ultimately show ?thesis
    using assms unfolding parse_config_settings
    by (simp add: config_pairs_def apply_key_def to_u32_of_word config_ok_def parse_modem_type_name
        to_bool_def)
qed

theorem config_round_trip_witness:
  "parse_config (config_text (default_config\<lparr>enabled := True, allowed_numbers := [''+15551230000'', ''42'']\<rparr>))
   = default_config\<lparr>enabled := True, allowed_numbers := [''+15551230000'', ''42'']\<rparr>"
  by (rule config_round_trip)
    (simp add: config_ok_def default_config_def plain_value_def trimmed_def blanks_def csv_item_def)

end
