(* ===== verification/Sim.thy ===== *)
theory Sim
  imports Smsctl Gnmi_Simd Config_File
begin

text \<open>
  The SMS simulator, \<open>sim/zt_sim.cpp\<close>: the same bridge and executor as the device behind a console
  transport, a key store in memory (\<open>MemDsSink\<close>), and the read-eval-print loop.  The gNMI backend is
  a tree in memory (\<open>MemGnmiSink\<close>) or, with \<open>--gnmi=HOST:PORT\<close>, the production backend behind
  \<open>QuietSink\<close>.  The state holds what the program has written to \<open>std::cout\<close>, as bytes; \<open>sim_sent\<close> logs
  the SMS the console transport printed, and its length is the transport's counter.  The clock is a
  parameter: \<open>clk i\<close> is its \<open>i\<close>-th reading, and the state counts the readings.  A call of the RPC
  library changes the network's state \<open>'n\<close> and may write to \<open>std::cout\<close> too.  Messages on \<open>std::cerr\<close>
  are not modelled.
\<close>

record SimDs =
  sd_kv :: "(string, string) smap"
  sd_cout :: string
  sd_reads :: nat

record ('ss, 'n) Sim =
  sim_ds :: SimDs
  sim_tree :: "(string, string) smap"
  sim_net :: 'n
  sim_sessions :: 'ss
  sim_enabled :: bool
  sim_handled :: u64
  sim_from :: string
  sim_sent :: "(string \<times> string) list"

type_synonym clock = "nat \<Rightarrow> u64"

text \<open>What the program is linked with and started with: the libraries, the clock, and \<open>--gnmi\<close>.\<close>

record ('ss, 'c, 'n, 'p, 'v, 'b) SimEnv =
  se_smsctl :: "('ss, 'c, SimDs) smsctl"
  se_clk :: clock
  se_lib :: "('p, 'v, 'b) gnmi_lib"
  se_call :: "('n \<times> string, 'b) rpc"
  se_host :: string
  se_port :: u16

definition cout :: "string \<Rightarrow> ('ss, 'n) Sim \<Rightarrow> ('ss, 'n) Sim" where
  "cout s w = w\<lparr>sim_ds := (sim_ds w)\<lparr>sd_cout := sd_cout (sim_ds w) @ s\<rparr>\<rparr>"

definition MemDsSink :: "clock \<Rightarrow> SimDs DsSink" where
  "MemDsSink clk =
     \<lparr>ds_set = (\<lambda>k v d. (True, d\<lparr>sd_kv := smap_set k v (sd_kv d)\<rparr>)),
      ds_get = (\<lambda>k d. (smap_find (sd_kv d) k, d)),
      ds_arm_trigger = (\<lambda>p _ d.
        (True, d\<lparr>sd_cout := sd_cout d @ ''  '' @ [CHR 0xC2, CHR 0xB7] @ '' [trigger armed] '' @ p @ [newline]\<rparr>)),
      ds_now_ms = (\<lambda>d. (clk (sd_reads d) * 1000, d\<lparr>sd_reads := sd_reads d + 1\<rparr>))\<rparr>"

definition now_s :: "clock \<Rightarrow> (('ss, 'n) Sim, u64) eff" where
  "now_s clk w =
     (clk (sd_reads (sim_ds w)), w\<lparr>sim_ds := (sim_ds w)\<lparr>sd_reads := sd_reads (sim_ds w) + 1\<rparr>\<rparr>)"

subsection \<open>The two gNMI backends\<close>

definition mem_row :: "(string, string) smap \<Rightarrow> string \<Rightarrow> GnmiPathResult" where
  "mem_row tree xp =
     (if is_sensitive_path_default xp
      then \<lparr>pr_xpath = xp, pr_value = [], pr_error = ''sensitive path denied''\<rparr>
      else (case smap_find tree xp of
              None \<Rightarrow> \<lparr>pr_xpath = xp, pr_value = [], pr_error = ''not found''\<rparr>
            | Some v \<Rightarrow> \<lparr>pr_xpath = xp, pr_value = v, pr_error = []\<rparr>))"

definition MemGnmiSink_get :: "string list \<Rightarrow> (('ss, 'n) Sim, GnmiResult) eff" where
  "MemGnmiSink_get xpaths w =
     (\<lparr>res_ok = True, res_grpc_status = 0, res_grpc_message = [],
       res_paths = map (mem_row (sim_tree w)) xpaths\<rparr>, w)"

definition MemGnmiSink_set :: "(string \<times> string) list \<Rightarrow> (('ss, 'n) Sim, GnmiResult) eff" where
  "MemGnmiSink_set updates w =
     (\<lparr>res_ok = True, res_grpc_status = 0, res_grpc_message = [],
       res_paths = map (\<lambda>(xp, _). \<lparr>pr_xpath = xp, pr_value = [], pr_error = []\<rparr>) updates\<rparr>,
      w\<lparr>sim_tree := for_each (\<lambda>(xp, val). smap_set xp val) updates (sim_tree w)\<rparr>)"

definition MemGnmiSink :: "('ss, 'n) Sim GnmiSink" where
  "MemGnmiSink = \<lparr>sink_get = MemGnmiSink_get, sink_set = MemGnmiSink_set\<rparr>"

text \<open>
  \<open>QuietSink\<close>: the second component of the inner backend's world is the buffer behind \<open>std::cout\<close>.
  The call runs on an empty buffer, which is dropped; the saved one is put back.
\<close>

definition hushed :: "('n \<times> string, 'a) eff \<Rightarrow> ('n \<times> string, 'a) eff" where
  "hushed f = (\<lambda>(net, saved). let (r, (net', swallowed)) = f (net, []) in (r, (net', saved)))"

definition QuietSink :: "('n \<times> string) GnmiSink \<Rightarrow> ('n \<times> string) GnmiSink" where
  "QuietSink inner =
     \<lparr>sink_get = (\<lambda>xpaths. hushed (sink_get inner xpaths)),
      sink_set = (\<lambda>updates. hushed (sink_set inner updates))\<rparr>"

text \<open>A call on the network and the console, as a call on the program's state.\<close>

definition on_net :: "('n \<times> string, 'a) eff \<Rightarrow> (('ss, 'n) Sim, 'a) eff" where
  "on_net f w =
     (let (r, (net, out)) = f (sim_net w, sd_cout (sim_ds w))
      in (r, w\<lparr>sim_net := net, sim_ds := (sim_ds w)\<lparr>sd_cout := out\<rparr>\<rparr>))"

definition remote_config :: "('ss, 'c, 'n, 'p, 'v, 'b) SimEnv \<Rightarrow> SinkConfig" where
  "remote_config E = default_sink_config\<lparr>sc_host := se_host E, sc_port := se_port E\<rparr>"

definition remote_sink :: "('ss, 'c, 'n, 'p, 'v, 'b) SimEnv \<Rightarrow> ('ss, 'n) Sim GnmiSink" where
  "remote_sink E =
     (let quiet = QuietSink (LocalGnmiSink (se_lib E) (se_call E) (remote_config E)) in
      \<lparr>sink_get = (\<lambda>xpaths. on_net (sink_get quiet xpaths)),
       sink_set = (\<lambda>updates. on_net (sink_set quiet updates))\<rparr>)"

definition sim_sink :: "('ss, 'c, 'n, 'p, 'v, 'b) SimEnv \<Rightarrow> ('ss, 'n) Sim GnmiSink" where
  "sim_sink E = (if se_host E \<noteq> [] then remote_sink E else MemGnmiSink)"

definition backend :: "('ss, 'c, 'n, 'p, 'v, 'b) SimEnv \<Rightarrow> string" where
  "backend E =
     (if se_host E \<noteq> []
      then ''LocalGnmiSink '' @ [CHR 0xE2, CHR 0x86, CHR 0x92] @ '' gRPC '' @ se_host E @ '':''
        @ to_string (uint (se_port E))
      else ''in-memory tree (no gRPC)'')"

subsection \<open>The wiring\<close>

definition ConsoleTransport :: "('ss, 'n) Sim ISmsTransport" where
  "ConsoleTransport =
     \<lparr>tx_send = (\<lambda>to txt w.
        (True, (cout (''  '' @ [CHR 0xE2, CHR 0x86, CHR 0x90] @ '' SMS to '' @ to @ '': '' @ txt @ [newline]) w)
           \<lparr>sim_sent := sim_sent w @ [(to, txt)]\<rparr>)),
      tx_start = (\<lambda>_ w. w)\<rparr>"

definition demo_users :: "('ss, 'c, SimDs) smsctl \<Rightarrow> (string, Account) smap" where
  "demo_users S =
     [(''admin'', \<lparr>acc_id = ''admin'', acc_hash = sha256_hex S ''admin'', acc_access = ''Admin''\<rparr>),
      (''viewer'', \<lparr>acc_id = ''viewer'', acc_hash = sha256_hex S ''viewer'', acc_access = ''Viewer''\<rparr>)]"

definition sim_auth :: "('ss, 'c, SimDs) smsctl \<Rightarrow> clock \<Rightarrow> ('ss, 'n) Sim AuthFn" where
  "sim_auth S clk sender w =
     (let (now, w1) = now_s clk w;
          (acc, ss) = session S sender now (sim_sessions w1)
      in (account_access acc, w1\<lparr>sim_sessions := ss\<rparr>))"

definition sim_fallback ::
  "('ss, 'c, SimDs) smsctl \<Rightarrow> clock \<Rightarrow> string \<Rightarrow> string \<Rightarrow> (('ss, 'n) Sim, string) eff" where
  "sim_fallback S clk sender txt w =
     (let cmd = sms_parse S txt in
      if kind_of S cmd = NotACommand then ([], w)
      else
        (let (now, w1) = now_s clk w;
             w2 = w1\<lparr>sim_handled := sim_handled w1 + 1\<rparr>;
             seed = command_seed now (sim_handled w2);
             (reply, (ss, d)) =
               executor_handle S (MemDsSink clk) (\<lambda>i d. (smap_find (demo_users S) i, d))
                 cmd sender now seed (sim_sessions w2, sim_ds w2)
         in (reply, w2\<lparr>sim_sessions := ss, sim_ds := d\<rparr>)))"

definition sim_allow :: "('ss, 'c, SimDs) smsctl \<Rightarrow> string \<Rightarrow> (('ss, 'n) Sim, bool) eff" where
  "sim_allow S sender w = (sim_enabled w \<and> session_sender_allowed S sender (sim_sessions w), w)"

definition sim_bridge :: "('ss, 'c, 'n, 'p, 'v, 'b) SimEnv \<Rightarrow> ('ss, 'n) Sim Bridge" where
  "sim_bridge E =
     \<lparr>br_tx = ConsoleTransport,
      br_gex = \<lparr>gx_sink = sim_sink E, gx_auth = Some (sim_auth (se_smsctl E) (se_clk E))\<rparr>,
      br_tok = Some (tokenize (se_smsctl E)), br_fallback = Some (sim_fallback (se_smsctl E) (se_clk E)),
      br_allow = Some (sim_allow (se_smsctl E))\<rparr>"

definition sim_init :: "'ss \<Rightarrow> 'n \<Rightarrow> ('ss, 'n) Sim" where
  "sim_init sessions net =
     \<lparr>sim_ds = \<lparr>sd_kv = [], sd_cout = [], sd_reads = 0\<rparr>,
      sim_tree = for_each (\<lambda>(k, v). smap_set k v)
        [(''/system/config/hostname'', ''demo-router''),
         (''/system/state/uptime'', ''12345''),
         (''/interfaces/interface[name=eth0]/state/oper-status'', ''UP''),
         (''/system/aaa/user[name=admin]/config/password'', ''s3cr3t'')] [],
      sim_net = net, sim_sessions = sessions, sim_enabled = True, sim_handled = 0,
      sim_from = ''+15551230000'', sim_sent = []\<rparr>"

subsection \<open>The console\<close>

definition allowlist_size :: "('ss, 'c, SimDs) smsctl \<Rightarrow> 'ss \<Rightarrow> string" where
  "allowlist_size S ss = to_string (int (length (ss_allowed_numbers (session_config S ss))))"

definition banner :: "('ss, 'c, 'n, 'p, 'v, 'b) SimEnv \<Rightarrow> ('ss, 'n) Sim \<Rightarrow> ('ss, 'n) Sim" where
  "banner E w = cout (unlines
     [''zerotouch-sim '' @ [CHR 0xE2, CHR 0x80, CHR 0x94] @ '' SMS simulator (no modem, no ds-server)'',
      ''  gNMI backend: '' @ backend E,
      ''  from='' @ sim_from w @ ''  enabled='' @ (if sim_enabled w then ''yes'' else ''no'')
        @ ''  allowlist='' @ allowlist_size (se_smsctl E) (sim_sessions w) @ '' number(s)'',
      ''  demo users: admin/admin (Admin), viewer/viewer (Viewer)'',
      ''  type an SMS body, or /help.  Try: IOT LOGIN admin admin'']) w"

definition help_text :: string where
  "help_text = unlines
     [''commands:'',
      ''  <text>              send <text> as an SMS from the current sender'',
      ''  /from <number>      set the sender MSISDN (default +15551230000)'',
      ''  /enable | /disable  toggle zerotouch.enabled (disabled => silent drop)'',
      ''  /allow <csv>        set the allowlist (empty => any sender may login)'',
      ''  /tree               dump the gNMI store (remote: GET / over gRPC)'',
      ''  /users              list the demo users'',
      ''  /help               this help'',
      ''  /quit | /exit | quit | exit | q    leave'',
      ''examples:'',
      ''  IOT LOGIN admin admin'',
      ''  IOT GNMI GET /system/config/hostname'',
      ''  IOT GNMI GET /system/config/hostname,/system/aaa/user[name=admin]/config/password'',
      ''  IOT GNMI SET /system/config/hostname router-7'',
      ''  IOT STATUS'']"

text \<open>\<open>/tree\<close>: the tree in memory as it is, or the rows of a GET of the root over the wire.\<close>

definition tree_line :: "GnmiPathResult \<Rightarrow> string" where
  "tree_line p = ''  '' @ pr_xpath p @ '' = ''
     @ (if pr_error p = [] then pr_value p else ''<'' @ pr_error p @ ''>'')"

definition get_failed :: "GnmiResult \<Rightarrow> string" where
  "get_failed r = ''  (gNMI GET / failed: status '' @ to_string (res_grpc_status r)
     @ (if res_grpc_message r = [] then [] else '' '' @ res_grpc_message r) @ '')''"

definition sim_show_tree :: "('ss, 'c, 'n, 'p, 'v, 'b) SimEnv \<Rightarrow> ('ss, 'n) Sim \<Rightarrow> ('ss, 'n) Sim" where
  "sim_show_tree E w =
     (if se_host E = [] then cout (unlines (map (\<lambda>(k, v). ''  '' @ k @ '' = '' @ v) (sim_tree w))) w
      else
        (let (r, w1) = sink_get (sim_sink E) [''/''] w in
         cout (unlines (if \<not> res_ok r then [get_failed r] else map tree_line (res_paths r))) w1))"

definition sim_allow_csv ::
  "('ss, 'c, SimDs) smsctl \<Rightarrow> string \<Rightarrow> ('ss, 'n) Sim \<Rightarrow> ('ss, 'n) Sim" where
  "sim_allow_csv S rest w =
     (let ss = session_set_config S
        ((session_config S (sim_sessions w))\<lparr>ss_allowed_numbers := split_csv rest\<rparr>) (sim_sessions w)
      in cout (''  allowlist = '' @ allowlist_size S ss @ '' number(s)'' @ [newline]) (w\<lparr>sim_sessions := ss\<rparr>))"

text \<open>A line that starts with a slash: the command is the first word, the argument the rest of the
  line after one space.  \<^term>\<open>None\<close> leaves the loop.\<close>

definition sim_slash ::
  "('ss, 'c, 'n, 'p, 'v, 'b) SimEnv \<Rightarrow> string \<Rightarrow> ('ss, 'n) Sim \<Rightarrow> ('ss, 'n) Sim option" where
  "sim_slash E line w =
     (let cmd = takeWhile (\<lambda>c. \<not> is_space c) line;
          rest0 = dropWhile (\<lambda>c. \<not> is_space c) line;
          rest = (if rest0 \<noteq> [] \<and> hd rest0 = CHR '' '' then tl rest0 else rest0) in
      if cmd = ''/quit'' \<or> cmd = ''/exit'' then None
      else if cmd = ''/help'' then Some (cout help_text w)
      else if cmd = ''/from'' \<and> rest \<noteq> [] then
        Some (cout (''  sender = '' @ rest @ [newline]) (w\<lparr>sim_from := rest\<rparr>))
      else if cmd = ''/enable'' then Some (cout (''  enabled'' @ [newline]) (w\<lparr>sim_enabled := True\<rparr>))
      else if cmd = ''/disable'' then Some (cout (''  disabled'' @ [newline]) (w\<lparr>sim_enabled := False\<rparr>))
      else if cmd = ''/allow'' then Some (sim_allow_csv (se_smsctl E) rest w)
      else if cmd = ''/tree'' then Some (sim_show_tree E w)
      else if cmd = ''/users'' then
        Some (cout (unlines (map (\<lambda>(i, a). ''  '' @ i @ '' ('' @ acc_access a @ '')'') (demo_users (se_smsctl E)))) w)
      else Some (cout (''  unknown command (try /help)'' @ [newline]) w))"

definition no_reply_text :: string where
  "no_reply_text = ''  (no reply '' @ [CHR 0xE2, CHR 0x80, CHR 0x94]
     @ '' dropped: disabled, not allowlisted, or not an IOT command)'' @ [newline]"

definition sim_sms ::
  "('ss, 'c, 'n, 'p, 'v, 'b) SimEnv \<Rightarrow> string \<Rightarrow> ('ss, 'n) Sim \<Rightarrow> ('ss, 'n) Sim" where
  "sim_sms E line w =
     (let before = length (sim_sent w);
          w1 = cout (''  '' @ [CHR 0xE2, CHR 0x86, CHR 0x92] @ '' SMS from '' @ sim_from w @ '': '' @ line @ [newline]) w;
          (now, w2) = now_s (se_clk E) w1;
          w3 = Bridge_on_sms (sim_bridge E)
            \<lparr>sms_sender = sim_from w, sms_text = line, sms_ts = to_string (uint now)\<rparr> w2
      in if length (sim_sent w3) = before then cout no_reply_text w3 else w3)"

text \<open>One line of the loop, its carriage return dropped.\<close>

definition chomp :: "string \<Rightarrow> string" where
  "chomp raw = (if raw \<noteq> [] \<and> last raw = creturn then butlast raw else raw)"

definition sim_line ::
  "('ss, 'c, 'n, 'p, 'v, 'b) SimEnv \<Rightarrow> string \<Rightarrow> ('ss, 'n) Sim \<Rightarrow> ('ss, 'n) Sim option" where
  "sim_line E raw w =
     (let line = chomp raw in
      if line = ''quit'' \<or> line = ''exit'' \<or> line = ''q'' then None
      else if line \<noteq> [] \<and> hd line = CHR ''/'' then sim_slash E line w
      else if line \<noteq> [] then Some (sim_sms E line w)
      else Some w)"

fun sim_repl ::
  "('ss, 'c, 'n, 'p, 'v, 'b) SimEnv \<Rightarrow> string list \<Rightarrow> ('ss, 'n) Sim \<Rightarrow> ('ss, 'n) Sim" where
  "sim_repl E [] w = cout (''bye'' @ [newline]) w"
| "sim_repl E (l # ls) w =
     (case sim_line E l w of
        None \<Rightarrow> cout (''bye'' @ [newline]) w
      | Some w' \<Rightarrow> sim_repl E ls (cout ''> '' w'))"

subsection \<open>The main program\<close>

text \<open>The arguments: the host and port of \<open>--gnmi\<close>, the last one given.\<close>

fun sim_args :: "string list \<Rightarrow> string \<times> u16 \<Rightarrow> (string \<times> u16) main_start" where
  "sim_args [] remote = Run remote"
| "sim_args (a # as) remote =
     (if prefix ''--gnmi='' a then
        (let hp = drop 7 a in
         case str_rfind CHR '':'' hp of
           None \<Rightarrow> Exit 2
         | Some colon \<Rightarrow>
             (case stoi (drop (colon + 1) hp) of
                None \<Rightarrow> Uncaught
              | Some n \<Rightarrow> sim_args as (substr 0 colon hp, word_of_int n)))
      else if a = ''--help'' \<or> a = ''-h'' then Exit 0
      else Exit 2)"

text \<open>A build without the gRPC backend refuses a remote host.\<close>

definition sim_remote :: "bool \<Rightarrow> string list \<Rightarrow> (string \<times> u16) main_start" where
  "sim_remote with_gnmi args =
     (case sim_args args ([], 0) of
        Run (host, port) \<Rightarrow> if \<not> with_gnmi \<and> host \<noteq> [] then Exit 2 else Run (host, port)
      | m \<Rightarrow> m)"

text \<open>\<open>main\<close> on the lines of the standard input: the exit code, and the state at the end of a run.\<close>

definition sim_main :: "bool \<Rightarrow> string list \<Rightarrow> ('ss, 'c, 'n, 'p, 'v, 'b) SimEnv \<Rightarrow> 'ss \<Rightarrow> 'n
    \<Rightarrow> string list \<Rightarrow> ('ss, 'n) Sim main_start" where
  "sim_main with_gnmi args E0 sessions net lines =
     (case sim_remote with_gnmi args of
        Exit n \<Rightarrow> Exit n
      | Uncaught \<Rightarrow> Uncaught
      | Run (host, port) \<Rightarrow>
          (let E = E0\<lparr>se_host := host, se_port := port\<rparr>;
               w = Bridge_start (sim_bridge E) (sim_init sessions net)
           in Run (sim_repl E lines (cout ''> '' (banner E w)))))"

subsection \<open>The seams of the simulator keep their contracts\<close>

lemma cout_sel [simp]:
  "sim_sent (cout s w) = sim_sent w" "sim_tree (cout s w) = sim_tree w" "sim_net (cout s w) = sim_net w"
  "sim_sessions (cout s w) = sim_sessions w" "sim_enabled (cout s w) = sim_enabled w"
  "sim_handled (cout s w) = sim_handled w" "sim_from (cout s w) = sim_from w"
  "sd_cout (sim_ds (cout s w)) = sd_cout (sim_ds w) @ s"
  "sd_reads (sim_ds (cout s w)) = sd_reads (sim_ds w)" "sd_kv (sim_ds (cout s w)) = sd_kv (sim_ds w)"
  by (simp_all add: cout_def)

lemma deny_of_remote [simp]: "deny_of (remote_config E) = default_deny_tokens"
  by (simp add: deny_of_def remote_config_def default_sink_config_def)

text \<open>Whatever the library prints during the call is dropped, and the rest of the state is untouched.\<close>

lemma on_net_hushed:
  "on_net (hushed f) w =
     (let (r, (net, _)) = f (sim_net w, []) in (r, w\<lparr>sim_net := net\<rparr>))"
  by (simp add: on_net_def hushed_def split: prod.split)

lemma remote_get: "sink_get (remote_sink E) xs =
    on_net (hushed (LocalGnmiSink_get (se_lib E) (se_call E) (remote_config E) xs))"
  and remote_set: "sink_set (remote_sink E) us =
    on_net (hushed (LocalGnmiSink_set (se_lib E) (se_call E) (remote_config E) us))"
  by (simp_all add: remote_sink_def QuietSink_def LocalGnmiSink_def)

lemma remote_sink_only_net:
  "sink_get (remote_sink E) xs w = (r, w') \<Longrightarrow> \<exists>net. w' = w\<lparr>sim_net := net\<rparr>"
  "sink_set (remote_sink E) us w = (r, w') \<Longrightarrow> \<exists>net. w' = w\<lparr>sim_net := net\<rparr>"
  by (auto simp: remote_get remote_set on_net_hushed split: prod.splits)

interpretation mem_sink: masking_sink "MemGnmiSink :: ('ss, 'n) Sim GnmiSink" is_sensitive_path_default
  by unfold_locales
    (auto simp: MemGnmiSink_def MemGnmiSink_get_def mem_row_def split: if_splits option.splits)

interpretation remote_sink: masking_sink "remote_sink E" is_sensitive_path_default for E
proof (unfold_locales, goal_cases)
  case (1 xs w r w' p)
  then obtain x where
    "sink_get (LocalGnmiSink (se_lib E) (se_call E) (remote_config E)) xs (sim_net w, []) = (r, x)"
    by (auto simp: remote_get on_net_hushed LocalGnmiSink_def split: prod.splits)
  with 1 show ?case
    using local_sink.get_masks [of "se_lib E" "se_call E" "remote_config E" xs _ r x p]
    by (simp add: is_sensitive_path_default_def)
qed

interpretation sim_sink: masking_sink "sim_sink E" is_sensitive_path_default for E
  unfolding sim_sink_def using mem_sink.masking_sink_axioms remote_sink.masking_sink_axioms by auto

lemma now_s_sel [simp]:
  "sim_sent (snd (now_s clk w)) = sim_sent w" "sim_tree (snd (now_s clk w)) = sim_tree w"
  "sim_net (snd (now_s clk w)) = sim_net w" "sim_sessions (snd (now_s clk w)) = sim_sessions w"
  "sim_enabled (snd (now_s clk w)) = sim_enabled w" "sim_handled (snd (now_s clk w)) = sim_handled w"
  "sim_from (snd (now_s clk w)) = sim_from w"
  by (simp_all add: now_s_def)

lemma sim_auth_frame:
  "sim_sent (snd (sim_auth S clk s w)) = sim_sent w"
  "sim_tree (snd (sim_auth S clk s w)) = sim_tree w"
  by (simp_all add: sim_auth_def now_s_def split: prod.split)

lemma sim_sink_quiet:
  "sink_get (sim_sink E) xs w = (r, w') \<Longrightarrow> sim_sent w' = sim_sent w"
  "sink_set (sim_sink E) us w = (r, w') \<Longrightarrow> sim_sent w' = sim_sent w"
  by (auto simp: sim_sink_def MemGnmiSink_def MemGnmiSink_get_def MemGnmiSink_set_def
      dest!: remote_sink_only_net split: if_splits)

interpretation sim_bridge: bridge_contract "sim_bridge E" sim_sent for E
proof (unfold_locales, goal_cases)
  case (6 f s t w reply w')
  then show ?case
    by (auto simp: sim_bridge_def sim_fallback_def now_s_def Let_def split: if_splits prod.splits)
qed (auto simp: sim_bridge_def ConsoleTransport_def gate_def sim_allow_def after_auth_def
    sim_auth_frame sim_sink_quiet)

subsection \<open>Conversations\<close>

text \<open>A line the loop hands to the bridge as it is.\<close>

definition sms_line :: "string \<Rightarrow> bool" where
  "sms_line l \<longleftrightarrow> l \<noteq> [] \<and> hd l \<noteq> CHR ''/'' \<and> last l \<noteq> creturn \<and> l \<notin> {''quit'', ''exit'', ''q''}"

text \<open>The state the bridge is entered with: the echoed line printed and one reading of the clock.\<close>

definition entered :: "string \<Rightarrow> ('ss, 'n) Sim \<Rightarrow> ('ss, 'n) Sim" where
  "entered l w =
     (cout (''  '' @ [CHR 0xE2, CHR 0x86, CHR 0x92] @ '' SMS from '' @ sim_from w @ '': '' @ l @ [newline]) w)
       \<lparr>sim_ds := (sim_ds (cout (''  '' @ [CHR 0xE2, CHR 0x86, CHR 0x92] @ '' SMS from '' @ sim_from w @ '': '' @ l @ [newline]) w))
         \<lparr>sd_reads := sd_reads (sim_ds w) + 1\<rparr>\<rparr>"

definition sim_inbound :: "('ss, 'c, 'n, 'p, 'v, 'b) SimEnv \<Rightarrow> string \<Rightarrow> ('ss, 'n) Sim \<Rightarrow> InboundSms" where
  "sim_inbound E l w = \<lparr>sms_sender = sim_from w, sms_text = l,
     sms_ts = to_string (uint (se_clk E (sd_reads (sim_ds w))))\<rparr>"

lemma entered_sel [simp]:
  "sim_sent (entered l w) = sim_sent w" "sim_tree (entered l w) = sim_tree w"
  "sim_net (entered l w) = sim_net w" "sim_sessions (entered l w) = sim_sessions w"
  "sim_enabled (entered l w) = sim_enabled w" "sim_handled (entered l w) = sim_handled w"
  "sim_from (entered l w) = sim_from w"
  by (simp_all add: entered_def)

lemma sim_inbound_sel [simp]: "sms_sender (sim_inbound E l w) = sim_from w" "sms_text (sim_inbound E l w) = l"
  by (simp_all add: sim_inbound_def)

lemma sim_sms_eq:
  "sim_sms E l w =
     (let w' = Bridge_on_sms (sim_bridge E) (sim_inbound E l w) (entered l w)
      in if length (sim_sent w') = length (sim_sent w) then cout no_reply_text w' else w')"
  by (simp add: sim_sms_def now_s_def entered_def sim_inbound_def Let_def)

lemma sim_line_sms: "sms_line l \<Longrightarrow> sim_line E l w = Some (sim_sms E l w)"
  by (auto simp: sim_line_def chomp_def sms_line_def Let_def)

lemma sim_slash_sent: "sim_slash E l w = Some w' \<Longrightarrow> sim_sent w' = sim_sent w"
  by (auto simp: sim_slash_def sim_allow_csv_def sim_show_tree_def Let_def sim_sink_quiet
      split: if_splits prod.splits)

lemma sim_sms_sent:
  "sim_sent (sim_sms E l w) = sim_sent (Bridge_on_sms (sim_bridge E) (sim_inbound E l w) (entered l w))"
  by (simp add: sim_sms_eq Let_def)

lemma sim_line_sent:
  assumes "sim_line E l w = Some w'" "sim_sent w' \<noteq> sim_sent w"
  obtains l' where "w' = sim_sms E l' w"
  using assms by (auto simp: sim_line_def Let_def split: if_splits dest: sim_slash_sent)

text \<open>
  The simulator answers a line with at most one SMS: whatever the engine and the gNMI backend
  (in memory or remote) do, a line either sends nothing or sends one non-empty SMS to the current
  sender, and it sends nothing while the service is disabled or the sender is not on the allowlist.
\<close>

theorem sim_at_most_one_reply:
  assumes "sim_line E l w = Some w'"
  shows "sim_sent w' = sim_sent w \<or>
    (sim_enabled w \<and> session_sender_allowed (se_smsctl E) (sim_from w) (sim_sessions w) \<and>
     (\<exists>reply. reply \<noteq> [] \<and> sim_sent w' = sim_sent w @ [(sim_from w, reply)]))"
proof (cases "sim_sent w' = sim_sent w")
  case False
  with assms obtain l' where w': "w' = sim_sms E l' w" by (rule sim_line_sent)
  let ?b = "Bridge_on_sms (sim_bridge E) (sim_inbound E l' w) (entered l' w)"
  have s: "sim_sent w' = sim_sent ?b" using w' by (simp add: sim_sms_sent)
  with False have ne: "sim_sent ?b \<noteq> sim_sent (entered l' w)" by simp
  then have "fst (gate (sim_bridge E) (sms_sender (sim_inbound E l' w)) (entered l' w))"
    using sim_bridge.dropped_in_silence by blast
  then have "sim_enabled w \<and> session_sender_allowed (se_smsctl E) (sim_from w) (sim_sessions w)"
    by (auto simp: gate_def sim_bridge_def sim_allow_def)
  with ne s show ?thesis
    using sim_bridge.at_most_one_reply [of E "sim_inbound E l' w" "entered l' w"] by auto
qed simp

text \<open>An environment without a network, for the in-memory backend.\<close>

definition demo_env :: "(unit, unit, unit, string, string, wire) SimEnv" where
  "demo_env = \<lparr>se_smsctl = demo_smsctl, se_clk = (\<lambda>_. 0), se_lib = plain_lib,
     se_call = (\<lambda>_ _ _ _ n. (\<lparr>rr_status = 14, rr_message = [], rr_body = WEmpty\<rparr>, n)),
     se_host = [], se_port = 0\<rparr>"

theorem sim_at_most_one_reply_witness:
  "let w = sim_init () (); w' = the (sim_line demo_env ''IOT GNMI GET /x'' w) in
   sim_sent w' = sim_sent w \<or>
    (sim_enabled w \<and> session_sender_allowed (se_smsctl demo_env) (sim_from w) (sim_sessions w) \<and>
     (\<exists>reply. reply \<noteq> [] \<and> sim_sent w' = sim_sent w @ [(sim_from w, reply)]))"
  unfolding Let_def
  by (rule sim_at_most_one_reply [where l = "''IOT GNMI GET /x''"])
    (simp add: sim_line_sms sms_line_def)

lemma sim_gnmi_sms:
  assumes "sim_enabled w" "session_sender_allowed (se_smsctl E) (sms_sender inb) (sim_sessions w)"
    and "parse_gnmi (tokenize (se_smsctl E) (sms_text inb)) = g" "cmd_kind g \<noteq> NotGnmi"
  shows "Bridge_on_sms (sim_bridge E) inb w =
    (let (reply, w2) = GnmiExecutor_handle (br_gex (sim_bridge E)) g (sms_sender inb) w
     in snd (tx_send ConsoleTransport (sms_sender inb) reply w2))"
  using assms handle_empty_iff [of "br_gex (sim_bridge E)" g "sms_sender inb" w]
  by (auto simp: on_sms_gate_route gate_def route_def sim_bridge_def sim_allow_def send_unless_empty_def
      split: prod.split)

definition admin_session :: "('ss, 'c, SimDs) smsctl \<Rightarrow> ('ss, 'n) Sim \<Rightarrow> bool" where
  "admin_session S w \<longleftrightarrow> sim_enabled w \<and> session_sender_allowed S (sim_from w) (sim_sessions w)
     \<and> (\<exists>a. acc_access a = ''Admin'' \<and>
          (\<forall>n. session S (sim_from w) n (sim_sessions w) = (Some a, sim_sessions w)))"

text \<open>Two states that agree on everything a gNMI command of an administrator depends on.\<close>

definition same_desk :: "('ss, 'n) Sim \<Rightarrow> ('ss, 'n) Sim \<Rightarrow> bool" where
  "same_desk w w' \<longleftrightarrow> sim_enabled w' = sim_enabled w \<and> sim_from w' = sim_from w
     \<and> sim_sessions w' = sim_sessions w"

lemma same_desk_admin: "same_desk w w' \<Longrightarrow> admin_session S w \<Longrightarrow> admin_session S w'"
  by (simp add: same_desk_def admin_session_def)

lemma sim_auth_admin:
  "admin_session S w \<Longrightarrow> sim_auth S clk (sim_from w) w = (Admin, snd (now_s clk w))"
  by (auto simp: admin_session_def sim_auth_def now_s_def account_access_def)

lemma parse_set_tokens:
  "comma_free x \<Longrightarrow> comma_free v \<Longrightarrow> parse_gnmi [''IOT'', ''GNMI'', ''SET'', x, v] =
     empty_command\<lparr>cmd_kind := Set, cmd_updates := [(x, v)]\<rparr>"
  by (simp add: parse_gnmi_def ieq_iff csv_no_comma tolower_def char_of_def bit_0)

lemma parse_get_tokens:
  "comma_free x \<Longrightarrow> parse_gnmi [''IOT'', ''GNMI'', ''GET'', x] =
     empty_command\<lparr>cmd_kind := Get, cmd_xpaths := [x]\<rparr>"
  by (simp add: parse_gnmi_def ieq_iff csv_no_comma tolower_def char_of_def bit_0)

lemma to_string_1: "to_string 1 = ''1''"
  by (simp add: to_string_def show_nat.simps digit_char_def char_of_def bit_0)

lemma admin_entered: "admin_session S w \<Longrightarrow> admin_session S (entered l w)"
  by (rule same_desk_admin [of w]) (simp_all add: same_desk_def)

lemma sim_admin_sms:
  assumes "admin_session (se_smsctl E) w" "parse_gnmi (tokenize (se_smsctl E) l) = g" "cmd_kind g \<noteq> NotGnmi"
  shows "Bridge_on_sms (sim_bridge E) (sim_inbound E l w) (entered l w) =
    (let (reply, w2) = GnmiExecutor_handle (br_gex (sim_bridge E)) g (sim_from w) (entered l w)
     in snd (tx_send ConsoleTransport (sim_from w) reply w2))"
  by (subst sim_gnmi_sms [OF _ _ _ assms(3)]) (use assms in \<open>auto simp: admin_session_def\<close>)

lemma sim_auth_entered:
  "admin_session S w \<Longrightarrow> sim_auth S clk (sim_from w) (entered l w) = (Admin, snd (now_s clk (entered l w)))"
  using sim_auth_admin [OF admin_entered, of S w clk l] by simp

text \<open>The bridge ran a gNMI command that left the desk as it was and sent \<open>reply\<close>.\<close>

lemma sim_answered:
  assumes "admin_session (se_smsctl E) w" "sms_line l" "parse_gnmi (tokenize (se_smsctl E) l) = g"
    and "cmd_kind g \<noteq> NotGnmi" "same_desk w w2" "sim_sent w2 = sim_sent w"
    and "GnmiExecutor_handle (br_gex (sim_bridge E)) g (sim_from w) (entered l w) = (reply, w2)"
  obtains w' where "sim_line E l w = Some w'" "same_desk w w'" "sim_tree w' = sim_tree w2"
    "sim_sent w' = sim_sent w @ [(sim_from w, reply)]"
proof -
  have "Bridge_on_sms (sim_bridge E) (sim_inbound E l w) (entered l w)
      = snd (tx_send ConsoleTransport (sim_from w) reply w2)"
    using sim_admin_sms [OF assms(1,3,4)] assms(7) by simp
  then have "sim_sms E l w = snd (tx_send ConsoleTransport (sim_from w) reply w2)"
    using assms(6) by (simp add: sim_sms_eq ConsoleTransport_def)
  with assms that [of "sim_sms E l w"] show ?thesis
    by (simp add: sim_line_sms ConsoleTransport_def same_desk_def)
qed

lemma sim_set_sms:
  assumes "se_host E = []" "admin_session (se_smsctl E) w" "sms_line l"
    and "tokenize (se_smsctl E) l = [''IOT'', ''GNMI'', ''SET'', x, v]" "comma_free x" "comma_free v"
  obtains w' where "sim_line E l w = Some w'" "same_desk w w'" "sim_tree w' = smap_set x v (sim_tree w)"
    "sim_sent w' = sim_sent w @ [(sim_from w, ''OK GNMI SET 1 path(s) updated'')]"
proof -
  let ?g = "empty_command\<lparr>cmd_kind := Set, cmd_updates := [(x, v)]\<rparr>"
  let ?w = "(snd (now_s (se_clk E) (entered l w)))\<lparr>sim_tree := smap_set x v (sim_tree w)\<rparr>"
  have "GnmiExecutor_handle (br_gex (sim_bridge E)) ?g (sim_from w) (entered l w)
      = (''OK GNMI SET 1 path(s) updated'', ?w)"
    using assms(1,2)
    by (simp add: GnmiExecutor_handle_def sim_bridge_def sim_auth_entered sim_sink_def MemGnmiSink_def
        MemGnmiSink_set_def format_set_def clamp_sms_def kMaxReply_def to_string_1 now_s_def)
  moreover have "parse_gnmi (tokenize (se_smsctl E) l) = ?g" using assms by (simp add: parse_set_tokens)
  moreover have "same_desk w ?w" "sim_sent ?w = sim_sent w" by (simp_all add: same_desk_def)
  ultimately show ?thesis
    using sim_answered [OF assms(2,3), of ?g ?w] that by force
qed

lemma sim_get_sms:
  assumes "se_host E = []" "admin_session (se_smsctl E) w" "sms_line l"
    and "tokenize (se_smsctl E) l = [''IOT'', ''GNMI'', ''GET'', x]" "comma_free x"
    and "\<not> is_sensitive_path_default x" "smap_find (sim_tree w) x = Some v"
  obtains w' where "sim_line E l w = Some w'" "same_desk w w'" "sim_tree w' = sim_tree w"
    "sim_sent w' = sim_sent w @ [(sim_from w, clamp_reply (''OK GNMI GET '' @ x @ ''='' @ v))]"
proof -
  let ?g = "empty_command\<lparr>cmd_kind := Get, cmd_xpaths := [x]\<rparr>"
  let ?w = "snd (now_s (se_clk E) (entered l w))"
  have "GnmiExecutor_handle (br_gex (sim_bridge E)) ?g (sim_from w) (entered l w)
      = (clamp_reply (''OK GNMI GET '' @ x @ ''='' @ v), ?w)"
    using assms(1,2,6,7)
    by (simp add: GnmiExecutor_handle_def sim_bridge_def sim_auth_entered sim_sink_def MemGnmiSink_def
        MemGnmiSink_get_def mem_row_def format_get_def row_text_def now_s_def)
  moreover have "parse_gnmi (tokenize (se_smsctl E) l) = ?g" using assms by (simp add: parse_get_tokens)
  moreover have "same_desk w ?w" "sim_sent ?w = sim_sent w" "sim_tree ?w = sim_tree w"
    by (simp_all add: same_desk_def)
  ultimately show ?thesis
    using sim_answered [OF assms(2,3), of ?g ?w] that by force
qed

text \<open>
  A conversation, SMS to SMS: a logged-in administrator who texts a SET of a path and then a
  GET of it receives exactly two SMS, the acknowledgement of one path and the value written, for
  every tokenizer that delivers the five and four words, every path that is not sensitive and every
  value.
\<close>

theorem sms_set_then_get:
  assumes "se_host E = []" "admin_session (se_smsctl E) w" "sms_line l1" "sms_line l2"
    and "tokenize (se_smsctl E) l1 = [''IOT'', ''GNMI'', ''SET'', x, v]"
    and "tokenize (se_smsctl E) l2 = [''IOT'', ''GNMI'', ''GET'', x]"
    and "comma_free x" "comma_free v" and "\<not> is_sensitive_path_default x"
  shows "sim_sent (sim_repl E [l1, l2] w) = sim_sent w @
    [(sim_from w, ''OK GNMI SET 1 path(s) updated''),
     (sim_from w, clamp_reply (''OK GNMI GET '' @ x @ ''='' @ v))]"
proof -
  from assms(1-3,5,7,8) obtain w1 where w1: "sim_line E l1 w = Some w1" "same_desk w w1"
    "sim_tree w1 = smap_set x v (sim_tree w)"
    "sim_sent w1 = sim_sent w @ [(sim_from w, ''OK GNMI SET 1 path(s) updated'')]" by (rule sim_set_sms)
  let ?w = "cout ''> '' w1"
  from w1(2) have d: "same_desk w ?w" by (simp add: same_desk_def)
  from w1(3) have f: "smap_find (sim_tree ?w) x = Some v" by (simp add: smap_find_set)
  obtain w2 where w2: "sim_line E l2 ?w = Some w2"
    "sim_sent w2 = sim_sent ?w @ [(sim_from ?w, clamp_reply (''OK GNMI GET '' @ x @ ''='' @ v))]"
    by (rule sim_get_sms [OF assms(1) same_desk_admin [OF d assms(2)] assms(4,6,7,9) f])
  from w1 w2 d show ?thesis by (simp add: same_desk_def)
qed

theorem sms_set_then_get_witness:
  "sim_sent (sim_repl demo_env [''IOT GNMI SET /mtu 9000'', ''IOT GNMI GET /mtu''] (sim_init () ()))
   = [(''+15551230000'', ''OK GNMI SET 1 path(s) updated''), (''+15551230000'', ''OK GNMI GET /mtu=9000'')]"
proof -
  have "admin_session (se_smsctl demo_env) (sim_init () ())"
    by (simp add: admin_session_def demo_env_def demo_smsctl_def sim_init_def)
  moreover have "sms_line ''IOT GNMI SET /mtu 9000''" "sms_line ''IOT GNMI GET /mtu''"
    by (simp_all add: sms_line_def)
  moreover have "tokenize (se_smsctl demo_env) ''IOT GNMI SET /mtu 9000'' = [''IOT'', ''GNMI'', ''SET'', ''/mtu'', ''9000'']"
    "tokenize (se_smsctl demo_env) ''IOT GNMI GET /mtu'' = [''IOT'', ''GNMI'', ''GET'', ''/mtu'']"
    by (simp_all add: demo_env_def demo_smsctl_def csv_def)
  moreover have "\<not> is_sensitive_path_default ''/mtu''" by code_simp
  moreover have "se_host demo_env = []" by (simp add: demo_env_def)
  ultimately have "sim_sent (sim_repl demo_env
      [''IOT GNMI SET /mtu 9000'', ''IOT GNMI GET /mtu''] (sim_init () ())) = sim_sent (sim_init () () :: (unit, unit) Sim) @
    [(sim_from (sim_init () () :: (unit, unit) Sim), ''OK GNMI SET 1 path(s) updated''),
     (sim_from (sim_init () () :: (unit, unit) Sim), clamp_reply (''OK GNMI GET '' @ ''/mtu'' @ ''='' @ ''9000''))]"
    using sms_set_then_get [of demo_env "sim_init () ()" "''IOT GNMI SET /mtu 9000''" "''IOT GNMI GET /mtu''"
        "''/mtu''" "''9000''"] by (simp del: sim_repl.simps)
  then show ?thesis by (simp add: sim_init_def clamp_sms_def kMaxReply_def)
qed

end
