(* ===== verification/Sim_Wire.thy ===== *)
theory Sim_Wire
  imports Sim
begin

text \<open>
  The two gNMI backends of the simulator compared: the tree in memory, and the production backend
  over gRPC against the simulated server (\<open>sim/zt_sim.cpp\<close>, \<open>src/local_gnmi_sink.cpp\<close>,
  \<open>sim/zt_gnmi_simd.cpp\<close>).  A relation between the states of the two programs is kept by every
  line of a conversation on which the backends agree, so the two consoles show the same bytes; the
  requests on which they differ are characterised.
\<close>

subsection \<open>The server behind a console\<close>

text \<open>
  The RPC library runs the handler the server has registered for the method, with the status
  trailer only, and may write anything to the console meanwhile.
\<close>

definition served_console ::
  "('p, 'v, 'b) gnmi_lib \<Rightarrow> (nat \<Rightarrow> int) \<Rightarrow> (GnmiTree \<times> string, 'b) rpc \<Rightarrow> bool" where
  "served_console lib clk call \<longleftrightarrow>
     (\<forall>host port method h pb t. sim_conn_unary lib clk method = Some h \<longrightarrow>
        (\<exists>chat. call host port method pb (t, []) =
          (let ((status, body), t') = h pb t in
           (\<lparr>rr_status = status, rr_message = [], rr_body = body\<rparr>, (t', chat)))))"

definition quiet_call :: "(GnmiTree \<times> string, 'b) rpc \<Rightarrow> (GnmiTree, 'b) rpc" where
  "quiet_call call host port method pb t =
     (let (r, (t', chat)) = call host port method pb (t, []) in (r, t'))"

lemma served_quiet:
  assumes "served_console lib clk call"
  shows "served_by lib clk (quiet_call call)"
  unfolding served_by_def
proof (intro allI impI)
  fix host port meth h pb t
  assume "sim_conn_unary lib clk meth = Some h"
  with assms obtain chat where "call host port meth pb (t, []) =
      (let ((status, body), t') = h pb t in
       (\<lparr>rr_status = status, rr_message = [], rr_body = body\<rparr>, (t', chat)))"
    unfolding served_console_def by blast
  then show "quiet_call call host port meth pb t =
      (let ((status, body), t') = h pb t in (\<lparr>rr_status = status, rr_message = [], rr_body = body\<rparr>, t'))"
    by (simp add: quiet_call_def split: prod.split)
qed

lemma quiet_get:
  "map_prod id fst (LocalGnmiSink_get lib call cfg xs (t, [])) = LocalGnmiSink_get lib (quiet_call call) cfg xs t"
  by (auto simp: LocalGnmiSink_get_def quiet_call_def rpc_ok_def Let_def split: prod.splits option.splits)


lemma remote_get_quiet:
  "sink_get (remote_sink E) xs w =
     (let (r, t) = LocalGnmiSink_get (se_lib E) (quiet_call (se_call E)) (remote_config E) xs (sim_net w)
      in (r, w\<lparr>sim_net := t\<rparr>))"
  unfolding quiet_get [symmetric] by (simp add: remote_get on_net_hushed split: prod.split)


subsection \<open>Reading several leaves\<close>






subsection \<open>The two programs side by side\<close>

text \<open>
  The relation between the program with the tree in memory and the one with a remote server: the
  same console, sessions and log, and the server's tree holds what the tree in memory holds.
\<close>

definition wire_view :: "('ss, 'n) Sim \<Rightarrow> ('ss, GnmiTree) Sim \<Rightarrow> bool" where
  "wire_view w w' \<longleftrightarrow> sim_ds w' = sim_ds w \<and> sim_sessions w' = sim_sessions w
     \<and> sim_enabled w' = sim_enabled w \<and> sim_handled w' = sim_handled w \<and> sim_from w' = sim_from w
     \<and> sim_sent w' = sim_sent w \<and> smap_inv (sim_tree w) \<and> tree_map (sim_net w') = smap_find (sim_tree w)"

text \<open>A step that yields the same result on related states and keeps them related.\<close>

definition in_step :: "'a \<times> ('ss, 'n) Sim \<Rightarrow> 'a \<times> ('ss, GnmiTree) Sim \<Rightarrow> bool" where
  "in_step x y \<longleftrightarrow> fst y = fst x \<and> wire_view (snd x) (snd y)"

lemma in_step_I: "x = (a, w) \<Longrightarrow> y = (a, w') \<Longrightarrow> wire_view w w' \<Longrightarrow> in_step x y"
  by (simp add: in_step_def)


lemma now_s_view: "wire_view w w' \<Longrightarrow> in_step (now_s clk w) (now_s clk w')"
  by (simp add: wire_view_def in_step_def now_s_def)


lemma allow_view: "wire_view w w' \<Longrightarrow> in_step (sim_allow S s w) (sim_allow S s w')"
  by (simp add: wire_view_def in_step_def sim_allow_def)



text \<open>The same libraries without and with \<open>--gnmi=HOST:PORT\<close>, against a server that keeps its contract.\<close>

definition wire_setup ::
  "('ss, 'c, 'n, 'p, 'v, 'b) SimEnv \<Rightarrow> ('ss, 'c, GnmiTree, 'p, 'v, 'b) SimEnv \<Rightarrow> bool" where
  "wire_setup E E' \<longleftrightarrow> se_host E = [] \<and> se_host E' \<noteq> [] \<and> se_smsctl E' = se_smsctl E
     \<and> se_clk E' = se_clk E \<and> se_lib E' = se_lib E \<and> codec_ok (se_lib E)
     \<and> (\<exists>clk. served_console (se_lib E) clk (se_call E'))"
















text \<open>The demo environment on a loopback server whose client library prints a line per call.\<close>

definition chatty_env :: "(unit, unit, GnmiTree, string, string, wire) SimEnv" where
  "chatty_env = \<lparr>se_smsctl = demo_smsctl, se_clk = (\<lambda>_. 0), se_lib = plain_lib,
     se_call = (\<lambda>host port method pb (t, out).
       let (r, t') = loopback (\<lambda>_. 0) host port method pb t in (r, (t', out @ ''Fn:~evt_io:255 dtor''))),
     se_host = ''127.0.0.1'', se_port = 50051\<rparr>"

lemma demo_wire_setup: "wire_setup demo_env chatty_env"
proof -
  have "served_console plain_lib (\<lambda>_. 0) (se_call chatty_env)"
    by (auto simp: served_console_def chatty_env_def loopback_def split: prod.split)
  then show ?thesis by (auto simp: wire_setup_def demo_env_def chatty_env_def codec_ok_def)
qed


subsection \<open>Where the backends differ\<close>

text \<open>
  A path that selects nothing: the backend in memory reports success with the row marked
  \<open>not found\<close>, while over the wire the same GET fails with status 5 and no row, so the two answer a
  texted GET of the path by \<open>OK\<close> and by \<open>ERR\<close>.
\<close>

theorem missing_path_told_apart:
  assumes "wire_setup E E'" "\<not> is_sensitive_path_default x" "smap_find (sim_tree w) x = None"
    and "path_to_string (se_lib E) (parse_yang_path (se_lib E) x) = x" "GnmiTree_lookup (sim_net w') x = []"
  shows "format_get (fst (sink_get (sim_sink E) [x] w)) = clamp_reply (''OK GNMI GET '' @ x @ ''=<not found>'')
    \<and> sink_get (sim_sink E') [x] w' =
        (empty_result\<lparr>res_grpc_status := 5, res_grpc_message := []\<rparr>, w')"
proof -
  from assms(1) obtain clk where s: "served_by (se_lib E) clk (quiet_call (se_call E'))"
    by (auto simp: wire_setup_def dest: served_quiet)
  have sens: "\<not> is_sensitive_path x (deny_of (remote_config E'))"
    using assms(2) by (simp add: is_sensitive_path_default_def)
  have "LocalGnmiSink_get (se_lib E) (quiet_call (se_call E')) (remote_config E') [x] (sim_net w') =
      (empty_result\<lparr>res_grpc_status := 5, res_grpc_message := []\<rparr>, sim_net w')"
    using assms sens
    by (simp add: LocalGnmiSink_get_def served_get [OF s] handle_get_def wire_setup_def codec_ok_def
        rpc_ok_def empty_result_def)
  with assms show ?thesis
    by (simp add: wire_setup_def sim_sink_def remote_get_quiet MemGnmiSink_def MemGnmiSink_get_def
        mem_row_def format_get_def row_text_def)
qed

theorem missing_path_told_apart_witness:
  "format_get (fst (sink_get (sim_sink demo_env) [''/nope''] (sim_init () ())))
     = clamp_reply (''OK GNMI GET '' @ ''/nope'' @ ''=<not found>'')
    \<and> sink_get (sim_sink chatty_env) [''/nope''] (sim_init () empty_tree) =
        (empty_result\<lparr>res_grpc_status := 5, res_grpc_message := []\<rparr>, sim_init () empty_tree)"
  by (rule missing_path_told_apart [OF demo_wire_setup]) code_simp+

end
