(* ===== verification/Simd_Server.thy ===== *)
theory Simd_Server
  imports Gnmi_Simd
begin

text \<open>
  The simulated gNMI server as a process, \<open>sim/zt_gnmi_simd.cpp\<close>: the Lua seed (\<open>scalar_to_string\<close>,
  \<open>load_seed\<close>), the connections that feed socket bytes to their gRPC sessions, and \<open>main\<close>.

  The Lua reader (\<open>lua_file\<close>) and the gRPC session (\<open>grpc_session\<close>) are grace-server's and are
  parameters: the loaded file is the table a path gives, if any, with its members in the order an
  iteration visits them; \<open>recv\<close> takes the handlers a connection has registered.  A Lua number is a
  finite double \<open>m / 2\<^sup>e\<close>, an infinity or a NaN; converting a double outside the range of \<open>long long\<close>
  gives the minimum, as the x86-64 instruction does.
\<close>

datatype lua_double = Fin int nat | Infinity bool | NaN bool

datatype lua_value =
    LString string
  | LBool bool
  | LInt32 "32 word"
  | LUInt32 "32 word"
  | LDouble lua_double
  | LNil

text \<open>An entry of a table: a scalar, or a (possibly null) pointer to a table.\<close>

datatype lua_entry = Scalar lua_value | Table "(string \<times> lua_entry) list option"

type_synonym lua_table = "(string \<times> lua_entry) list"

subsection \<open>Numbers as text\<close>

text \<open>The nearest integer to \<open>a / b\<close>, a tie going to the even one.\<close>

definition round_half_even :: "nat \<Rightarrow> nat \<Rightarrow> nat" where
  "round_half_even a b =
     (let q = a div b; r = a mod b in
      if 2 * r < b then q else if b < 2 * r then q + 1 else if even q then q else q + 1)"

fun zero_pad :: "nat \<Rightarrow> string \<Rightarrow> string" where
  "zero_pad n s = replicate (n - length s) (CHR ''0'') @ s"

text \<open>\<open>std::to_string(double)\<close>, which prints \<open>%f\<close>: six decimals, correctly rounded.\<close>

fun double_to_string :: "lua_double \<Rightarrow> string" where
  "double_to_string (Fin m e) =
     (let n = round_half_even (nat \<bar>m\<bar> * 10 ^ 6) (2 ^ e) in
      (if m < 0 then ''-'' else []) @ show_nat (n div 10 ^ 6) @ ''.'' @ zero_pad 6 (show_nat (n mod 10 ^ 6)))"
| "double_to_string (Infinity neg) = (if neg then ''-inf'' else ''inf'')"
| "double_to_string (NaN neg) = (if neg then ''-nan'' else ''nan'')"

text \<open>\<open>static_cast<long long>(d)\<close>\<close>

fun double_to_ll :: "lua_double \<Rightarrow> int" where
  "double_to_ll (Fin m e) =
     (let t = sgn m * (\<bar>m\<bar> div 2 ^ e) in if in_signed_range 64 t then t else - (2 ^ 63))"
| "double_to_ll _ = - (2 ^ 63)"

text \<open>\<open>d == static_cast<double>(n)\<close>\<close>

fun double_eq_int :: "lua_double \<Rightarrow> int \<Rightarrow> bool" where
  "double_eq_int (Fin m e) n = (m = n * 2 ^ e)"
| "double_eq_int _ n = False"

fun scalar_to_string :: "lua_value \<Rightarrow> string" where
  "scalar_to_string (LString s) = s"
| "scalar_to_string (LBool b) = (if b then ''true'' else ''false'')"
| "scalar_to_string (LInt32 i) = to_string (sint i)"
| "scalar_to_string (LUInt32 i) = to_string (uint i)"
| "scalar_to_string (LDouble d) =
     (if double_eq_int d (double_to_ll d) then to_string (double_to_ll d) else double_to_string d)"
| "scalar_to_string LNil = []"

subsection \<open>Loading the seed\<close>

definition seed_entry :: "string \<times> lua_entry \<Rightarrow> GnmiTree \<Rightarrow> GnmiTree" where
  "seed_entry = (\<lambda>(xpath, entry) tree.
     if xpath = [] \<or> hd xpath \<noteq> CHR ''/'' then tree
     else (case entry of Scalar val \<Rightarrow> GnmiTree_set tree xpath (scalar_to_string val) | Table _ \<Rightarrow> tree))"

text \<open>The result is \<open>true\<close> or the error text.\<close>

definition load_seed :: "(string \<Rightarrow> lua_table option) \<Rightarrow> string \<Rightarrow> GnmiTree \<Rightarrow> string option \<times> GnmiTree" where
  "load_seed commands path tree =
     (case commands path of
        None \<Rightarrow> (Some (''cannot load Lua seed: '' @ path), tree)
      | Some file_ \<Rightarrow>
          (case map_of file_ ''tree'' of
             None \<Rightarrow> (Some (''seed has no `tree` table (expected: return { tree = { ''
               @ [CHR 0xE2, CHR 0x80, CHR 0xA6] @ '' } })''), tree)
           | Some (Table (Some members)) \<Rightarrow> (None, for_each seed_entry members tree)
           | Some _ \<Rightarrow> (Some ''`tree` is not a table'', tree)))"

subsection \<open>Connections\<close>

text \<open>
  A gRPC session of the library: the state of a new one, and \<open>recv\<close> of some bytes with the handlers
  registered, which returns the number of bytes consumed and may run handlers on the tree.
\<close>

type_synonym 'b handlers = "string \<Rightarrow> ('b \<Rightarrow> (GnmiTree, 'b unary) eff) option"

record ('g, 'b) grpc_lib =
  grpc_new :: 'g
  grpc_recv :: "'b handlers \<Rightarrow> string \<Rightarrow> ('g \<times> GnmiTree, int) eff"

record 'g sim_conn =
  cn_peer :: string
  cn_grpc :: 'g

definition handle_read :: "('p, 'v, 'b) gnmi_lib \<Rightarrow> (nat \<Rightarrow> int) \<Rightarrow> ('g, 'b) grpc_lib \<Rightarrow> string \<Rightarrow> bool
    \<Rightarrow> ('g sim_conn \<times> GnmiTree, 32 word) eff" where
  "handle_read lib clk G data dry_run = (\<lambda>(c, t).
     if dry_run then (0, (c, t))
     else (let (consumed, (g, t')) = grpc_recv G (sim_conn_unary lib clk) data (cn_grpc c, t)
           in (word_of_int consumed, (c\<lparr>cn_grpc := g\<rparr>, t'))))"

text \<open>
  The process: the shared tree and the listener's connections.  The reactor delivers events in any
  order; an event on a channel reaches the connection of that channel.  A closed connection is
  erased through its parent, the listener.
\<close>

record 'g simd =
  sv_tree :: GnmiTree
  sv_conns :: "int \<rightharpoonup> 'g sim_conn"

inductive simd_event ::
  "('p, 'v, 'b) gnmi_lib \<Rightarrow> ('g, 'b) grpc_lib \<Rightarrow> 'g simd \<Rightarrow> ('g \<times> string) option \<Rightarrow> 'g simd \<Rightarrow> bool"
  for lib :: "('p, 'v, 'b) gnmi_lib" and G :: "('g, 'b) grpc_lib" where
  connect: "handle_connect ch \<lparr>cn_peer = peer, cn_grpc = grpc_new G\<rparr> (sv_conns s) = (r, conns) \<Longrightarrow>
    simd_event lib G s None (s\<lparr>sv_conns := conns\<rparr>)"
| read: "sv_conns s ch = Some c \<Longrightarrow> handle_read lib clk G data dry_run (c, sv_tree s) = (r, (c', t)) \<Longrightarrow>
    simd_event lib G s (if dry_run then None else Some (cn_grpc c, data)) (s\<lparr>sv_tree := t, sv_conns := (sv_conns s)(ch \<mapsto> c')\<rparr>)"
| close: "sv_conns s ch = Some c \<Longrightarrow> conn_handle_close True ch (sv_conns s) = (r, conns) \<Longrightarrow>
    simd_event lib G s None (s\<lparr>sv_conns := conns\<rparr>)"

inductive_cases simd_eventE: "simd_event lib G s l s'"

text \<open>
  A run of the process.  The label of an event is the session and the bytes that a read hands to
  \<open>recv\<close>, and nothing for the other events.
\<close>

inductive simd_run ::
  "('p, 'v, 'b) gnmi_lib \<Rightarrow> ('g, 'b) grpc_lib \<Rightarrow> 'g simd \<Rightarrow> ('g \<times> string) option list \<Rightarrow> 'g simd \<Rightarrow> bool"
  for lib :: "('p, 'v, 'b) gnmi_lib" and G :: "('g, 'b) grpc_lib" where
  stop: "simd_run lib G s [] s"
| go: "simd_event lib G s l s1 \<Longrightarrow> simd_run lib G s1 ls s' \<Longrightarrow> simd_run lib G s (l # ls) s'"

subsection \<open>The main program\<close>

text \<open>What \<open>main\<close> prints before the loop, and the state the loop starts in.\<close>

definition simd_logo :: string where
  "simd_logo = unlines
     [[],
      ''   _____               _____                _'',
      ''  |__  /___ _ __ ___  |_   _|__  _   _  ___| |__'',
      ''    / // _ '' @ [CHR 0x5C] @ '' '__/ _ '' @ [CHR 0x5C] @ ''   | |/ _ '' @ [CHR 0x5C]
        @ ''| | | |/ __| '_ '' @ [CHR 0x5C],
      ''   / /|  __/ | | (_) |  | | (_) | |_| | (__| | | |'',
      ''  /____'' @ [CHR 0x5C] @ ''___|_|  '' @ [CHR 0x5C] @ ''___/   |_|'' @ [CHR 0x5C] @ ''___/ ''
        @ [CHR 0x5C] @ ''__,_|'' @ [CHR 0x5C] @ ''___|_| |_|'',
      [],
      ''  gNMI server (simulated device) '' @ [CHR 0xE2, CHR 0x80, CHR 0x94] @ '' plaintext gRPC, no TLS'']"

definition simd_banner :: "SimdArgs \<Rightarrow> string option \<Rightarrow> GnmiTree \<Rightarrow> string" where
  "simd_banner a err t =
     (case err of None \<Rightarrow> [] | Some e \<Rightarrow> ''zt-gnmi-simd: '' @ e @ '' '' @ [CHR 0xE2, CHR 0x80, CHR 0x94]
        @ '' starting with an empty tree'' @ [newline])
     @ simd_logo
     @ ''  listening on '' @ sa_host a @ '':'' @ to_string (uint (sa_port a)) @ ''   seed='' @ sa_seed a
     @ ''   '' @ to_string (int (GnmiTree_size t)) @ '' leaf/leaves'' @ [newline]
     @ unlines (map (\<lambda>(k, v). ''    '' @ k @ '' = '' @ v) (m_kv t))
     @ ''  Set requires prefix.target=ADMIN. Waiting for clients'' @ [CHR 0xE2, CHR 0x80, CHR 0xA6, newline]"

definition simd_main :: "(string \<Rightarrow> lua_table option) \<Rightarrow> string list \<Rightarrow> (string \<times> 'g simd) main_start" where
  "simd_main commands args =
     (case simd_args args default_simd_args of
        Exit n \<Rightarrow> Exit n
      | Uncaught \<Rightarrow> Uncaught
      | Run a \<Rightarrow>
          (let (err, t) = load_seed commands (sa_seed a) empty_tree
           in Run (simd_banner a err t, \<lparr>sv_tree = t, sv_conns = Map.empty\<rparr>)))"

subsection \<open>The seed\<close>

text \<open>The leaf an entry of the \<open>tree\<close> table stands for, if it stands for one.\<close>

definition seed_leaf :: "string \<times> lua_entry \<Rightarrow> (string \<times> string) option" where
  "seed_leaf = (\<lambda>(xpath, entry).
     if prefix ''/'' xpath then (case entry of Scalar v \<Rightarrow> Some (xpath, scalar_to_string v) | Table _ \<Rightarrow> None)
     else None)"

lemma seed_entry_leaf:
  "seed_entry xe t = (case seed_leaf xe of None \<Rightarrow> t | Some (k, v) \<Rightarrow> GnmiTree_set t k v)"
  by (cases xe; cases "fst xe") (auto simp: seed_entry_def seed_leaf_def split: lua_entry.split)

lemma seed_entries_map:
  "tree_map (for_each seed_entry xes t) = tree_map t ++ map_of (rev (List.map_filter seed_leaf xes))"
proof (induction xes arbitrary: t)
  case (Cons xe xes)
  have "tree_map (seed_entry xe t) = tree_map t ++ map_of (case seed_leaf xe of None \<Rightarrow> [] | Some kv \<Rightarrow> [kv])"
    by (auto simp: seed_entry_leaf split: option.split)
  then show ?case
    by (cases "seed_leaf xe") (simp_all add: Cons.IH List.map_filter_simps fun_upd_def)
qed (simp add: List.map_filter_simps)

lemma load_seed_map:
  assumes "commands path = Some tbl" "map_of tbl ''tree'' = Some (Table (Some members))"
  shows "fst (load_seed commands path t) = None
    \<and> tree_map (snd (load_seed commands path t)) = tree_map t ++ map_of (rev (List.map_filter seed_leaf members))"
  using assms by (simp add: load_seed_def seed_entries_map)

lemma load_seed_fails: "fst (load_seed commands path t) = Some e \<Longrightarrow> snd (load_seed commands path t) = t"
  by (auto simp: load_seed_def split: option.splits lua_entry.splits)

text \<open>The leaves of the seed file, if it loads and holds a table \<open>tree\<close>; a later entry of a path wins.\<close>

definition seed_map :: "(string \<Rightarrow> lua_table option) \<Rightarrow> string \<Rightarrow> (string \<rightharpoonup> string)" where
  "seed_map commands path =
     (case Option.bind (commands path) (\<lambda>tbl. map_of tbl ''tree'') of
        Some (Table (Some members)) \<Rightarrow> map_of (rev (List.map_filter seed_leaf members))
      | _ \<Rightarrow> Map.empty)"

lemma seed_map_loaded: "tree_map (snd (load_seed commands path empty_tree)) = seed_map commands path"
  by (auto simp: load_seed_def seed_map_def seed_entries_map split: option.splits lua_entry.splits)

lemma seed_entry_inv: "tree_inv t \<Longrightarrow> tree_inv (seed_entry xe t)"
  by (auto simp: seed_entry_leaf split: option.split)

lemma load_seed_inv: "tree_inv t \<Longrightarrow> tree_inv (snd (load_seed commands path t))"
  by (auto simp: load_seed_def intro!: for_each_tree_inv seed_entry_inv split: option.split lua_entry.split)

subsection \<open>The tree of a running server\<close>

text \<open>
  What is assumed of the gRPC session: \<open>recv\<close> decodes the bytes of a connection into requests (\<open>calls\<close>
  says which, for a session and the bytes it is given) and reaches the tree by running the handler
  registered for the method of each, in order, and in no other way.
\<close>

definition dispatch :: "'b handlers \<Rightarrow> string \<times> 'b \<Rightarrow> GnmiTree \<Rightarrow> GnmiTree" where
  "dispatch h = (\<lambda>(method, pb) t. case h method of None \<Rightarrow> t | Some f \<Rightarrow> snd (f pb t))"

definition recv_dispatches :: "('g, 'b) grpc_lib \<Rightarrow> ('g \<Rightarrow> string \<Rightarrow> (string \<times> 'b) list) \<Rightarrow> bool" where
  "recv_dispatches G calls \<longleftrightarrow>
     (\<forall>h data g t. snd (snd (grpc_recv G h data (g, t))) = for_each (dispatch h) (calls g data) t)"

text \<open>What a request does to the map from paths to values: only a Set by an administrator does anything.\<close>

definition request_effect ::
  "('p, 'v, 'b) gnmi_lib \<Rightarrow> string \<times> 'b \<Rightarrow> (string \<rightharpoonup> string) \<Rightarrow> (string \<rightharpoonup> string)" where
  "request_effect lib = (\<lambda>(method, pb) m.
     if method \<noteq> ''/gnmi.gNMI/Set'' then m
     else (case set_req_parse lib pb of
        None \<Rightarrow> m
      | Some req \<Rightarrow>
          if sq_target req \<noteq> ''ADMIN'' then m
          else for_each map_delete (map (path_to_string lib) (sq_delete req))
            (for_each map_replace (map (decoded lib) (sq_replace req))
              (for_each map_update (map (decoded lib) (sq_update req)) m))))"

definition requests :: "('g \<Rightarrow> string \<Rightarrow> (string \<times> 'b) list) \<Rightarrow> ('g \<times> string) option list \<Rightarrow> (string \<times> 'b) list" where
  "requests calls ls = concat (map (\<lambda>l. case l of None \<Rightarrow> [] | Some (g, data) \<Rightarrow> calls g data) ls)"

lemma handle_set_effect:
  "tree_map (snd (handle_set lib clk pb t)) = request_effect lib (''/gnmi.gNMI/Set'', pb) (tree_map t)"
  by (simp add: handle_set_def request_effect_def deletes_refine replaces_refine updates_refine Let_def split: option.split)

lemma handle_set_inv: "tree_inv t \<Longrightarrow> tree_inv (snd (handle_set lib clk pb t))"
  by (auto simp: handle_set_def Let_def
      intro!: for_each_tree_inv apply_update_inv apply_replace_inv apply_delete_inv split: option.split)

lemma dispatch_effect:
  "tree_map (dispatch (sim_conn_unary lib clk) mp t) = request_effect lib mp (tree_map t)
   \<and> (tree_inv t \<longrightarrow> tree_inv (dispatch (sim_conn_unary lib clk) mp t))"
  by (cases mp) (auto simp: dispatch_def sim_conn_unary_def handle_set_effect handle_set_inv request_effect_def)

lemma dispatches_effect:
  "tree_map (for_each (dispatch (sim_conn_unary lib clk)) mps t) = for_each (request_effect lib) mps (tree_map t)
   \<and> (tree_inv t \<longrightarrow> tree_inv (for_each (dispatch (sim_conn_unary lib clk)) mps t))"
  by (induction mps arbitrary: t) (simp_all add: dispatch_effect)

lemma event_effect:
  assumes "simd_event lib G s l s'" "recv_dispatches G calls"
  shows "tree_map (sv_tree s') = for_each (request_effect lib) (requests calls [l]) (tree_map (sv_tree s))
    \<and> (tree_inv (sv_tree s) \<longrightarrow> tree_inv (sv_tree s'))"
  using assms(1)
proof cases
  case (read ch c clk data dry r c' t)
  show ?thesis
  proof (cases dry)
    case False
    then have "t = snd (snd (grpc_recv G (sim_conn_unary lib clk) data (cn_grpc c, sv_tree s)))"
      using read by (auto simp: handle_read_def split: prod.splits)
    with False assms(2) read dispatches_effect [of lib clk "calls (cn_grpc c) data" "sv_tree s"] show ?thesis
      by (simp add: recv_dispatches_def requests_def)
  qed (use read in \<open>simp add: handle_read_def requests_def\<close>)
qed (simp_all add: requests_def)

lemma run_effect:
  assumes "simd_run lib G s ls s'" "recv_dispatches G calls"
  shows "tree_map (sv_tree s') = for_each (request_effect lib) (requests calls ls) (tree_map (sv_tree s))
    \<and> (tree_inv (sv_tree s) \<longrightarrow> tree_inv (sv_tree s'))"
  using assms(1)
proof (induction rule: simd_run.induct)
  case (go s l s1 ls s')
  have "requests calls (l # ls) = requests calls [l] @ requests calls ls" by (simp add: requests_def)
  with go.IH event_effect [OF go.hyps(1) assms(2)] show ?case by (simp add: for_each_append)
qed (simp add: requests_def)

text \<open>
  C21.  The server's tree is its history: started on any seed file and run through any sequence of
  connections, reads and closes of any number of clients, the tree holds, as a map from paths to
  values, the scalar entries of the seed with an absolute path, changed by exactly the requests that
  its connections have received, in the order they were received: a Set with the role ADMIN deletes,
  replaces and updates as its fields say, and every other request (a Get, a Set with another role, a
  malformed one, one for another method) changes nothing.  The tree keeps its keys in order and
  without duplicates throughout.  Sessions and codecs are arbitrary.
\<close>

theorem simd_tree_is_history:
  assumes "recv_dispatches G calls" "simd_args args default_simd_args = Run a"
    and "simd_main commands args = Run (out, s)" "simd_run lib G s ls s'"
  shows "tree_map (sv_tree s') = for_each (request_effect lib) (requests calls ls) (seed_map commands (sa_seed a))
    \<and> tree_inv (sv_tree s')"
proof -
  have "sv_tree s = snd (load_seed commands (sa_seed a) empty_tree)"
    using assms(2,3) by (auto simp: simd_main_def split: prod.splits)
  with run_effect [OF assms(4,1)] show ?thesis by (simp add: seed_map_loaded load_seed_inv)
qed

text \<open>A session that takes any bytes as one SET of \<open>/mtu\<close>.\<close>

definition one_call :: "unit \<Rightarrow> string \<Rightarrow> (string \<times> wire) list" where
  "one_call g data = [(''/gnmi.gNMI/Set'', WSetReq \<lparr>sq_target = ''ADMIN'',
     sq_update = [\<lparr>up_path = ''/mtu'', up_val = data\<rparr>], sq_replace = [], sq_delete = []\<rparr>)]"

definition one_shot :: "(unit, wire) grpc_lib" where
  "one_shot = \<lparr>grpc_new = (), grpc_recv = (\<lambda>h data (g, t). (int (length data), (g, for_each (dispatch h) (one_call g data) t)))\<rparr>"

definition demo_seed :: "string \<Rightarrow> lua_table option" where
  "demo_seed path = (if path = ''s.lua''
     then Some [(''tree'', Table (Some [(''/b'', Scalar (LBool True)), (''/a'', Scalar (LString ''up'')),
                                          (''note'', Scalar (LString ''x''))]))]
     else None)"

theorem simd_tree_is_history_witness:
  "\<exists>out (s :: unit simd) s'. simd_main demo_seed [''--seed=s.lua''] = Run (out, s)
     \<and> simd_run plain_lib one_shot s [None, Some ((), ''9'')] s'
     \<and> tree_map (sv_tree s') = [''/b'' \<mapsto> ''true'', ''/a'' \<mapsto> ''up'', ''/mtu'' \<mapsto> ''9'']"
proof -
  let ?t = "\<lparr>m_kv = [(''/a'', ''up''), (''/b'', ''true'')]\<rparr>"
  let ?t' = "\<lparr>m_kv = [(''/a'', ''up''), (''/b'', ''true''), (''/mtu'', ''9'')]\<rparr>"
  let ?c = "\<lparr>cn_peer = ''p'', cn_grpc = ()\<rparr> :: unit sim_conn"
  let ?s = "\<lparr>sv_tree = ?t, sv_conns = Map.empty\<rparr> :: unit simd"
  let ?s1 = "\<lparr>sv_tree = ?t, sv_conns = [7 \<mapsto> ?c]\<rparr> :: unit simd"
  let ?s2 = "\<lparr>sv_tree = ?t', sv_conns = [7 \<mapsto> ?c]\<rparr> :: unit simd"
  let ?a = "default_simd_args\<lparr>sa_seed := ''s.lua''\<rparr>"
  have a: "simd_args [''--seed=s.lua''] default_simd_args = Run ?a" by (simp add: default_simd_args_def)
  have "load_seed demo_seed ''s.lua'' empty_tree = (None, ?t)" by code_simp
  with a have m: "simd_main demo_seed [''--seed=s.lua''] = Run (simd_banner ?a None ?t, ?s)"
    by (simp add: simd_main_def del: simd_args.simps)
  have "simd_event plain_lib one_shot ?s None (?s\<lparr>sv_conns := [7 \<mapsto> ?c]\<rparr>)"
    by (rule connect [where ch = 7 and peer = "''p''"]) (simp add: handle_connect_def one_shot_def)
  moreover have "grpc_recv one_shot (sim_conn_unary plain_lib (\<lambda>_. 0)) ''9'' ((), ?t) = (1, ((), ?t'))"
    by code_simp
  then have r: "handle_read plain_lib (\<lambda>_. 0) one_shot ''9'' False (?c, ?t) = (1, (?c, ?t'))"
    by (simp add: handle_read_def)
  have "simd_event plain_lib one_shot ?s1 (if False then None else Some (cn_grpc ?c, ''9''))
      (?s1\<lparr>sv_tree := ?t', sv_conns := (sv_conns ?s1)(7 \<mapsto> ?c)\<rparr>)"
    by (rule read [where c = ?c]) (use r in simp_all)
  ultimately have run: "simd_run plain_lib one_shot ?s [None, Some ((), ''9'')] ?s2"
    by (intro simd_run.go [of _ _ _ _ ?s1] simd_run.go [of _ _ _ _ ?s2] simd_run.stop) simp_all
  have "recv_dispatches one_shot one_call" by (simp add: recv_dispatches_def one_shot_def)
  from simd_tree_is_history [OF this a m run]
  have "tree_map (sv_tree ?s2) = for_each (request_effect plain_lib) (requests one_call [None, Some ((), ''9'')]) (seed_map demo_seed ''s.lua'')"
    by simp
  also have "\<dots> = [''/b'' \<mapsto> ''true'', ''/a'' \<mapsto> ''up'', ''/mtu'' \<mapsto> ''9'']"
    by (simp add: requests_def one_call_def request_effect_def seed_map_def demo_seed_def seed_leaf_def map_update_def
        decoded_def List.map_filter_simps fun_upd_twist)
  finally show ?thesis using m run by blast
qed

subsection \<open>Numbers of the seed\<close>

lemma round_half_even_error:
  assumes "0 < b"
  shows "2 * \<bar>int (round_half_even a b) * int b - int a\<bar> \<le> int b"
proof -
  have "int a = int (a div b) * int b + int (a mod b)" by (metis div_mult_mod_eq of_nat_add of_nat_mult)
  moreover have "a mod b < b" using assms by simp
  ultimately show ?thesis
    by (auto simp: round_half_even_def Let_def algebra_simps abs_if)
qed

lemma digits_val_zeros: "digits_val (replicate n (CHR ''0'') @ s) = digits_val s"
proof -
  have "digits_val (ds @ s) = digits_val s" if "digits_val ds = 0" for ds
    using that by (simp add: digits_val_def)
  moreover have "digits_val (replicate n (CHR ''0'')) = 0"
    by (induction n) (simp_all add: digits_val_def digit_val_def)
  ultimately show ?thesis by blast
qed

text \<open>
  A number of the seed: an integral number in the range of \<open>long long\<close> is shown as that
  integer; any other finite number is shown with its sign, an integer part and exactly six decimals,
  and the number shown is off by at most half a millionth.
\<close>

theorem seed_number_text:
  "(\<exists>n. in_signed_range 64 n \<and> m = n * 2 ^ e \<and> scalar_to_string (LDouble (Fin m e)) = to_string n) \<or>
   (\<exists>ip fp. scalar_to_string (LDouble (Fin m e)) = (if m < 0 then ''-'' else []) @ ip @ ''.'' @ fp
      \<and> ip \<noteq> [] \<and> length fp = 6 \<and> (\<forall>c \<in> set (ip @ fp). is_digit c)
      \<and> 2 * \<bar>int (digits_val ip * 10 ^ 6 + digits_val fp) * 2 ^ e - \<bar>m\<bar> * 10 ^ 6\<bar> \<le> 2 ^ e)"
proof (cases "double_eq_int (Fin m e) (double_to_ll (Fin m e))")
  case True
  have "in_signed_range 64 (double_to_ll (Fin m e))" by (simp add: in_signed_range_def Let_def)
  with True show ?thesis by auto
next
  case False
  let ?n = "round_half_even (nat \<bar>m\<bar> * 10 ^ 6) (2 ^ e)"
  let ?ip = "show_nat (?n div 10 ^ 6)" and ?fp = "zero_pad 6 (show_nat (?n mod 10 ^ 6))"
  have "length (show_nat (?n mod 10 ^ 6)) \<le> 6" by (rule length_show_nat) simp_all
  then have "length ?fp = 6" by simp
  moreover have "\<forall>c \<in> set (?ip @ ?fp). is_digit c"
    using show_nat_digits by (auto simp: is_digit_def)
  moreover have "digits_val ?ip * 10 ^ 6 + digits_val ?fp = ?n" by (simp add: digits_val_zeros)
  moreover have "2 * \<bar>int ?n * 2 ^ e - \<bar>m\<bar> * 10 ^ 6\<bar> \<le> 2 ^ e"
    using round_half_even_error [of "2 ^ e" "nat \<bar>m\<bar> * 10 ^ 6"] by simp
  moreover have "scalar_to_string (LDouble (Fin m e)) = (if m < 0 then ''-'' else []) @ ?ip @ ''.'' @ ?fp"
    using False by (simp add: Let_def del: zero_pad.simps)
  ultimately show ?thesis by (metis show_nat_nonempty)
qed

end
