(* ===== verification/Tunnel_Log.thy ===== *)
theory Tunnel_Log
  imports Cpp_Num
begin

text \<open>
  The tunnel's log, \<open>grpc-tunnel/src/log.h\<close>: the time stamp, and the macro \<open>LOG\<close>, which any thread may
  use at any moment and which writes a line to the standard error stream in three calls under one
  mutex.  The clock is a parameter: \<open>clk k\<close> is what \<open>clock_gettime\<close> and \<open>localtime_r\<close> give at the \<open>k\<close>-th
  reading.
\<close>

record log_time =
  tm_hour :: nat
  tm_min :: nat
  tm_sec :: nat
  tv_nsec :: nat

text \<open>\<open>printf\<close> of a number to a width, with zeros in front.\<close>

definition zero_padded :: "nat \<Rightarrow> nat \<Rightarrow> string" where
  "zero_padded w n = (let ds = show_nat n in replicate (w - length ds) (CHR ''0'') @ ds)"

text \<open>\<open>snprintf\<close> keeps what fits into the buffer with the final null byte.\<close>

definition fits :: "nat \<Rightarrow> string \<Rightarrow> string" where
  "fits cap s = take (cap - 1) s"

text \<open>\<open>strftime\<close> with \<open>%H:%M:%S\<close> writes nothing and returns 0 when the text does not fit.\<close>

definition strftime_HMS :: "nat \<Rightarrow> log_time \<Rightarrow> string" where
  "strftime_HMS cap t =
     (let s = zero_padded 2 (tm_hour t) @ '':'' @ zero_padded 2 (tm_min t) @ '':''
              @ zero_padded 2 (tm_sec t)
      in if length s < cap then s else [])"

definition Now :: "log_time \<Rightarrow> string" where
  "Now t =
     (let s = strftime_HMS 32 t in s @ fits (32 - length s) (''.'' @ zero_padded 3 (tv_nsec t div 1000000)))"

text \<open>The three pieces of a line.\<close>

definition log_pieces :: "string \<Rightarrow> log_time \<Rightarrow> string \<Rightarrow> string list" where
  "log_pieces tag t msg = [Now t @ '' ['' @ tag @ ''] '', msg, [newline]]"

subsection \<open>Threads that log\<close>

text \<open>
  \<open>lg_todo t\<close> are the messages thread \<open>t\<close> has yet to log, \<open>lg_owner\<close> the holder of the mutex with the
  pieces it has still to write, \<open>lg_err\<close> the stream, and \<open>lg_lines\<close> the calls in the order in which they
  took the mutex.  The clock is read with the mutex held.
\<close>

record Log =
  lg_todo :: "nat \<Rightarrow> string list"
  lg_owner :: "(nat \<times> string list) option"
  lg_err :: string
  lg_lines :: "(nat \<times> string) list"

inductive log_step :: "string \<Rightarrow> (nat \<Rightarrow> log_time) \<Rightarrow> Log \<Rightarrow> Log \<Rightarrow> bool" for tag clk where
  l_lock: "lg_owner s = None \<Longrightarrow> lg_todo s t = m # ms \<Longrightarrow>
    log_step tag clk s (s\<lparr>lg_todo := (lg_todo s)(t := ms), lg_lines := lg_lines s @ [(t, m)],
      lg_owner := Some (t, log_pieces tag (clk (length (lg_lines s))) m)\<rparr>)"
| l_write: "lg_owner s = Some (t, p # ps) \<Longrightarrow>
    log_step tag clk s (s\<lparr>lg_owner := Some (t, ps), lg_err := lg_err s @ p\<rparr>)"
| l_unlock: "lg_owner s = Some (t, []) \<Longrightarrow> log_step tag clk s (s\<lparr>lg_owner := None\<rparr>)"

definition new_log :: "(nat \<Rightarrow> string list) \<Rightarrow> Log" where
  "new_log prog = \<lparr>lg_todo = prog, lg_owner = None, lg_err = [], lg_lines = []\<rparr>"

text \<open>The line of the \<open>k\<close>-th call.\<close>

definition log_line :: "string \<Rightarrow> (nat \<Rightarrow> log_time) \<Rightarrow> nat \<Rightarrow> string \<Rightarrow> string" where
  "log_line tag clk k msg = concat (log_pieces tag (clk k) msg)"

definition log_text :: "string \<Rightarrow> (nat \<Rightarrow> log_time) \<Rightarrow> (nat \<times> string) list \<Rightarrow> string" where
  "log_text tag clk ls = concat (map (\<lambda>(k, t, m). log_line tag clk k m) (enumerate 0 ls))"

lemma log_text_snoc:
  "log_text tag clk (ls @ [(t, m)]) = log_text tag clk ls @ concat (log_pieces tag (clk (length ls)) m)"
  by (simp add: log_text_def log_line_def enumerate_append_eq)

definition pending_text :: "Log \<Rightarrow> string" where
  "pending_text s = (case lg_owner s of None \<Rightarrow> [] | Some (t, ps) \<Rightarrow> concat ps)"

definition said :: "nat \<Rightarrow> Log \<Rightarrow> string list" where
  "said t s = map snd (filter (\<lambda>l. fst l = t) (lg_lines s))"

lemma log_inv:
  assumes "(log_step tag clk)\<^sup>*\<^sup>* (new_log prog) s"
  shows "lg_err s @ pending_text s = log_text tag clk (lg_lines s) \<and> (\<forall>t. said t s @ lg_todo s t = prog t)"
  using assms
proof (induction rule: rtranclp_induct)
  case base
  show ?case by (simp add: new_log_def pending_text_def log_text_def said_def)
next
  case (step s s')
  from step.hyps(2) step.IH show ?case
    by (cases rule: log_step.cases) (auto simp: pending_text_def log_text_snoc said_def, metis)
qed

text \<open>
  C40.  Log lines are never torn or mixed, whatever threads log and however they interleave: the stream
  is the lines of the calls so far, whole and in the order in which the calls took the mutex, up to
  the rest of the line being written; the \<open>k\<close>-th line carries the \<open>k\<close>-th reading of the clock; and every
  thread's messages appear in the order of its program, none lost and none twice.
\<close>

theorem log_lines_whole:
  assumes "(log_step tag clk)\<^sup>*\<^sup>* (new_log prog) s"
  shows "lg_err s @ pending_text s = log_text tag clk (lg_lines s)
    \<and> (lg_owner s = None \<longrightarrow> lg_err s = log_text tag clk (lg_lines s))
    \<and> (\<forall>t. said t s @ lg_todo s t = prog t)"
  using log_inv [OF assms] by (auto simp: pending_text_def)

definition ex_time :: "nat \<Rightarrow> log_time" where
  "ex_time k = \<lparr>tm_hour = 9, tm_min = 5, tm_sec = k, tv_nsec = 7000000\<rparr>"

definition ex_prog :: "nat \<Rightarrow> string list" where
  "ex_prog t = (if t = 0 then [''one''] else if t = 1 then [''two''] else [])"

lemma ex_log_run:
  "\<exists>s. (log_step ''server'' ex_time)\<^sup>*\<^sup>* (new_log ex_prog) s \<and> lg_lines s = [(1, ''two'')] \<and> lg_owner s = None"
proof -
  let ?step = "log_step ''server'' ex_time"
  define s1 where "s1 = (new_log ex_prog)\<lparr>lg_todo := ex_prog(1 := []), lg_lines := [(1, ''two'')],
    lg_owner := Some (1, log_pieces ''server'' (ex_time 0) ''two'')\<rparr>"
  have first: "?step (new_log ex_prog) s1"
    using log_step.l_lock [of "new_log ex_prog" 1 "''two''" "[]" "''server''" ex_time] by (simp add: s1_def new_log_def ex_prog_def)
  have wr: "\<exists>s'. ?step\<^sup>*\<^sup>* s s' \<and> lg_lines s' = lg_lines s \<and> lg_owner s' = Some (t, [])" if "lg_owner s = Some (t, ps)" for s t ps
    using that
  proof (induction ps arbitrary: s)
    case (Cons p ps)
    from Cons.IH [of "s\<lparr>lg_owner := Some (t, ps), lg_err := lg_err s @ p\<rparr>"] log_step.l_write [OF Cons.prems, of "''server''" ex_time]
    show ?case by (auto intro: converse_rtranclp_into_rtranclp)
  qed auto
  have "lg_owner s1 = Some (1, log_pieces ''server'' (ex_time 0) ''two'')" by (simp add: s1_def)
  from wr [OF this] obtain s2 where "?step\<^sup>*\<^sup>* s1 s2" "lg_lines s2 = lg_lines s1" "lg_owner s2 = Some (1, [])" by blast
  with first have "?step\<^sup>*\<^sup>* (new_log ex_prog) s2" "lg_lines s2 = [(1, ''two'')]" "lg_owner s2 = Some (1, [])"
    by (simp_all add: converse_rtranclp_into_rtranclp) (simp add: s1_def)
  moreover from this have "?step s2 (s2\<lparr>lg_owner := None\<rparr>)" by (intro log_step.l_unlock)
  ultimately show ?thesis by (intro exI [of _ "s2\<lparr>lg_owner := None\<rparr>"]) (auto intro: rtranclp.rtrancl_into_rtrancl)
qed

lemma ex_log_line: "log_text ''server'' ex_time [(1, ''two'')] = ''09:05:00.007 [server] two'' @ [newline]"
proof -
  have "zero_padded 2 9 = ''09''" "zero_padded 2 5 = ''05''" "zero_padded 2 0 = ''00''" "zero_padded 3 7 = ''007''"
    by code_simp+
  then show ?thesis
    by (simp add: log_text_def log_line_def log_pieces_def ex_time_def Now_def strftime_HMS_def fits_def Let_def)
qed

theorem log_lines_whole_witness:
  "\<exists>s :: Log. lg_err s = ''09:05:00.007 [server] two'' @ [newline] \<and> lg_todo s 1 = [] \<and> lg_todo s 0 = [''one'']"
proof -
  obtain s where s: "(log_step ''server'' ex_time)\<^sup>*\<^sup>* (new_log ex_prog) s" "lg_lines s = [(1, ''two'')]" "lg_owner s = None"
    using ex_log_run by blast
  have "said 1 s = [''two'']" "said 0 s = []" using s(2) by (simp_all add: said_def)
  moreover have todo: "\<forall>t. said t s @ lg_todo s t = ex_prog t" using log_lines_whole [OF s(1)] by simp
  ultimately have "lg_todo s 1 = []" "lg_todo s 0 = [''one'']"
    using spec [OF todo, of 1] spec [OF todo, of 0] by (simp_all add: ex_prog_def)
  moreover have "lg_err s = ''09:05:00.007 [server] two'' @ [newline]"
    using log_lines_whole [OF s(1)] s(2,3) ex_log_line by simp
  ultimately show ?thesis by blast
qed

subsection \<open>The time stamp\<close>

lemma length_zero_padded: "n < 10 ^ w \<Longrightarrow> 0 < w \<Longrightarrow> length (zero_padded w n) = w"
  using length_show_nat [of n w] by (auto simp: zero_padded_def Let_def)

text \<open>A valid time takes twelve bytes, and nothing is cut off.\<close>

lemma Now_length:
  assumes "tm_hour t < 24" "tm_min t < 60" "tm_sec t \<le> 60" "tv_nsec t < 1000000000"
  shows "length (Now t) = 12"
proof -
  have "length (zero_padded 2 (tm_hour t)) = 2" "length (zero_padded 2 (tm_min t)) = 2"
    "length (zero_padded 2 (tm_sec t)) = 2" "length (zero_padded 3 (tv_nsec t div 1000000)) = 3"
    using assms by (auto intro!: length_zero_padded)
  then show ?thesis by (simp add: Now_def strftime_HMS_def fits_def Let_def)
qed

end
