(* ===== verification/Simd_Log.thy ===== *)
theory Simd_Log
  imports Simd_Server Tunnel_Log
begin

text \<open>
  What the simulated server prints while it runs, \<open>sim/zt_gnmi_simd.cpp\<close>: the stamped lines of \<open>log\<close>, the
  handlers with their log calls, and the two events that log.  The readings of the local time are a
  parameter \<open>tm\<close>.  The handlers with their log compute what those of theory \<open>Gnmi_Simd\<close> compute, so the
  theorems there are about the server whether or not it is quiet; and the lines of a Set tell every
  change in the order it is made.
\<close>

text \<open>\<open>now_ns\<close>: the clock in nanoseconds, as a 64-bit number.\<close>

definition now_ns :: "int \<times> int \<Rightarrow> 64 word" where
  "now_ns = (\<lambda>(tv_sec, tv_nsec). word_of_int tv_sec * 1000000000 + word_of_int tv_nsec)"

text \<open>Up to the year 2262 nothing is lost.\<close>

lemma now_ns_exact:
  assumes "0 \<le> sec" "sec < 9223372036" "0 \<le> nsec" "nsec < 1000000000"
  shows "sint (now_ns (sec, nsec)) = sec * 1000000000 + nsec"
proof -
  have "now_ns (sec, nsec) = word_of_int (sec * 1000000000 + nsec)" by (simp add: now_ns_def)
  moreover have "signed_take_bit 63 (sec * 1000000000 + nsec) = sec * 1000000000 + nsec"
    using assms by (intro signed_take_bit_int_eq_self) simp_all
  ultimately show ?thesis by (simp only: signed_of_int) simp
qed

subsection \<open>The console\<close>

record simd_con =
  g_verbose :: bool
  g_cout :: string
  g_times :: nat

definition stamped :: "log_time \<Rightarrow> string \<Rightarrow> string" where
  "stamped t line = ''['' @ strftime_HMS 16 t @ ''] '' @ line"

definition simd_log :: "(nat \<Rightarrow> log_time) \<Rightarrow> string \<Rightarrow> simd_con \<Rightarrow> simd_con" where
  "simd_log tm line c =
     (if \<not> g_verbose c then c
      else c\<lparr>g_cout := g_cout c @ stamped (tm (g_times c)) line @ [newline], g_times := g_times c + 1\<rparr>)"

abbreviation em_dash :: string where
  "em_dash \<equiv> [CHR 0xE2, CHR 0x80, CHR 0x94]"

subsection \<open>The handlers with their log\<close>

definition asked_paths :: "('p, 'v, 'b) gnmi_lib \<Rightarrow> 'p list \<Rightarrow> string" where
  "asked_paths lib ps = for_each (\<lambda>p asked. asked @ (if asked = [] then [] else '', '') @ path_to_string lib p) ps []"

definition handle_get_log ::
  "('p, 'v, 'b) gnmi_lib \<Rightarrow> (nat \<Rightarrow> int) \<Rightarrow> (nat \<Rightarrow> log_time) \<Rightarrow> 'b \<Rightarrow> (GnmiTree \<times> simd_con, 'b unary) eff" where
  "handle_get_log lib clk tm req_pb = (\<lambda>(t, c).
     case get_req_parse lib req_pb of
        None \<Rightarrow> ((3, no_bytes lib), (t, simd_log tm (''[Get] INVALID_ARGUMENT '' @ em_dash @ '' malformed request'') c))
      | Some req \<Rightarrow>
          (let role = (if gq_target req = [] then ''VIEWER'' else gq_target req);
               (resp, found) = get_loop lib clk t (gq_path req) [] 0;
               asked = asked_paths lib (gq_path req)
           in if 0 < length (gq_path req) \<and> found = 0
              then ((5, no_bytes lib), (t, simd_log tm (''[Get] role='' @ role @ '' NOT_FOUND paths=['' @ asked @ '']'') c))
              else ((0, get_resp_bytes lib resp), (t, simd_log tm (''[Get] role='' @ role @ '' paths=''
                @ to_string (int (length (gq_path req))) @ '' leaves='' @ to_string (int found) @ '' ['' @ asked @ '']'') c))))"

definition update_line :: "('p, 'v, 'b) gnmi_lib \<Rightarrow> string \<Rightarrow> ('p, 'v) Update \<Rightarrow> string" where
  "update_line lib op u =
     ''[Set] '' @ op @ '' '' @ path_to_string lib (up_path u) @ '' = '' @ typed_value_to_string lib (up_val u)"

definition log_delete ::
  "('p, 'v, 'b) gnmi_lib \<Rightarrow> (nat \<Rightarrow> log_time) \<Rightarrow> 'p \<Rightarrow> GnmiTree \<times> simd_con \<Rightarrow> GnmiTree \<times> simd_con" where
  "log_delete lib tm d = (\<lambda>(t, c).
     let xpath = path_to_string lib d; (n, t') = GnmiTree_erase t xpath
     in (t', simd_log tm (''[Set] DELETE '' @ xpath @ '' ('' @ to_string (int n) @ '' leaf/leaves)'') c))"

definition handle_set_log ::
  "('p, 'v, 'b) gnmi_lib \<Rightarrow> (nat \<Rightarrow> int) \<Rightarrow> (nat \<Rightarrow> log_time) \<Rightarrow> 'b \<Rightarrow> (GnmiTree \<times> simd_con, 'b unary) eff" where
  "handle_set_log lib clk tm req_pb = (\<lambda>(t, c).
     case set_req_parse lib req_pb of
        None \<Rightarrow> ((3, no_bytes lib), (t, simd_log tm (''[Set] INVALID_ARGUMENT '' @ em_dash @ '' malformed request'') c))
      | Some req \<Rightarrow>
          if sq_target req \<noteq> ''ADMIN''
          then ((7, no_bytes lib), (t, simd_log tm (''[Set] PERMISSION_DENIED role=''
            @ (if sq_target req = [] then ''VIEWER(default)'' else sq_target req)) c))
          else
            (let s1 = for_each (\<lambda>u (t, c). (apply_update lib u t, simd_log tm (update_line lib ''UPDATE'' u) c)) (sq_update req) (t, c);
                 s2 = for_each (\<lambda>u (t, c). (apply_replace lib u t, simd_log tm (update_line lib ''REPLACE'' u) c)) (sq_replace req) s1;
                 (t3, c3) = for_each (log_delete lib tm) (sq_delete req) s2;
                 resp = \<lparr>sr_timestamp = clk 0,
                         sr_response = map (\<lambda>u. (up_path u, UPDATE)) (sq_update req)
                           @ map (\<lambda>u. (up_path u, REPLACE)) (sq_replace req)
                           @ map (\<lambda>d. (d, DELETE)) (sq_delete req)\<rparr>
             in ((0, set_resp_bytes lib resp),
                 (t3, simd_log tm (''[Set] role=ADMIN ok '' @ em_dash @ '' tree now ''
                   @ to_string (int (GnmiTree_size t3)) @ '' leaf/leaves'') c3))))"

text \<open>The two events that log: a connection that was taken in, and a failed read.\<close>

definition connect_log ::
  "(nat \<Rightarrow> log_time) \<Rightarrow> int \<Rightarrow> 'g sim_conn \<Rightarrow> (int \<rightharpoonup> 'g sim_conn) \<times> simd_con \<Rightarrow> int \<times> (int \<rightharpoonup> 'g sim_conn) \<times> simd_con" where
  "connect_log tm channel conn = (\<lambda>(conns, c).
     let (r, conns') = handle_connect channel conn conns
     in (r, conns', if r = 0 then simd_log tm (''client connected: '' @ cn_peer conn) c else c))"

definition read_log :: "(nat \<Rightarrow> log_time) \<Rightarrow> bool \<Rightarrow> int \<Rightarrow> simd_con \<Rightarrow> simd_con" where
  "read_log tm dry_run consumed c =
     (if \<not> dry_run \<and> consumed < 0 then simd_log tm (''http2/grpc recv error: '' @ to_string consumed) c else c)"

subsection \<open>What the log says\<close>

lemma simd_log_quiet: "\<not> g_verbose c \<Longrightarrow> simd_log tm line c = c"
  by (simp add: simd_log_def)

lemma for_each_quiet: "\<not> g_verbose c \<Longrightarrow> for_each (simd_log tm) ls c = c"
  by (induction ls) (simp_all add: simd_log_quiet)

lemma for_each_verbose:
  "g_verbose c \<Longrightarrow> g_cout (for_each (simd_log tm) ls c) =
     g_cout c @ unlines (map2 (\<lambda>k. stamped (tm k)) [g_times c ..< g_times c + length ls] ls)"
proof (induction ls arbitrary: c)
  case (Cons l ls)
  from Cons.IH [of "simd_log tm l c"] Cons.prems show ?case by (simp add: simd_log_def upt_conv_Cons del: upt_Suc)
qed simp

text \<open>Running a step and its log line over a list is running the steps and then logging the lines.\<close>

lemma for_each_logged:
  "for_each (\<lambda>x (t, c). (f x t, simd_log tm (line x) c)) xs (t, c) = (for_each f xs t, for_each (simd_log tm) (map line xs) c)"
  by (induction xs arbitrary: t c) simp_all

fun delete_lines :: "('p, 'v, 'b) gnmi_lib \<Rightarrow> 'p list \<Rightarrow> GnmiTree \<Rightarrow> string list" where
  "delete_lines lib [] t = []"
| "delete_lines lib (d # ds) t =
     (''[Set] DELETE '' @ path_to_string lib d @ '' ('' @ to_string (int (fst (GnmiTree_erase t (path_to_string lib d))))
        @ '' leaf/leaves)'') # delete_lines lib ds (apply_delete lib d t)"

lemma for_each_deletes:
  "for_each (log_delete lib tm) ds (t, c) =
     (for_each (apply_delete lib) ds t, for_each (simd_log tm) (delete_lines lib ds t) c)"
  by (induction ds arbitrary: t c) (simp_all add: log_delete_def apply_delete_def case_prod_beta Let_def)

text \<open>The lines of a Set request on a tree.\<close>

definition set_lines :: "('p, 'v, 'b) gnmi_lib \<Rightarrow> ('p, 'v) SetRequest \<Rightarrow> GnmiTree \<Rightarrow> string list" where
  "set_lines lib req t =
     (let t2 = for_each (apply_replace lib) (sq_replace req) (for_each (apply_update lib) (sq_update req) t) in
      map (update_line lib ''UPDATE'') (sq_update req) @ map (update_line lib ''REPLACE'') (sq_replace req)
        @ delete_lines lib (sq_delete req) t2
        @ [''[Set] role=ADMIN ok '' @ em_dash @ '' tree now ''
             @ to_string (int (GnmiTree_size (for_each (apply_delete lib) (sq_delete req) t2))) @ '' leaf/leaves''])"

text \<open>
  Logging is transparent: whatever is printed, both handlers return what the plain handlers return
  and leave the tree they leave; a quiet server prints nothing and does not read the time.
\<close>

theorem logging_is_transparent:
  "\<exists>c1 c2. handle_get_log lib clk tm pb (t, c) = (handle_get lib clk pb t, (t, c1))
     \<and> handle_set_log lib clk tm pb (t, c) = (fst (handle_set lib clk pb t), (snd (handle_set lib clk pb t), c2))
     \<and> (\<not> g_verbose c \<longrightarrow> c1 = c \<and> c2 = c)"
  by (auto simp: handle_get_log_def handle_get_def handle_set_log_def handle_set_def for_each_logged for_each_deletes
      simd_log_quiet for_each_quiet Let_def split: option.split prod.split)

text \<open>
  The log of a Set by an administrator is an account of it: one stamped line for each update, each
  replacement and each deletion, in the order in which they are made, with the number of leaves each
  deletion removed, and at the end the size of the tree that the request leaves.
\<close>

theorem set_log_tells_changes:
  assumes "set_req_parse lib pb = Some req" "sq_target req = ''ADMIN''" "g_verbose c"
    and "handle_set_log lib clk tm pb (t, c) = (r, (t', c'))"
  shows "g_cout c' = g_cout c
      @ unlines (map2 (\<lambda>k. stamped (tm k)) [g_times c ..< g_times c + length (set_lines lib req t)] (set_lines lib req t))
    \<and> length (set_lines lib req t) = length (sq_update req) + length (sq_replace req) + length (sq_delete req) + 1
    \<and> last (set_lines lib req t) = ''[Set] role=ADMIN ok '' @ em_dash @ '' tree now ''
        @ to_string (int (GnmiTree_size t')) @ '' leaf/leaves''"
proof -
  have l: "length (delete_lines lib ds t) = length ds" for ds t by (induction ds arbitrary: t) simp_all
  have "c' = for_each (simd_log tm) (set_lines lib req t) c"
    using assms by (auto simp: handle_set_log_def for_each_logged for_each_deletes set_lines_def for_each_append Let_def)
  moreover have "t' = for_each (apply_delete lib) (sq_delete req)
      (for_each (apply_replace lib) (sq_replace req) (for_each (apply_update lib) (sq_update req) t))"
    using assms by (auto simp: handle_set_log_def for_each_logged for_each_deletes Let_def)
  ultimately show ?thesis
    using for_each_verbose [OF assms(3), of tm "set_lines lib req t"] by (simp add: set_lines_def l Let_def)
qed

definition noon :: log_time where
  "noon = \<lparr>tm_hour = 12, tm_min = 0, tm_sec = 5, tv_nsec = 0\<rparr>"

theorem set_log_tells_changes_witness:
  "g_cout (snd (snd (handle_set_log plain_lib (\<lambda>_. 0) (\<lambda>_. noon)
     (WSetReq \<lparr>sq_target = ''ADMIN'', sq_update = [\<lparr>up_path = ''/a'', up_val = ''1''\<rparr>], sq_replace = [], sq_delete = [''/b'']\<rparr>)
     (empty_tree, \<lparr>g_verbose = True, g_cout = [], g_times = 0\<rparr>)))) =
   unlines [''[12:00:05] [Set] UPDATE /a = 1'', ''[12:00:05] [Set] DELETE /b (0 leaf/leaves)'',
     ''[12:00:05] [Set] role=ADMIN ok '' @ em_dash @ '' tree now 1 leaf/leaves'']"
proof -
  let ?req = "\<lparr>sq_target = ''ADMIN'', sq_update = [\<lparr>up_path = ''/a'', up_val = ''1''\<rparr>], sq_replace = [], sq_delete = [''/b'']\<rparr>"
  let ?c = "\<lparr>g_verbose = True, g_cout = [], g_times = 0\<rparr>"
  obtain r t' c' where h: "handle_set_log plain_lib (\<lambda>_. 0) (\<lambda>_. noon) (WSetReq ?req) (empty_tree, ?c) = (r, (t', c'))"
    by (metis prod.collapse)
  have "unlines (map2 (\<lambda>k. stamped noon) [0 ..< length (set_lines plain_lib ?req empty_tree)] (set_lines plain_lib ?req empty_tree)) =
   unlines [''[12:00:05] [Set] UPDATE /a = 1'', ''[12:00:05] [Set] DELETE /b (0 leaf/leaves)'',
     ''[12:00:05] [Set] role=ADMIN ok '' @ em_dash @ '' tree now 1 leaf/leaves'']" by code_simp
  with set_log_tells_changes [of plain_lib "WSetReq ?req" ?req ?c "\<lambda>_. 0" "\<lambda>_. noon" empty_tree r t' c', OF _ _ _ h] h
  show ?thesis by simp
qed

end
