(* ===== verification/Users.thy ===== *)
theory Users
  imports Config_File Std_Map
begin

text \<open>
  The local user store of the standalone appliance, \<open>src/users.cpp\<close> and \<open>inc/zerotouch/users.hpp\<close>:
  one \<open>id:hash:access\<close> record per line.
\<close>

record User =
  usr_id :: string
  usr_hash :: string
  usr_access :: string

record UserStore =
  m_users :: "(string, User) smap"

definition users_line :: "string \<Rightarrow> UserStore \<Rightarrow> UserStore" where
  "users_line raw store =
     (let line = trim (strip_comment raw) in
      if line = [] then store
      else
        (case str_find CHR '':'' line of
           None \<Rightarrow> store
         | Some c1 \<Rightarrow>
             (case str_find_from CHR '':'' (c1 + 1) line of
                None \<Rightarrow> store
              | Some c2 \<Rightarrow>
                  (let id' = trim (substr 0 c1 line);
                       hash = trim (substr (c1 + 1) (c2 - c1 - 1) line);
                       access = trim (drop (c2 + 1) line);
                       u = \<lparr>usr_id = id', usr_hash = hash,
                            usr_access = (if access \<noteq> ''Admin'' then ''Viewer'' else access)\<rparr> in
                   if id' = [] \<or> hash = [] then store
                   else store\<lparr>m_users := smap_set id' u (m_users store)\<rparr>))))"

definition UserStore_parse :: "string \<Rightarrow> UserStore" where
  "UserStore_parse text = for_each users_line (getlines text) \<lparr>m_users = []\<rparr>"

definition UserStore_lookup :: "UserStore \<Rightarrow> string \<Rightarrow> User option" where
  "UserStore_lookup store id' = smap_find (m_users store) id'"

definition UserStore_size :: "UserStore \<Rightarrow> nat" where
  "UserStore_size store = length (m_users store)"

subsection \<open>Records of a file\<close>

definition user_ok :: "User \<Rightarrow> bool" where
  "user_ok u \<longleftrightarrow> usr_id u \<noteq> [] \<and> usr_hash u \<noteq> [] \<and> usr_access u \<in> {''Admin'', ''Viewer''}"

text \<open>The record one line holds, if any: the three fields around the first two colons.\<close>

definition line_user :: "string \<Rightarrow> User option" where
  "line_user raw =
     (let line = trim (strip_comment raw);
          f1 = takeWhile (\<lambda>c. c \<noteq> CHR '':'') line;
          r1 = drop 1 (dropWhile (\<lambda>c. c \<noteq> CHR '':'') line);
          f2 = takeWhile (\<lambda>c. c \<noteq> CHR '':'') r1;
          r2 = drop 1 (dropWhile (\<lambda>c. c \<noteq> CHR '':'') r1) in
      if CHR '':'' \<in> set line \<and> CHR '':'' \<in> set r1 \<and> trim f1 \<noteq> [] \<and> trim f2 \<noteq> []
      then Some \<lparr>usr_id = trim f1, usr_hash = trim f2,
                 usr_access = (if trim r2 = ''Admin'' then ''Admin'' else ''Viewer'')\<rparr>
      else None)"

definition users_of :: "string \<Rightarrow> User list" where
  "users_of text = List.map_filter line_user (getlines text)"

lemma str_find_Some: "c \<in> set s \<Longrightarrow> str_find c s = Some (length (takeWhile (\<lambda>x. x \<noteq> c) s))"
  by (simp add: str_find_def)

lemma str_find_absent: "c \<notin> set s \<Longrightarrow> str_find c s = None"
  by simp

lemma drop_Suc_takeWhile: "drop (Suc (length (takeWhile P s))) s = drop 1 (dropWhile P s)"
  by (metis drop_drop drop_takeWhile_length plus_1_eq_Suc)

lemma drop_second_field:
  "drop (Suc (Suc (length (takeWhile P s) + length (takeWhile P (drop (Suc 0) (dropWhile P s)))))) s
   = drop (Suc 0) (dropWhile P (drop (Suc 0) (dropWhile P s)))"
proof -
  let ?r = "drop (Suc 0) (dropWhile P s)"
  have "drop (Suc (length (takeWhile P ?r))) ?r = drop (Suc 0) (dropWhile P ?r)"
    using drop_Suc_takeWhile [of P ?r] by simp
  moreover have "drop (Suc (length (takeWhile P ?r))) ?r =
      drop (Suc (length (takeWhile P ?r))) (drop (Suc (length (takeWhile P s))) s)"
    using drop_Suc_takeWhile [of P s] by simp
  ultimately show ?thesis by (simp add: add.commute)
qed

lemma users_line_user:
  "users_line raw store =
     (case line_user raw of None \<Rightarrow> store
      | Some u \<Rightarrow> store\<lparr>m_users := smap_set (usr_id u) u (m_users store)\<rparr>)"
proof -
  let ?l = "trim (strip_comment raw)"
  let ?r = "drop 1 (dropWhile (\<lambda>c. c \<noteq> CHR '':'') ?l)"
  show ?thesis
  proof (cases "CHR '':'' \<in> set ?l")
    case True
    then have ne: "?l \<noteq> []" by auto
    show ?thesis
    proof (cases "CHR '':'' \<in> set ?r")
      case r: True
      then show ?thesis
        using True ne
        by (simp add: users_line_def line_user_def Let_def str_find_Some str_find_from_def
            drop_Suc_takeWhile substr_def take_takeWhile_length drop_second_field)
    next
      case r: False
      then show ?thesis
        using True by (simp add: users_line_def line_user_def Let_def str_find_Some str_find_from_def
            drop_Suc_takeWhile str_find_absent)
    qed
  next
    case False
    then show ?thesis by (simp add: users_line_def line_user_def Let_def str_find_def)
  qed
qed

lemma for_each_users:
  "m_users (for_each users_line ls store) =
     for_each (\<lambda>(k, v). smap_set k v) (map (\<lambda>u. (usr_id u, u)) (List.map_filter line_user ls)) (m_users store)"
  by (induction ls arbitrary: store) (auto simp: users_line_user map_filter_simps split: option.split)

lemma lookup_parse:
  "UserStore_lookup (UserStore_parse text) = map_of (rev (map (\<lambda>u. (usr_id u, u)) (users_of text)))"
  using smp.find_set_all [OF smp.inv_empty]
  by (simp add: UserStore_lookup_def [abs_def] UserStore_parse_def for_each_users users_of_def
      smp.find_empty)

lemma line_user_ok: "line_user raw = Some u \<Longrightarrow> user_ok u"
  by (auto simp: line_user_def user_ok_def Let_def split: if_splits)

lemma users_of_ok: "u \<in> set (users_of text) \<Longrightarrow> user_ok u"
  by (auto simp: users_of_def map_filter_def intro: line_user_ok)

lemma users_of_line: "u \<in> set (users_of text) \<Longrightarrow> \<exists>raw \<in> set (getlines text). line_user raw = Some u"
  by (force simp: users_of_def map_filter_def)

text \<open>
  What the user store answers: a lookup finds exactly the last record of the file with that
  id, so a later duplicate replaces an earlier one completely.  Every user it ever returns carries
  the id asked for, a non-empty id and hash, and the access Admin or Viewer, Admin only when the
  third field of that record is the word Admin.
\<close>

theorem users_lookup:
  "UserStore_lookup (UserStore_parse text) id' =
      map_of (rev (map (\<lambda>u. (usr_id u, u)) (users_of text))) id'
   \<and> (UserStore_lookup (UserStore_parse text) id' = Some u \<longrightarrow>
        usr_id u = id' \<and> user_ok u \<and> (\<exists>raw \<in> set (getlines text). line_user raw = Some u))"
proof -
  have "u \<in> set (users_of text) \<and> usr_id u = id'" if "UserStore_lookup (UserStore_parse text) id' = Some u"
    using that by (auto simp: lookup_parse dest!: map_of_SomeD)
  then show ?thesis
    using users_of_ok [of u "text"] users_of_line [of u "text"] by (simp add: lookup_parse)
qed

theorem users_lookup_witness:
  "usr_id \<lparr>usr_id = ''bob'', usr_hash = ''ff'', usr_access = ''Admin''\<rparr> = ''bob''
   \<and> user_ok \<lparr>usr_id = ''bob'', usr_hash = ''ff'', usr_access = ''Admin''\<rparr>
   \<and> (\<exists>raw \<in> set (getlines (''bob:00:Viewer'' @ [newline] @ '' bob : ff : Admin # x'')).
        line_user raw = Some \<lparr>usr_id = ''bob'', usr_hash = ''ff'', usr_access = ''Admin''\<rparr>)"
proof (rule users_lookup [THEN conjunct2, THEN mp])
  show "UserStore_lookup (UserStore_parse (''bob:00:Viewer'' @ [newline] @ '' bob : ff : Admin # x'')) ''bob''
    = Some \<lparr>usr_id = ''bob'', usr_hash = ''ff'', usr_access = ''Admin''\<rparr>"
    by code_simp
qed

subsection \<open>Writing users and reading them back\<close>

definition user_field :: "string \<Rightarrow> bool" where
  "user_field f \<longleftrightarrow> f \<noteq> [] \<and> plain_value f \<and> CHR '':'' \<notin> set f"

definition user_text :: "User \<Rightarrow> string" where
  "user_text u = usr_id u @ '':'' @ usr_hash u @ '':'' @ usr_access u"

definition user_printable :: "User \<Rightarrow> bool" where
  "user_printable u \<longleftrightarrow> user_field (usr_id u) \<and> user_field (usr_hash u)
     \<and> usr_access u \<in> {''Admin'', ''Viewer''}"

lemma line_user_text:
  assumes "user_printable u"
  shows "line_user (user_text u) = Some u"
proof -
  let ?a = "usr_access u" and ?h = "usr_hash u" and ?i = "usr_id u"
  have a: "?a = ''Admin'' \<or> ?a = ''Viewer''" and i: "user_field ?i" and h: "user_field ?h"
    using assms by (auto simp: user_printable_def)
  have "trimmed (user_text u)" "CHR ''#'' \<notin> set (user_text u)"
    using a i h by (auto simp: user_text_def user_field_def plain_value_def trimmed_def blanks_def)
  then have l: "trim (strip_comment (user_text u)) = ?i @ CHR '':'' # ?h @ CHR '':'' # ?a"
    by (simp add: strip_comment_id trim_id user_text_def)
  have "trim ?i = ?i" "trim ?h = ?h" "trim ?a = ?a"
    using a i h by (auto simp: user_field_def plain_value_def trimmed_def blanks_def intro!: trim_id)
  then show ?thesis
    using a i h unfolding line_user_def l Let_def
    by (cases u) (auto simp: takeWhile_neq_append dropWhile_neq_append user_field_def)
qed

text \<open>
  A users file survives being written and read: for every list of users with printable ids
  and hashes, parsing the file written from it gives a store that finds each id's last entry and
  nothing else.
\<close>

theorem users_round_trip:
  assumes "list_all user_printable us"
  shows "UserStore_lookup (UserStore_parse (unlines (map user_text us))) =
    map_of (rev (map (\<lambda>u. (usr_id u, u)) us))"
proof -
  have "newline \<notin> set (user_text u)" if "u \<in> set us" for u
    using assms that
    by (auto simp: list_all_iff user_printable_def user_text_def user_field_def plain_value_def)
  then have "getlines (unlines (map user_text us)) = map user_text us"
    using getlines_unlines [of "map user_text us" "[]"] by simp
  moreover have "List.map_filter line_user (map user_text us) = us"
    using assms by (induction us) (auto simp: line_user_text map_filter_simps)
  ultimately show ?thesis by (simp add: lookup_parse users_of_def)
qed

theorem users_round_trip_witness:
  "UserStore_lookup (UserStore_parse (unlines (map user_text
      [\<lparr>usr_id = ''a'', usr_hash = ''0f'', usr_access = ''Viewer''\<rparr>,
       \<lparr>usr_id = ''a'', usr_hash = ''1f'', usr_access = ''Admin''\<rparr>]))) ''a''
   = Some \<lparr>usr_id = ''a'', usr_hash = ''1f'', usr_access = ''Admin''\<rparr>"
  by (subst users_round_trip)
    (simp_all add: user_printable_def user_field_def plain_value_def trimmed_def blanks_def)

end
