(* ===== verification/Ds_Sms_Transport.thy ===== *)
theory Ds_Sms_Transport
  imports Sms_Bridge
begin

text \<open>
  SMS over the data store, \<open>src/ds_sms_transport.cpp\<close>: a watch on \<open>sms.version\<close> marks the transport
  dirty on the store's listener thread, the reactor thread then reads \<open>sms.last.*\<close>, drops what it has
  just seen and hands the rest to the bridge; replies are written to \<open>sms.send.*\<close>.

  The client of the data store is a library outside the repository and is a record of parameters:
  \<open>'d\<close> is the store as the client sees it, \<open>'v\<close> its values.  \<open>dc_get\<close> returns the status and one
  optional value per key.  The clock \<open>clk i\<close> gives the \<open>i\<close>-th reading of \<open>gettimeofday\<close>, seconds and
  microseconds.
\<close>

record ('d, 'v) ds_client =
  dc_connect :: "string \<Rightarrow> ('d, bool) eff"
  dc_get :: "string list \<Rightarrow> ('d, bool \<times> 'v option list) eff"
  dc_set :: "(string \<times> 'v) list \<Rightarrow> ('d, bool) eff"
  dc_set_volatile :: "(string \<times> 'v) list \<Rightarrow> ('d, bool) eff"
  dc_watch :: "string list \<Rightarrow> 'd \<Rightarrow> 'd"
  v_string :: "'v \<Rightarrow> string option"
  v_int32 :: "'v \<Rightarrow> int option"
  v_bool :: "'v \<Rightarrow> bool option"
  v_of_string :: "string \<Rightarrow> 'v"

type_synonym timeofday = "nat \<Rightarrow> u64 \<times> u64"

text \<open>The transport's members, with the store and the count of clock readings it shares.\<close>

record 'd DsSmsTransport =
  tx_ds :: 'd
  tx_reads :: nat
  m_sms_dirty :: bool
  m_seen_sender :: string
  m_seen_text :: string
  m_seen_ts :: string

definition gettimeofday :: "timeofday \<Rightarrow> (('d, 'z) DsSmsTransport_scheme, u64 \<times> u64) eff" where
  "gettimeofday clk s = (clk (tx_reads s), s\<lparr>tx_reads := tx_reads s + 1\<rparr>)"

definition tx_now_ms :: "timeofday \<Rightarrow> (('d, 'z) DsSmsTransport_scheme, u64) eff" where
  "tx_now_ms clk s =
     (let ((sec, usec), s1) = gettimeofday clk s in (sec * 1000 + usec div 1000, s1))"

definition read_last :: "('d, 'v) ds_client \<Rightarrow> ('d, (string \<times> string \<times> string) option) eff" where
  "read_last C d =
     (let ((good, got), d1) = dc_get C [''sms.last.sender'', ''sms.last.text'', ''sms.last.ts''] d;
          val = (\<lambda>i. case got ! i of None \<Rightarrow> []
                     | Some v \<Rightarrow> (case v_string C v of Some s \<Rightarrow> s | None \<Rightarrow> []))
      in if \<not> good \<or> length got < 3 then (None, d1) else (Some (val 0, val 1, val 2), d1))"

definition DsSmsTransport_start ::
  "('d, 'v) ds_client \<Rightarrow> ('d, 'z) DsSmsTransport_scheme \<Rightarrow> ('d, 'z) DsSmsTransport_scheme" where
  "DsSmsTransport_start C s =
     (let (last_sms, d1) = read_last C (tx_ds s);
          s1 = s\<lparr>tx_ds := d1\<rparr>;
          s2 = (case last_sms of
                  Some (sender, txt, ts) \<Rightarrow>
                    s1\<lparr>m_seen_sender := sender, m_seen_text := txt, m_seen_ts := ts\<rparr>
                | None \<Rightarrow> s1)
      in s2\<lparr>tx_ds := dc_watch C [''sms.version''] (tx_ds s2)\<rparr>)"

text \<open>The watch callback, on the listener thread; it then wakes the reactor.\<close>

definition on_version_event ::
  "('d, 'z) DsSmsTransport_scheme \<Rightarrow> ('d, 'z) DsSmsTransport_scheme" where
  "on_version_event s = s\<lparr>m_sms_dirty := True\<rparr>"

definition drain_inbound ::
  "('d, 'v) ds_client \<Rightarrow> (InboundSms \<Rightarrow> ('d, 'z) DsSmsTransport_scheme \<Rightarrow> ('d, 'z) DsSmsTransport_scheme) callable
     \<Rightarrow> ('d, 'z) DsSmsTransport_scheme \<Rightarrow> ('d, 'z) DsSmsTransport_scheme" where
  "drain_inbound C on_message s =
     (let (last_sms, d1) = read_last C (tx_ds s); s1 = s\<lparr>tx_ds := d1\<rparr> in
      case last_sms of
        None \<Rightarrow> s1
      | Some (sender, txt, ts) \<Rightarrow>
          if sender = [] \<or> txt = [] then s1
          else if sender = m_seen_sender s1 \<and> txt = m_seen_text s1 \<and> ts = m_seen_ts s1 then s1
          else
            (let s2 = s1\<lparr>m_seen_sender := sender, m_seen_text := txt, m_seen_ts := ts\<rparr> in
             case on_message of
               Some f \<Rightarrow> f \<lparr>sms_sender = sender, sms_text = txt, sms_ts = ts\<rparr> s2
             | None \<Rightarrow> s2))"

definition tx_handle_exception ::
  "('d, 'v) ds_client \<Rightarrow> (InboundSms \<Rightarrow> ('d, 'z) DsSmsTransport_scheme \<Rightarrow> ('d, 'z) DsSmsTransport_scheme) callable
     \<Rightarrow> ('d, 'z) DsSmsTransport_scheme \<Rightarrow> ('d, 'z) DsSmsTransport_scheme" where
  "tx_handle_exception C on_message s =
     (let dirty = m_sms_dirty s; s1 = s\<lparr>m_sms_dirty := False\<rparr>
      in if dirty then drain_inbound C on_message s1 else s1)"

definition DsSmsTransport_send ::
  "('d, 'v) ds_client \<Rightarrow> timeofday \<Rightarrow> string \<Rightarrow> string \<Rightarrow> (('d, 'z) DsSmsTransport_scheme, bool) eff" where
  "DsSmsTransport_send C clk to txt s =
     (if \<not> is_reachable_sender to then (False, s)
      else
        (let (ok1, d1) = dc_set C [(''sms.send.to'', v_of_string C to), (''sms.send.text'', v_of_string C txt)]
                           (tx_ds s);
             s1 = s\<lparr>tx_ds := d1\<rparr> in
         if \<not> ok1 then (False, s1)
         else
           (let (now, s2) = tx_now_ms clk s1;
                (ok2, d2) = dc_set C [(''sms.send.request'', v_of_string C (to_string (uint now)))] (tx_ds s2)
            in (ok2, s2\<lparr>tx_ds := d2\<rparr>))))"

definition DsSmsTransport ::
  "('d, 'v) ds_client \<Rightarrow> timeofday \<Rightarrow> ('d, 'z) DsSmsTransport_scheme ISmsTransport" where
  "DsSmsTransport C clk = \<lparr>tx_send = DsSmsTransport_send C clk, tx_start = (\<lambda>_. DsSmsTransport_start C)\<rparr>"

subsection \<open>What the transport promises, and how it keeps it\<close>

text \<open>
  The specification: \<open>cur\<close> is the message in the store, \<open>readable\<close> whether a read of the store succeeds,
  \<open>seen\<close> the last message accepted or baselined, \<open>dirty\<close> whether an event is pending, \<open>delivered\<close> what the
  bridge has received.  Its events may come in any order: another process publishes a message, the
  store becomes readable or unreadable, the listener thread raises the watch event, and the reactor
  wakes.  Each event has exactly one step.
\<close>

type_synonym sms3 = "string \<times> string \<times> string"

datatype tx_event = Publish sms3 | Link bool | VersionEvent | Wakeup

record inbox =
  cur :: sms3
  readable :: bool
  seen :: sms3
  dirty :: bool
  delivered :: "sms3 list"

abbreviation deliverable :: "sms3 \<Rightarrow> bool" where
  "deliverable m \<equiv> fst m \<noteq> [] \<and> fst (snd m) \<noteq> []"

definition accept :: "inbox \<Rightarrow> inbox" where
  "accept b = (if readable b \<and> deliverable (cur b) \<and> cur b \<noteq> seen b
               then b\<lparr>seen := cur b, delivered := delivered b @ [cur b]\<rparr> else b)"

inductive inbox_step :: "inbox \<Rightarrow> tx_event \<Rightarrow> inbox \<Rightarrow> bool" where
  publish: "inbox_step b (Publish m) (b\<lparr>cur := m\<rparr>)"
| link: "inbox_step b (Link r) (b\<lparr>readable := r\<rparr>)"
| event: "inbox_step b VersionEvent (b\<lparr>dirty := True\<rparr>)"
| wake_clean: "\<not> dirty b \<Longrightarrow> inbox_step b Wakeup b"
| wake_dirty: "dirty b \<Longrightarrow> inbox_step b Wakeup (accept (b\<lparr>dirty := False\<rparr>))"

inductive_simps inbox_step_simps:
  "inbox_step b (Publish m) b'" "inbox_step b (Link r) b'" "inbox_step b VersionEvent b'" "inbox_step b Wakeup b'"

text \<open>The step of an event, as a function.\<close>

fun inbox_apply :: "tx_event \<Rightarrow> inbox \<Rightarrow> inbox" where
  "inbox_apply (Publish m) b = b\<lparr>cur := m\<rparr>"
| "inbox_apply (Link r) b = b\<lparr>readable := r\<rparr>"
| "inbox_apply VersionEvent b = b\<lparr>dirty := True\<rparr>"
| "inbox_apply Wakeup b = (if dirty b then accept (b\<lparr>dirty := False\<rparr>) else b)"

lemma inbox_step_iff: "inbox_step b e b' \<longleftrightarrow> b' = inbox_apply e b"
  by (cases e) (auto simp: inbox_step_simps)

text \<open>
  The code against the specification, with a callback that records what it is given.  What is assumed
  of the client: while the store is readable (\<open>up\<close>) the three keys read as the message \<open>stored\<close> there, and
  otherwise reads fail; reading and watching change neither.  \<open>put\<close> and \<open>link\<close> are what other processes
  and the connection do.
\<close>

definition good_store ::
  "('d, 'v) ds_client \<Rightarrow> ('d \<Rightarrow> sms3) \<Rightarrow> ('d \<Rightarrow> bool) \<Rightarrow> (sms3 \<Rightarrow> 'd \<Rightarrow> 'd) \<Rightarrow> (bool \<Rightarrow> 'd \<Rightarrow> 'd) \<Rightarrow> bool" where
  "good_store C stored up put link \<longleftrightarrow>
     (\<forall>d. fst (read_last C d) = (if up d then Some (stored d) else None)
        \<and> stored (snd (read_last C d)) = stored d \<and> up (snd (read_last C d)) = up d)
     \<and> (\<forall>ks d. stored (dc_watch C ks d) = stored d \<and> up (dc_watch C ks d) = up d)
     \<and> (\<forall>m d. stored (put m d) = m \<and> up (put m d) = up d)
     \<and> (\<forall>r d. stored (link r d) = stored d \<and> up (link r d) = r)"

record 'd logged = "'d DsSmsTransport" +
  log :: "sms3 list"

definition record_sms :: "InboundSms \<Rightarrow> 'd logged \<Rightarrow> 'd logged" where
  "record_sms inb s = s\<lparr>log := log s @ [(sms_sender inb, sms_text inb, sms_ts inb)]\<rparr>"

definition inbox_of :: "('d \<Rightarrow> sms3) \<Rightarrow> ('d \<Rightarrow> bool) \<Rightarrow> 'd logged \<Rightarrow> inbox" where
  "inbox_of stored up s =
     \<lparr>cur = stored (tx_ds s), readable = up (tx_ds s), seen = (m_seen_sender s, m_seen_text s, m_seen_ts s),
      dirty = m_sms_dirty s, delivered = log s\<rparr>"

fun tx_apply :: "('d, 'v) ds_client \<Rightarrow> (sms3 \<Rightarrow> 'd \<Rightarrow> 'd) \<Rightarrow> (bool \<Rightarrow> 'd \<Rightarrow> 'd) \<Rightarrow> tx_event \<Rightarrow> 'd logged \<Rightarrow> 'd logged" where
  "tx_apply C put link (Publish m) s = s\<lparr>tx_ds := put m (tx_ds s)\<rparr>"
| "tx_apply C put link (Link r) s = s\<lparr>tx_ds := link r (tx_ds s)\<rparr>"
| "tx_apply C put link VersionEvent s = on_version_event s"
| "tx_apply C put link Wakeup s = tx_handle_exception C (Some record_sms) s"

lemma read_last_good:
  assumes "good_store C stored up put link"
  obtains d1 where "read_last C d = (if up d then Some (stored d) else None, d1)" "stored d1 = stored d" "up d1 = up d"
proof
  show "read_last C d = (if up d then Some (stored d) else None, snd (read_last C d))"
    using assms by (simp add: good_store_def prod_eq_iff)
qed (use assms in \<open>simp_all add: good_store_def\<close>)

lemma drain_refines:
  assumes "good_store C stored up put link"
  shows "inbox_of stored up (drain_inbound C (Some record_sms) s) = accept (inbox_of stored up s)"
proof -
  obtain d1 where r: "read_last C (tx_ds s) = (if up (tx_ds s) then Some (stored (tx_ds s)) else None, d1)"
    "stored d1 = stored (tx_ds s)" "up d1 = up (tx_ds s)" by (rule read_last_good [OF assms])
  obtain a b c where "stored (tx_ds s) = (a, b, c)" by (cases "stored (tx_ds s)")
  with r show ?thesis
    by (simp add: drain_inbound_def record_sms_def inbox_of_def accept_def Let_def)
qed

lemma start_refines:
  assumes "good_store C stored up put link"
  shows "inbox_of stored up (DsSmsTransport_start C s) =
    (let b = inbox_of stored up s in b\<lparr>seen := (if readable b then cur b else seen b)\<rparr>)"
proof -
  obtain d1 where r: "read_last C (tx_ds s) = (if up (tx_ds s) then Some (stored (tx_ds s)) else None, d1)"
    "stored d1 = stored (tx_ds s)" "up d1 = up (tx_ds s)" by (rule read_last_good [OF assms])
  obtain a b c where "stored (tx_ds s) = (a, b, c)" by (cases "stored (tx_ds s)")
  with r assms show ?thesis by (simp add: DsSmsTransport_start_def inbox_of_def good_store_def Let_def)
qed

lemma apply_refines:
  assumes "good_store C stored up put link"
  shows "inbox_of stored up (tx_apply C put link e s) = inbox_apply e (inbox_of stored up s)"
proof (cases e)
  case Wakeup
  then show ?thesis
    using drain_refines [OF assms, of "s\<lparr>m_sms_dirty := False\<rparr>"]
    by (simp add: tx_handle_exception_def inbox_of_def)
qed (use assms in \<open>simp_all add: good_store_def inbox_of_def on_version_event_def del: split_paired_All\<close>)

text \<open>
  C10.  The data-store transport implements its specification, event by event: starting it baselines on
  the message already there when the store can be read, and changes nothing otherwise; the watch
  callback has exactly the effect of the watch event, that is, it marks the transport dirty; and a
  wake-up of the reactor has exactly the effect of the wake-up event: it takes the mark back and, if
  there was one and the store can be read, delivers the current message unless it is the one seen
  last or lacks a sender or a text.
\<close>

theorem ds_transport_refines:
  assumes "good_store C stored up put link"
  shows "inbox_of stored up (DsSmsTransport_start C s) =
      (let b = inbox_of stored up s in b\<lparr>seen := (if readable b then cur b else seen b)\<rparr>)
    \<and> (\<forall>b'. inbox_step (inbox_of stored up s) VersionEvent b' \<longleftrightarrow> b' = inbox_of stored up (on_version_event s))
    \<and> (\<forall>b'. inbox_step (inbox_of stored up s) Wakeup b' \<longleftrightarrow>
          b' = inbox_of stored up (tx_handle_exception C (Some record_sms) s))"
  using start_refines [OF assms, of s] apply_refines [OF assms, of VersionEvent s] apply_refines [OF assms, of Wakeup s]
  by (simp add: inbox_step_iff)

text \<open>A store that holds just the last message, and whether it can be read.\<close>

definition cell_client :: "(sms3 \<times> bool, string) ds_client" where
  "cell_client =
     \<lparr>dc_connect = (\<lambda>_ d. (True, d)),
      dc_get = (\<lambda>_ (m, r). ((r, [Some (fst m), Some (fst (snd m)), Some (snd (snd m))]), (m, r))),
      dc_set = (\<lambda>_ d. (True, d)), dc_set_volatile = (\<lambda>_ d. (True, d)), dc_watch = (\<lambda>_ d. d),
      v_string = Some, v_int32 = (\<lambda>_. None), v_bool = (\<lambda>_. None), v_of_string = (\<lambda>s. s)\<rparr>"

abbreviation cell_put :: "sms3 \<Rightarrow> sms3 \<times> bool \<Rightarrow> sms3 \<times> bool" where
  "cell_put m d \<equiv> (m, snd d)"

abbreviation cell_link :: "bool \<Rightarrow> sms3 \<times> bool \<Rightarrow> sms3 \<times> bool" where
  "cell_link r d \<equiv> (fst d, r)"

definition cell_start :: "sms3 \<Rightarrow> bool \<Rightarrow> (sms3 \<times> bool) logged" where
  "cell_start m r =
     \<lparr>tx_ds = (m, r), tx_reads = 0, m_sms_dirty = False, m_seen_sender = [], m_seen_text = [], m_seen_ts = [],
      log = []\<rparr>"

lemma cell_good: "good_store cell_client fst snd cell_put cell_link"
  by (auto simp: good_store_def cell_client_def read_last_def)

theorem ds_transport_refines_witness:
  "let s = (cell_start (''+15551230000'', ''hi'', ''1'') True)\<lparr>m_sms_dirty := True\<rparr> in
   inbox_step (inbox_of fst snd s) Wakeup
     \<lparr>cur = (''+15551230000'', ''hi'', ''1''), readable = True, seen = (''+15551230000'', ''hi'', ''1''),
      dirty = False, delivered = [(''+15551230000'', ''hi'', ''1'')]\<rparr>"
proof -
  let ?s = "(cell_start (''+15551230000'', ''hi'', ''1'') True)\<lparr>m_sms_dirty := True\<rparr>"
  have "inbox_of fst snd (tx_handle_exception cell_client (Some record_sms) ?s) =
      \<lparr>cur = (''+15551230000'', ''hi'', ''1''), readable = True, seen = (''+15551230000'', ''hi'', ''1''),
       dirty = False, delivered = [(''+15551230000'', ''hi'', ''1'')]\<rparr>" by code_simp
  with ds_transport_refines [OF cell_good, of ?s] show ?thesis by (simp add: Let_def)
qed

subsection \<open>Every history of the transport\<close>

definition tx_run ::
  "('d, 'v) ds_client \<Rightarrow> (sms3 \<Rightarrow> 'd \<Rightarrow> 'd) \<Rightarrow> (bool \<Rightarrow> 'd \<Rightarrow> 'd) \<Rightarrow> tx_event list \<Rightarrow> 'd logged \<Rightarrow> 'd logged" where
  "tx_run C put link evs s = for_each (tx_apply C put link) evs (DsSmsTransport_start C s)"

definition fresh :: "'d logged \<Rightarrow> bool" where
  "fresh s \<longleftrightarrow> log s = [] \<and> \<not> m_sms_dirty s \<and> m_seen_sender s = [] \<and> m_seen_text s = [] \<and> m_seen_ts s = []"

text \<open>The baseline that start-up takes, and the inbox it starts with.\<close>

definition baseline :: "('d \<Rightarrow> sms3) \<Rightarrow> ('d \<Rightarrow> bool) \<Rightarrow> 'd \<Rightarrow> sms3" where
  "baseline stored up d = (if up d then stored d else ([], [], []))"

abbreviation first_inbox :: "('d \<Rightarrow> sms3) \<Rightarrow> ('d \<Rightarrow> bool) \<Rightarrow> 'd \<Rightarrow> inbox" where
  "first_inbox stored up d \<equiv>
     \<lparr>cur = stored d, readable = up d, seen = baseline stored up d, dirty = False, delivered = []\<rparr>"

lemma run_refines:
  assumes "good_store C stored up put link" "fresh s"
  shows "inbox_of stored up (tx_run C put link evs s) = for_each inbox_apply evs (first_inbox stored up (tx_ds s))"
proof -
  have "inbox_of stored up (for_each (tx_apply C put link) evs t) = for_each inbox_apply evs (inbox_of stored up t)" for t
    by (induction evs arbitrary: t) (simp_all add: apply_refines [OF assms(1)])
  moreover have "inbox_of stored up (DsSmsTransport_start C s) = first_inbox stored up (tx_ds s)"
    unfolding start_refines [OF assms(1)] using assms(2) by (simp add: inbox_of_def fresh_def baseline_def Let_def)
  ultimately show ?thesis by (simp add: tx_run_def)
qed

lemma run_log:
  assumes "good_store C stored up put link" "fresh s"
  shows "log (tx_run C put link evs s) = delivered (for_each inbox_apply evs (first_inbox stored up (tx_ds s)))"
  using run_refines [OF assms, of evs] by (metis inbox.select_convs(5) inbox_of_def)

text \<open>
  What the wake-ups read: the message current at each wake-up that finds the mark set and the store
  readable.
\<close>

fun reads_of :: "sms3 \<Rightarrow> bool \<Rightarrow> bool \<Rightarrow> tx_event list \<Rightarrow> sms3 list" where
  "reads_of m r d [] = []"
| "reads_of m r d (Publish m' # evs) = reads_of m' r d evs"
| "reads_of m r d (Link r' # evs) = reads_of m r' d evs"
| "reads_of m r d (VersionEvent # evs) = reads_of m r True evs"
| "reads_of m r d (Wakeup # evs) = (if d \<and> r then [m] else []) @ reads_of m r False evs"

text \<open>Dropping a message that equals the one before.\<close>

lemma tl_remdups_adj: "tl (remdups_adj (x # xs)) = (case xs of [] \<Rightarrow> [] | y # ys \<Rightarrow>
    (if y = x then [] else [y]) @ tl (remdups_adj (y # ys)))"
  by (cases xs) (auto simp: remdups_adj_Cons split: list.split)

lemma delivered_run:
  "delivered (for_each inbox_apply evs b) = delivered b
     @ tl (remdups_adj (seen b # filter deliverable (reads_of (cur b) (readable b) (dirty b) evs)))"
proof (induction evs arbitrary: b)
  case (Cons e evs)
  show ?case
  proof (cases e)
    case Wakeup
    show ?thesis
    proof (cases "dirty b \<and> readable b \<and> deliverable (cur b)")
      case True
      then show ?thesis
        using Wakeup Cons.IH [of "accept (b\<lparr>dirty := False\<rparr>)"]
        by (simp add: accept_def tl_remdups_adj [of "seen b" "cur b # _"])
    next
      case False
      then show ?thesis
        using Wakeup Cons.IH [of b] Cons.IH [of "b\<lparr>dirty := False\<rparr>"] by (auto simp: accept_def)
    qed
  qed (simp_all add: Cons.IH)
qed simp

text \<open>
  C22.  Exactly what is delivered, over every interleaving of publications, watch events, wake-ups and
  losses of the store: of the messages that the wake-ups read, those with a sender and a text, in
  order, each run of equal ones once; and the message read at start-up counts as the one before the
  first.  So a message is not delivered twice in a row and the one in the store at start-up is not
  the first delivered, as long as start-up could read it; that it may come again after another one,
  or at once when the read at start-up failed, is part of the same equation.
\<close>

theorem ds_transport_replay_guard:
  assumes "good_store C stored up put link" "fresh s"
  shows "log (tx_run C put link evs s) = tl (remdups_adj (baseline stored up (tx_ds s)
    # filter deliverable (reads_of (stored (tx_ds s)) (up (tx_ds s)) False evs)))"
  unfolding run_log [OF assms] by (simp add: delivered_run)

text \<open>With the store unreadable at start-up, the message it holds from before is delivered.\<close>

theorem ds_transport_replay_guard_witness:
  "let old = (''+1'', ''IOT REBOOT'', ''1''); evs = [VersionEvent, Wakeup, VersionEvent, Wakeup] in
   log (tx_run cell_client cell_put cell_link evs (cell_start old True)) = []
   \<and> log (tx_run cell_client cell_put cell_link (Link True # evs) (cell_start old False)) = [old]"
  using ds_transport_replay_guard [OF cell_good, of "cell_start (''+1'', ''IOT REBOOT'', ''1'') True"]
    ds_transport_replay_guard [OF cell_good, of "cell_start (''+1'', ''IOT REBOOT'', ''1'') False"]
  by (simp add: fresh_def cell_start_def baseline_def Let_def)

text \<open>
  No wake-up is lost while the store can be read: after any history, a published message whose watch
  event is followed by a wake-up is the last one delivered (or is the one seen last already),
  however the earlier events interleaved.
\<close>

theorem ds_transport_delivers:
  assumes "good_store C stored up put link" "fresh s" "deliverable m"
  shows "last (baseline stored up (tx_ds s)
    # log (tx_run C put link (evs @ [Link True, Publish m, VersionEvent, Wakeup]) s)) = m"
proof -
  let ?b = "for_each inbox_apply evs (first_inbox stored up (tx_ds s))"
  have "seen (for_each inbox_apply evs b) = last (seen b # drop (length (delivered b)) (delivered (for_each inbox_apply evs b)))
      \<and> prefix (delivered b) (delivered (for_each inbox_apply evs b))" for b
  proof (induction evs rule: rev_induct)
    case (snoc e evs)
    then show ?case by (cases e) (auto simp: accept_def for_each_append prefix_def)
  qed simp
  from this [of "first_inbox stored up (tx_ds s)"] have "seen ?b = last (baseline stored up (tx_ds s) # delivered ?b)" by simp
  moreover have "log (tx_run C put link (evs @ [Link True, Publish m, VersionEvent, Wakeup]) s) =
      delivered (accept (?b\<lparr>readable := True, cur := m, dirty := False\<rparr>))"
    unfolding run_log [OF assms(1,2)] by (simp add: for_each_append)
  ultimately show ?thesis using assms(3) by (simp add: accept_def)
qed

theorem ds_transport_delivers_witness:
  "last ((''a'', ''b'', ''0'') # log (tx_run cell_client cell_put cell_link
      ([Publish (''x'', ''y'', ''1''), Wakeup] @ [Link True, Publish (''+1'', ''hi'', ''2''), VersionEvent, Wakeup])
      (cell_start (''a'', ''b'', ''0'') True))) = (''+1'', ''hi'', ''2'')"
  using ds_transport_delivers [OF cell_good, of "cell_start (''a'', ''b'', ''0'') True" "(''+1'', ''hi'', ''2'')"
      "[Publish (''x'', ''y'', ''1''), Wakeup]"]
  by (simp add: fresh_def cell_start_def baseline_def del: for_each.simps)

text \<open>
  The limits of the guard: only the last message is remembered, so a message that returns after
  another one is delivered a second time, although the source says that the same sender, text and
  time stamp are delivered exactly once; and of two messages published before one wake-up the first
  is never delivered.
\<close>

theorem ds_transport_guard_limits:
  assumes "good_store C stored up put link" "fresh s" "up (tx_ds s)" "deliverable a" "deliverable b"
    and "a \<noteq> b" "a \<noteq> stored (tx_ds s)" "b \<noteq> stored (tx_ds s)"
  shows "log (tx_run C put link [Publish a, VersionEvent, Wakeup, Publish b, VersionEvent, Wakeup,
        Publish a, VersionEvent, Wakeup] s) = [a, b, a]
    \<and> log (tx_run C put link [Publish a, VersionEvent, Publish b, VersionEvent, Wakeup, Wakeup] s) = [b]"
  using assms(3-8) unfolding run_log [OF assms(1,2)]
  by (simp add: accept_def baseline_def)

theorem ds_transport_guard_limits_witness:
  "log (tx_run cell_client cell_put cell_link [Publish (''+1'', ''A'', ''1''), VersionEvent, Wakeup,
      Publish (''+1'', ''B'', ''2''), VersionEvent, Wakeup,
      Publish (''+1'', ''A'', ''1''), VersionEvent, Wakeup] (cell_start ([], [], []) True))
   = [(''+1'', ''A'', ''1''), (''+1'', ''B'', ''2''), (''+1'', ''A'', ''1'')]"
  using ds_transport_guard_limits [OF cell_good, of "cell_start ([], [], []) True" "(''+1'', ''A'', ''1'')"
      "(''+1'', ''B'', ''2'')"]
  by (simp add: fresh_def cell_start_def del: for_each.simps)

end
