(* ===== verification/Zerotouchd.thy ===== *)
theory Zerotouchd
  imports Smsctl Ds_Sms_Transport Local_Gnmi_Sink Config_File
begin

text \<open>
  The daemon, \<open>daemon/zerotouchd.cpp\<close>: one data-store client, session store, gNMI backend and
  transport behind one bridge; configuration and users come from the store, and configuration
  changes apply while it runs.  The data-store client, \<open>smsctl\<close>, the JSON reader, the gNMI library
  and the network are parameters; \<open>'n\<close> is the world behind the gNMI connection.  Log lines and the
  statistics publisher are not modelled.
\<close>

text \<open>What opening and then writing a trigger file yields, per path.\<close>

type_synonym trigger_fs = "string \<Rightarrow> bool \<times> bool"

record 'd LiveWorld =
  lw_ds :: 'd
  lw_files :: "(string \<times> string) list"
  lw_reads :: nat

definition LiveSink :: "('d, 'v) ds_client \<Rightarrow> trigger_fs \<Rightarrow> timeofday \<Rightarrow> 'd LiveWorld DsSink" where
  "LiveSink C fs clk =
     \<lparr>ds_set = (\<lambda>key value w.
        let (good, d) = dc_set C [(key, v_of_string C value)] (lw_ds w) in (good, w\<lparr>lw_ds := d\<rparr>)),
      ds_get = (\<lambda>key w.
        let ((good, got), d) = dc_get C [key] (lw_ds w); w1 = w\<lparr>lw_ds := d\<rparr> in
        if \<not> good \<or> got = [] \<or> got ! 0 = None then (None, w1) else (v_string C (the (got ! 0)), w1)),
      ds_arm_trigger = (\<lambda>path content w.
        let (opens, good) = fs path in
        if \<not> opens then (False, w) else (good, w\<lparr>lw_files := lw_files w @ [(path, content)]\<rparr>)),
      ds_now_ms = (\<lambda>w.
        let (sec, usec) = clk (lw_reads w) in
        (sec * 1000 + usec div 1000, w\<lparr>lw_reads := lw_reads w + 1\<rparr>))\<rparr>"

record ('d, 'ss, 'n) ZeroTouchClient = "'d DsSmsTransport" +
  m_sessions :: 'ss
  m_sink :: SinkConfig
  m_enabled :: bool
  m_gnmi_port :: u16
  m_cfg_dirty :: bool
  m_handled :: u64
  m_files :: "(string \<times> string) list"
  m_net :: 'n

text \<open>\<open>nlohmann::json\<close>: an exception is \<^term>\<open>None\<close>; \<open>j_value u key dflt\<close> is \<open>u.value(key, dflt)\<close>.\<close>

record 'j json_lib =
  j_parse :: "string \<Rightarrow> 'j option"
  j_array :: "'j \<Rightarrow> 'j list option"
  j_is_object :: "'j \<Rightarrow> bool"
  j_value :: "'j \<Rightarrow> string \<Rightarrow> string \<Rightarrow> string option"

subsection \<open>Configuration\<close>

text \<open>The value of one key: the status is good, there is an answer, and it has a value.\<close>

definition ds_value :: "('d, 'v) ds_client \<Rightarrow> string \<Rightarrow> ('d, 'v option) eff" where
  "ds_value C key d =
     (let ((good, got), d1) = dc_get C [key] d in
      (if good \<and> got \<noteq> [] then got ! 0 else None, d1))"

definition get_str :: "('d, 'v) ds_client \<Rightarrow> string \<Rightarrow> ('d, string) eff" where
  "get_str C key d =
     (let (v, d1) = ds_value C key d in
      (case Option.bind v (v_string C) of Some s \<Rightarrow> s | None \<Rightarrow> [], d1))"

definition get_u32 :: "('d, 'v) ds_client \<Rightarrow> string \<Rightarrow> u32 \<Rightarrow> ('d, u32) eff" where
  "get_u32 C key dflt d =
     (let (v, d1) = ds_value C key d in
      (case Option.bind v (v_int32 C) of
         Some n \<Rightarrow> if 0 < n then word_of_int n else dflt
       | None \<Rightarrow> dflt, d1))"

definition get_bool :: "('d, 'v) ds_client \<Rightarrow> string \<Rightarrow> bool \<Rightarrow> ('d, bool) eff" where
  "get_bool C key dflt d =
     (let (v, d1) = ds_value C key d in
      (case Option.bind v (v_bool C) of Some b \<Rightarrow> b | None \<Rightarrow> dflt, d1))"

definition load_config_from_ds ::
  "('d, 'v) ds_client \<Rightarrow> ('ss, 'c, 'd LiveWorld) smsctl \<Rightarrow> ('d, 'ss, 'n) ZeroTouchClient
     \<Rightarrow> ('d, 'ss, 'n) ZeroTouchClient" where
  "load_config_from_ds C S s =
     (let (en, d1) = get_bool C ''zerotouch.enabled'' False (tx_ds s);
          (port, d2) = get_u32 C ''zerotouch.gnmi.port'' 50051 d1;
          (ttl, d3) = get_u32 C ''zerotouch.session.ttl.sec'' 600 d2;
          (fails, d4) = get_u32 C ''zerotouch.lockout.failures'' 5 d3;
          (lock, d5) = get_u32 C ''zerotouch.lockout.sec'' 900 d4;
          (nums, d6) = get_str C ''zerotouch.allowed.numbers'' d5
      in s\<lparr>tx_ds := d6, m_enabled := en, m_gnmi_port := ucast port,
           m_sink := (m_sink s)\<lparr>sc_port := ucast port\<rparr>,
           m_sessions := session_set_config S
             \<lparr>ss_session_ttl_sec = ttl, ss_lockout_failures = fails, ss_lockout_sec = lock,
              ss_allowed_numbers = split_csv nums\<rparr> (m_sessions s)\<rparr>)"

subsection \<open>Users\<close>

text \<open>The loop over the accounts array; an exception ends it without a result.\<close>

fun find_account :: "'j json_lib \<Rightarrow> string \<Rightarrow> 'j list \<Rightarrow> Account option" where
  "find_account J i [] = None"
| "find_account J i (u # us) =
     (if \<not> j_is_object J u then find_account J i us
      else
        (case j_value J u ''id'' [] of
           None \<Rightarrow> None
         | Some uid \<Rightarrow>
             if uid \<noteq> i then find_account J i us
             else
               (case (j_value J u ''hash'' [], j_value J u ''access'' ''Viewer'') of
                  (Some hash, Some access) \<Rightarrow>
                    if hash = [] then None
                    else Some \<lparr>acc_id = i, acc_hash = hash, acc_access = access\<rparr>
                | _ \<Rightarrow> None)))"

definition lookup_account :: "('d, 'v) ds_client \<Rightarrow> 'j json_lib \<Rightarrow> string \<Rightarrow> ('d, Account option) eff" where
  "lookup_account C J i d =
     (if i = ''admin'' then
        (let (v, d1) = ds_value C ''auth.users.admin.password.hash'' d in
         case Option.bind v (v_string C) of
           None \<Rightarrow> (None, d1)
         | Some h \<Rightarrow>
             if h = [] then (None, d1)
             else
               (let (a, d2) = ds_value C ''auth.users.admin.access'' d1 in
                (Some \<lparr>acc_id = ''admin'', acc_hash = h,
                       acc_access = (if Option.bind a (v_string C) = Some ''Viewer''
                                     then ''Viewer'' else ''Admin'')\<rparr>, d2)))
      else
        (let (v, d1) = ds_value C ''auth.users.accounts'' d in
         (case Option.bind v (v_string C) of
            None \<Rightarrow> None
          | Some txt \<Rightarrow>
              if txt = [] then None
              else
                (case Option.bind (j_parse J txt) (j_array J) of
                   None \<Rightarrow> None
                 | Some arr \<Rightarrow> find_account J i arr), d1)))"

subsection \<open>The callbacks of the bridge\<close>

definition sender_access ::
  "('ss, 'c, 'd LiveWorld) smsctl \<Rightarrow> timeofday \<Rightarrow> ('d, 'ss, 'n) ZeroTouchClient AuthFn" where
  "sender_access S clk sender s =
     (let ((sec, _), s1) = gettimeofday clk s;
          (acc, ss) = session S sender sec (m_sessions s1)
      in (account_access acc, s1\<lparr>m_sessions := ss\<rparr>))"

definition sender_allowed ::
  "('ss, 'c, 'd LiveWorld) smsctl \<Rightarrow> string \<Rightarrow> (('d, 'ss, 'n) ZeroTouchClient, bool) eff" where
  "sender_allowed S sender s = (m_enabled s \<and> session_sender_allowed S sender (m_sessions s), s)"

definition classic_batch ::
  "('d, 'v) ds_client \<Rightarrow> ('ss, 'c, 'd LiveWorld) smsctl \<Rightarrow> 'c \<Rightarrow> string \<Rightarrow> string \<Rightarrow> u64 \<Rightarrow> 'ss \<Rightarrow> u64
     \<Rightarrow> (string \<times> 'v) list" where
  "classic_batch C S cmd sender reply now ss handled =
     (let good = (take 2 reply = ''OK'') in
      [(''zerotouch.last.sender'', v_of_string C sender),
       (''zerotouch.last.cmd'', v_of_string C (keyword S cmd)),
       (''zerotouch.last.result'', v_of_string C (if good then ''ok'' else ''err'')),
       (''zerotouch.last.ts'', v_of_string C (to_string (uint now))),
       (''zerotouch.sessions'', v_of_string C (to_string (int (session_count S ss)))),
       (''zerotouch.version'', v_of_string C (to_string (uint handled)))])"

definition classic_reply ::
  "('d, 'v) ds_client \<Rightarrow> ('ss, 'c, 'd LiveWorld) smsctl \<Rightarrow> 'j json_lib \<Rightarrow> trigger_fs \<Rightarrow> timeofday
     \<Rightarrow> string \<Rightarrow> string \<Rightarrow> (('d, 'ss, 'n) ZeroTouchClient, string) eff" where
  "classic_reply C S J fs clk sender txt s =
     (let cmd = sms_parse S txt in
      if kind_of S cmd = NotACommand then ([], s)
      else
        (let ((sec, usec), s1) = gettimeofday clk s;
             s2 = s1\<lparr>m_handled := m_handled s1 + 1\<rparr>;
             seed = command_seed usec (m_handled s2);
             lookup = (\<lambda>i w. let (acc, d) = lookup_account C J i (lw_ds w) in (acc, w\<lparr>lw_ds := d\<rparr>));
             (reply, (ss, w)) =
               executor_handle S (LiveSink C fs clk) lookup cmd sender sec seed
                 (m_sessions s2, \<lparr>lw_ds = tx_ds s2, lw_files = m_files s2, lw_reads = tx_reads s2\<rparr>);
             (_, d) = dc_set_volatile C (classic_batch C S cmd sender reply sec ss (m_handled s2)) (lw_ds w)
         in (reply, s2\<lparr>tx_ds := d, tx_reads := lw_reads w, m_sessions := ss, m_files := lw_files w\<rparr>)))"

text \<open>The gNMI backend reads its configuration at every call, so a changed port applies at once.\<close>

definition daemon_sink ::
  "('p, 'v1, 'b) gnmi_lib \<Rightarrow> ('n, 'b) rpc \<Rightarrow> ('d, 'ss, 'n) ZeroTouchClient GnmiSink" where
  "daemon_sink lib call =
     \<lparr>sink_get = (\<lambda>xs s. let (r, n) = LocalGnmiSink_get lib call (m_sink s) xs (m_net s) in (r, s\<lparr>m_net := n\<rparr>)),
      sink_set = (\<lambda>us s. let (r, n) = LocalGnmiSink_set lib call (m_sink s) us (m_net s) in (r, s\<lparr>m_net := n\<rparr>))\<rparr>"

definition daemon_bridge ::
  "('d, 'v) ds_client \<Rightarrow> ('ss, 'c, 'd LiveWorld) smsctl \<Rightarrow> 'j json_lib \<Rightarrow> trigger_fs \<Rightarrow> timeofday
     \<Rightarrow> ('p, 'v1, 'b) gnmi_lib \<Rightarrow> ('n, 'b) rpc \<Rightarrow> ('d, 'ss, 'n) ZeroTouchClient Bridge" where
  "daemon_bridge C S J fs clk lib call =
     \<lparr>br_tx = DsSmsTransport C clk,
      br_gex = \<lparr>gx_sink = daemon_sink lib call, gx_auth = Some (sender_access S clk)\<rparr>,
      br_tok = Some (tokenize S), br_fallback = Some (classic_reply C S J fs clk),
      br_allow = Some (sender_allowed S)\<rparr>"

subsection \<open>Events of the running daemon\<close>

definition publish_state ::
  "('d, 'v) ds_client \<Rightarrow> ('ss, 'c, 'd LiveWorld) smsctl \<Rightarrow> ('d, 'ss, 'n) ZeroTouchClient
     \<Rightarrow> ('d, 'ss, 'n) ZeroTouchClient" where
  "publish_state C S s =
     s\<lparr>tx_ds := snd (dc_set_volatile C
       [(''zerotouch.state'', v_of_string C (if m_enabled s then ''listening'' else ''disabled'')),
        (''zerotouch.sessions'', v_of_string C (to_string (int (session_count S (m_sessions s)))))]
       (tx_ds s))\<rparr>"

definition handle_timeout ::
  "('d, 'v) ds_client \<Rightarrow> ('ss, 'c, 'd LiveWorld) smsctl \<Rightarrow> timeofday \<Rightarrow> ('d, 'ss, 'n) ZeroTouchClient
     \<Rightarrow> ('d, 'ss, 'n) ZeroTouchClient" where
  "handle_timeout C S clk s =
     (let ((sec, _), s1) = gettimeofday clk s;
          before = session_count S (m_sessions s1);
          s2 = s1\<lparr>m_sessions := session_sweep S sec (m_sessions s1)\<rparr>
      in if session_count S (m_sessions s2) \<noteq> before then publish_state C S s2 else s2)"

definition on_config_event :: "('d, 'ss, 'n) ZeroTouchClient \<Rightarrow> ('d, 'ss, 'n) ZeroTouchClient" where
  "on_config_event s = s\<lparr>m_cfg_dirty := True\<rparr>"

definition handle_exception ::
  "('d, 'v) ds_client \<Rightarrow> ('ss, 'c, 'd LiveWorld) smsctl \<Rightarrow> ('d, 'ss, 'n) ZeroTouchClient
     \<Rightarrow> ('d, 'ss, 'n) ZeroTouchClient" where
  "handle_exception C S s =
     (let cfg_dirty = m_cfg_dirty s; s1 = s\<lparr>m_cfg_dirty := False\<rparr>
      in if cfg_dirty then publish_state C S (load_config_from_ds C S s1) else s1)"

definition cfg_keys :: "string list" where
  "cfg_keys = [''zerotouch.enabled'', ''zerotouch.gnmi.port'', ''zerotouch.allowed.numbers'',
     ''zerotouch.session.ttl.sec'', ''zerotouch.lockout.failures'', ''zerotouch.lockout.sec'']"

text \<open>\<open>run\<close> up to the event loop: \<^term>\<open>Inl 1\<close> when the store cannot be reached.\<close>

definition run ::
  "('d, 'v) ds_client \<Rightarrow> ('ss, 'c, 'd LiveWorld) smsctl \<Rightarrow> 'j json_lib \<Rightarrow> trigger_fs \<Rightarrow> timeofday
     \<Rightarrow> ('p, 'v1, 'b) gnmi_lib \<Rightarrow> ('n, 'b) rpc \<Rightarrow> string \<Rightarrow> ('d, 'ss, 'n) ZeroTouchClient
     \<Rightarrow> int + ('d, 'ss, 'n) ZeroTouchClient" where
  "run C S J fs clk lib call ds_sock s =
     (let (good, d) = dc_connect C ds_sock (tx_ds s); s0 = s\<lparr>tx_ds := d\<rparr> in
      if \<not> good then Inl 1
      else
        (let s1 = load_config_from_ds C S s0;
             s2 = Bridge_start (daemon_bridge C S J fs clk lib call) s1;
             s3 = s2\<lparr>tx_ds := dc_watch C cfg_keys (tx_ds s2)\<rparr>;
             s4 = publish_state C S s3;
             (_, d5) = dc_set C [(''services.zerotouch.state'', v_of_string C ''running'')] (tx_ds s4)
         in Inr (s4\<lparr>tx_ds := d5\<rparr>)))"

subsection \<open>Who reaches the network\<close>

lemma daemon_send_net [simp]:
  "m_net (snd (DsSmsTransport_send C clk to txt s)) = m_net s"
  by (simp add: DsSmsTransport_send_def tx_now_ms_def gettimeofday_def Let_def split: prod.split)

lemma classic_reply_net [simp]: "m_net (snd (classic_reply C S J fs clk sender txt s)) = m_net s"
  by (simp add: classic_reply_def gettimeofday_def Let_def split: prod.split)

lemma daemon_after_auth_net:
  "m_net (after_auth \<lparr>gx_sink = k, gx_auth = Some (sender_access S clk)\<rparr> sender s) = m_net s"
  by (simp add: after_auth_def sender_access_def gettimeofday_def split: prod.split)

lemma daemon_access:
  "access_of \<lparr>gx_sink = k, gx_auth = Some (sender_access S clk)\<rparr> sender s =
     account_access (fst (session S sender (fst (clk (tx_reads s))) (m_sessions s)))"
  by (simp add: access_of_def sender_access_def gettimeofday_def split: prod.split)

lemma daemon_send_unless_empty_net [simp]:
  "m_net (send_unless_empty (daemon_bridge C S J fs clk lib call) to reply s) = m_net s"
  by (simp add: send_unless_empty_def daemon_bridge_def DsSmsTransport_def)

lemma daemon_gate:
  "gate (daemon_bridge C S J fs clk lib call) sender s =
     (m_enabled s \<and> session_sender_allowed S sender (m_sessions s), s)"
  by (simp add: gate_def daemon_bridge_def sender_allowed_def)

lemma daemon_route_net:
  assumes "m_net (snd (route (daemon_bridge C S J fs clk lib call) inb s)) \<noteq> m_net s"
  shows "permitted (cmd_kind (parse_gnmi (tokenize S (sms_text inb))))
    (account_access (fst (session S (sms_sender inb) (fst (clk (tx_reads s))) (m_sessions s))))"
proof -
  let ?g = "parse_gnmi (tokenize S (sms_text inb))"
  let ?x = "\<lparr>gx_sink = daemon_sink lib call, gx_auth = Some (sender_access S clk)\<rparr>"
  have r: "route (daemon_bridge C S J fs clk lib call) inb s =
      (if cmd_kind ?g \<noteq> NotGnmi then GnmiExecutor_handle ?x ?g (sms_sender inb) s
       else classic_reply C S J fs clk (sms_sender inb) (sms_text inb) s)"
    by (simp add: route_def daemon_bridge_def)
  show ?thesis
  proof (rule ccontr)
    assume no: "\<not> ?thesis"
    then have "snd (GnmiExecutor_handle ?x ?g (sms_sender inb) s) = after_auth ?x (sms_sender inb) s"
      by (auto simp: handle_unfold daemon_access permitted_def Let_def split: GnmiKind.split)
    with assms r show False by (auto simp: daemon_after_auth_net split: if_splits)
  qed
qed

text \<open>
  C15.  Who reaches the gNMI server through the daemon: whatever the libraries do, handling an SMS
  changes the world behind the gNMI connection only when the service is enabled, the sender is on
  the allowlist, the text is a gNMI command, and the sender's session carries the access the
  command needs: a session for GET, an Admin session for SET.
\<close>

theorem daemon_gnmi_needs_session:
  assumes "m_net (Bridge_on_sms (daemon_bridge C S J fs clk lib call) inb s) \<noteq> m_net s"
  shows "m_enabled s \<and> session_sender_allowed S (sms_sender inb) (m_sessions s)
    \<and> permitted (cmd_kind (parse_gnmi (tokenize S (sms_text inb))))
        (account_access (fst (session S (sms_sender inb) (fst (clk (tx_reads s))) (m_sessions s))))"
proof -
  let ?br = "daemon_bridge C S J fs clk lib call"
  have e: "Bridge_on_sms ?br inb s =
      (if m_enabled s \<and> session_sender_allowed S (sms_sender inb) (m_sessions s)
       then send_unless_empty ?br (sms_sender inb) (fst (route ?br inb s)) (snd (route ?br inb s)) else s)"
    by (simp add: on_sms_gate_route daemon_gate split: prod.split)
  with assms have "m_enabled s \<and> session_sender_allowed S (sms_sender inb) (m_sessions s)"
    and "m_net (snd (route ?br inb s)) \<noteq> m_net s"
    by (auto split: if_splits)
  with daemon_route_net show ?thesis by blast
qed

text \<open>
  An instance of the parameters: a store of texts, a reader that finds no accounts, and a network
  that counts its calls.
\<close>

definition kv_client :: "((string \<times> string) list, string) ds_client" where
  "kv_client =
     \<lparr>dc_connect = (\<lambda>_ d. (True, d)), dc_get = (\<lambda>ks d. ((True, map (map_of d) ks), d)),
      dc_set = (\<lambda>kvs d. (True, rev kvs @ d)), dc_set_volatile = (\<lambda>kvs d. (True, rev kvs @ d)),
      dc_watch = (\<lambda>_ d. d), v_string = Some, v_int32 = stoi,
      v_bool = (\<lambda>s. if s = ''true'' then Some True else if s = ''false'' then Some False else None),
      v_of_string = (\<lambda>s. s)\<rparr>"

definition no_json :: "unit json_lib" where
  "no_json = \<lparr>j_parse = (\<lambda>_. None), j_array = (\<lambda>_. None), j_is_object = (\<lambda>_. False),
              j_value = (\<lambda>_ _ _. None)\<rparr>"

definition counting_call :: "(nat, wire) rpc" where
  "counting_call host port method pb n = (\<lparr>rr_status = 14, rr_message = [], rr_body = WEmpty\<rparr>, n + 1)"

definition idle_daemon :: "(string \<times> string) list \<Rightarrow> bool \<Rightarrow> ((string \<times> string) list, unit, nat) ZeroTouchClient" where
  "idle_daemon d en =
     \<lparr>tx_ds = d, tx_reads = 0, m_sms_dirty = False, m_seen_sender = [], m_seen_text = [], m_seen_ts = [],
      m_sessions = (), m_sink = default_sink_config, m_enabled = en, m_gnmi_port = 50051,
      m_cfg_dirty = False, m_handled = 0, m_files = [], m_net = 0\<rparr>"

definition get_sms :: InboundSms where
  "get_sms = \<lparr>sms_sender = ''+15551230000'', sms_text = ''IOT GNMI GET /a'', sms_ts = []\<rparr>"

theorem daemon_gnmi_needs_session_witness:
  "permitted (cmd_kind (parse_gnmi (tokenize (demo_smsctl :: (unit, unit, nat) smsctl) ''IOT GNMI GET /a''))) Admin"
proof -
  have "m_net (Bridge_on_sms (daemon_bridge kv_client demo_smsctl no_json (\<lambda>_. (True, True)) (\<lambda>_. (0, 0))
      plain_lib counting_call) get_sms (idle_daemon [] True)) \<noteq> m_net (idle_daemon [] True)"
    by code_simp
  from daemon_gnmi_needs_session [OF this] show ?thesis
    by (simp add: get_sms_def demo_smsctl_def account_access_def)
qed

lemma daemon_disabled_on_sms:
  assumes "\<not> (m_enabled s \<and> session_sender_allowed S (sms_sender inb) (m_sessions s))"
  shows "Bridge_on_sms (daemon_bridge C S J fs clk lib call) inb s = s"
  using assms by (auto simp: on_sms_gate_route daemon_gate)

subsection \<open>Configuration from the store\<close>

text \<open>Reads of single keys return the values \<open>val d\<close> and leave the store alone.\<close>

definition plain_reads :: "('d, 'v) ds_client \<Rightarrow> ('d \<Rightarrow> string \<Rightarrow> 'v option) \<Rightarrow> bool" where
  "plain_reads C val \<longleftrightarrow> (\<forall>k d. ds_value C k d = (val d k, d))"

lemma load_config_plain:
  assumes "plain_reads C val"
  shows "load_config_from_ds C S s = s\<lparr>
    m_enabled := (Option.bind (val (tx_ds s) ''zerotouch.enabled'') (v_bool C) = Some True),
    m_gnmi_port := ucast (fst (get_u32 C ''zerotouch.gnmi.port'' 50051 (tx_ds s))),
    m_sink := (m_sink s)\<lparr>sc_port := ucast (fst (get_u32 C ''zerotouch.gnmi.port'' 50051 (tx_ds s)))\<rparr>,
    m_sessions := session_set_config S
      \<lparr>ss_session_ttl_sec = fst (get_u32 C ''zerotouch.session.ttl.sec'' 600 (tx_ds s)),
       ss_lockout_failures = fst (get_u32 C ''zerotouch.lockout.failures'' 5 (tx_ds s)),
       ss_lockout_sec = fst (get_u32 C ''zerotouch.lockout.sec'' 900 (tx_ds s)),
       ss_allowed_numbers = split_csv (fst (get_str C ''zerotouch.allowed.numbers'' (tx_ds s)))\<rparr>
      (m_sessions s)\<rparr>"
  using assms
  by (auto simp: load_config_from_ds_def get_bool_def get_u32_def get_str_def plain_reads_def
      split: option.split)

lemma get_u32_plain:
  "plain_reads C val \<Longrightarrow> get_u32 C k dflt d =
     (case Option.bind (val d k) (v_int32 C) of Some n \<Rightarrow> if 0 < n then word_of_int n else dflt | None \<Rightarrow> dflt, d)"
  by (simp add: get_u32_def plain_reads_def)

text \<open>
  Configuration changes apply while the daemon runs: after a configuration event the next
  wake-up of the reactor leaves the daemon enabled exactly when the store says so now (absent,
  unreadable or not a truth value means disabled), with the gNMI backend on the configured port
  (50051 when the store has no positive number), and the published state naming the result.  The
  backend's host, roles and deny tokens never come from the store.
\<close>

theorem daemon_hot_config:
  assumes "plain_reads C val"
  shows "let s' = handle_exception C S (on_config_event s) in
    m_enabled s' = (Option.bind (val (tx_ds s) ''zerotouch.enabled'') (v_bool C) = Some True)
    \<and> m_sink s' = (m_sink s)\<lparr>sc_port := ucast
         (case Option.bind (val (tx_ds s) ''zerotouch.gnmi.port'') (v_int32 C) of
            Some n \<Rightarrow> if 0 < n then word_of_int n else (50051 :: u32) | None \<Rightarrow> 50051)\<rparr>
    \<and> \<not> m_cfg_dirty s'
    \<and> tx_ds s' = snd (dc_set_volatile C
         [(''zerotouch.state'', v_of_string C (if m_enabled s' then ''listening'' else ''disabled'')),
          (''zerotouch.sessions'', v_of_string C (to_string (int (session_count S (m_sessions s')))))]
         (tx_ds s))"
  by (simp add: handle_exception_def on_config_event_def publish_state_def load_config_plain [OF assms]
      get_u32_plain [OF assms] Let_def)

theorem daemon_hot_config_witness:
  "m_enabled (handle_exception kv_client demo_smsctl (on_config_event
     (idle_daemon [(''zerotouch.enabled'', ''true'')] False)))"
proof -
  have "plain_reads kv_client map_of"
    by (simp add: plain_reads_def ds_value_def kv_client_def)
  from daemon_hot_config [OF this, of demo_smsctl "idle_daemon [(''zerotouch.enabled'', ''true'')] False"]
  show ?thesis by (simp add: Let_def idle_daemon_def kv_client_def)
qed

subsection \<open>Accounts\<close>

lemma find_account_ok: "find_account J i us = Some a \<Longrightarrow> acc_id a = i \<and> acc_hash a \<noteq> []"
  by (induction J i us rule: find_account.induct) (auto split: if_splits option.splits)

text \<open>
  An account the daemon resolves carries the id asked for and a non-empty password hash, so an
  account without a password never logs in; and the account of \<open>admin\<close> comes from its own keys alone.
\<close>

lemma lookup_account_ok:
  assumes "lookup_account C J i d = (Some a, d')"
  shows "acc_id a = i \<and> acc_hash a \<noteq> []
    \<and> lookup_account C J' ''admin'' d = lookup_account C J ''admin'' d"
  using assms find_account_ok
  by (auto simp: lookup_account_def Let_def split: if_splits option.splits prod.splits)

end
