(* ===== verification/Daemon_Events.thy ===== *)
theory Daemon_Events
  imports Zerotouchd
begin

text \<open>
  The running daemon as a state machine: the events of its reactor and of the data store's listener
  thread (\<open>daemon/zerotouchd.cpp\<close>, \<open>src/ds_sms_transport.cpp\<close>), in any order, while other processes
  write to the store.  \<open>stores d\<close> says which contents those processes may leave there.
\<close>

record ('d, 'v, 'ss, 'c, 'j, 'p, 'w, 'b, 'n) daemon_env =
  de_client :: "('d, 'v) ds_client"
  de_smsctl :: "('ss, 'c, 'd LiveWorld) smsctl"
  de_json :: "'j json_lib"
  de_files :: trigger_fs
  de_clock :: timeofday
  de_gnmi :: "('p, 'w, 'b) gnmi_lib"
  de_rpc :: "('n, 'b) rpc"

definition de_bridge ::
  "('d, 'v, 'ss, 'c, 'j, 'p, 'w, 'b, 'n) daemon_env \<Rightarrow> ('d, 'ss, 'n) ZeroTouchClient Bridge" where
  "de_bridge E = daemon_bridge (de_client E) (de_smsctl E) (de_json E) (de_files E) (de_clock E) (de_gnmi E) (de_rpc E)"

inductive daemon_step ::
  "('d, 'v, 'ss, 'c, 'j, 'p, 'w, 'b, 'n) daemon_env \<Rightarrow> ('d \<Rightarrow> bool)
     \<Rightarrow> ('d, 'ss, 'n) ZeroTouchClient \<Rightarrow> ('d, 'ss, 'n) ZeroTouchClient \<Rightarrow> bool"
  for E and stores where
  store: "stores d \<Longrightarrow> daemon_step E stores s (s\<lparr>tx_ds := d\<rparr>)"
| sms_event: "daemon_step E stores s (on_version_event s)"
| cfg_event: "daemon_step E stores s (on_config_event s)"
| sms_wake: "daemon_step E stores s (tx_handle_exception (de_client E) (Some (Bridge_on_sms (de_bridge E))) s)"
| cfg_wake: "daemon_step E stores s (handle_exception (de_client E) (de_smsctl E) s)"
| tick: "daemon_step E stores s (handle_timeout (de_client E) (de_smsctl E) (de_clock E) s)"

inductive_simps daemon_step_simps: "daemon_step E stores s s'"

text \<open>
  What the inertness relies on: \<open>off\<close> describes stores whose enable key does not read as true; reading
  keeps a store so, and so does publishing keys other than the enable key.
\<close>

definition keeps_off :: "('d, 'v) ds_client \<Rightarrow> ('d \<Rightarrow> bool) \<Rightarrow> bool" where
  "keeps_off C off \<longleftrightarrow>
     (\<forall>d. off d \<longrightarrow> \<not> fst (get_bool C ''zerotouch.enabled'' False d))
     \<and> (\<forall>ks d. off d \<longrightarrow> off (snd (dc_get C ks d)))
     \<and> (\<forall>kvs d. off d \<longrightarrow> ''zerotouch.enabled'' \<notin> fst ` set kvs \<longrightarrow> off (snd (dc_set_volatile C kvs d)))"

lemma ds_value_off: "keeps_off C off \<Longrightarrow> off d \<Longrightarrow> off (snd (ds_value C k d))"
  by (auto simp: keeps_off_def ds_value_def split: prod.split) (metis snd_conv)

lemma get_off:
  "keeps_off C off \<Longrightarrow> off d \<Longrightarrow> off (snd (get_u32 C k n d))"
  "keeps_off C off \<Longrightarrow> off d \<Longrightarrow> off (snd (get_bool C k b d))"
  "keeps_off C off \<Longrightarrow> off d \<Longrightarrow> off (snd (get_str C k d))"
  using ds_value_off [of C off d k]
  by (auto simp: get_u32_def get_bool_def get_str_def split: prod.split)

lemma read_last_off: "keeps_off C off \<Longrightarrow> off d \<Longrightarrow> off (snd (read_last C d))"
  by (auto simp: keeps_off_def read_last_def Let_def split: prod.split) (metis snd_conv)+

text \<open>The part of the daemon that acts: the network, trigger files and the count of commands run.\<close>

definition effects :: "('d, 'ss, 'n) ZeroTouchClient \<Rightarrow> 'n \<times> (string \<times> string) list \<times> u64" where
  "effects s = (m_net s, m_files s, m_handled s)"

definition idle :: "('d \<Rightarrow> bool) \<Rightarrow> ('d, 'ss, 'n) ZeroTouchClient \<Rightarrow> bool" where
  "idle off s \<longleftrightarrow> \<not> m_enabled s \<and> off (tx_ds s)"

lemma publish_idle:
  "keeps_off C off \<Longrightarrow> idle off s \<Longrightarrow> idle off (publish_state C S s) \<and> effects (publish_state C S s) = effects s"
  by (auto simp: keeps_off_def publish_state_def idle_def effects_def)

lemma load_idle:
  assumes "keeps_off C off" "off (tx_ds s)"
  shows "idle off (load_config_from_ds C S s) \<and> effects (load_config_from_ds C S s) = effects s"
proof -
  obtain en d1 where 1: "get_bool C ''zerotouch.enabled'' False (tx_ds s) = (en, d1)" by fastforce
  obtain port d2 where 2: "get_u32 C ''zerotouch.gnmi.port'' 50051 d1 = (port, d2)" by fastforce
  obtain ttl d3 where 3: "get_u32 C ''zerotouch.session.ttl.sec'' 600 d2 = (ttl, d3)" by fastforce
  obtain fails d4 where 4: "get_u32 C ''zerotouch.lockout.failures'' 5 d3 = (fails, d4)" by fastforce
  obtain lock d5 where 5: "get_u32 C ''zerotouch.lockout.sec'' 900 d4 = (lock, d5)" by fastforce
  obtain nums d6 where 6: "get_str C ''zerotouch.allowed.numbers'' d5 = (nums, d6)" by fastforce
  have "\<not> en" using assms 1 by (metis fst_conv keeps_off_def)
  moreover have "off d6" using get_off [OF assms(1)] assms(2) 1 2 3 4 5 6 by (metis snd_conv)
  ultimately show ?thesis by (simp add: load_config_from_ds_def 1 2 3 4 5 6 idle_def effects_def)
qed

lemma sms_wake_idle:
  assumes "keeps_off C off" "idle off s"
    and "\<And>x t. \<not> m_enabled t \<Longrightarrow> f x t = t"
  shows "idle off (tx_handle_exception C (Some f) s) \<and> effects (tx_handle_exception C (Some f) s) = effects s"
proof -
  obtain l d where "read_last C (tx_ds s) = (l, d)" by fastforce
  moreover have "off d" using read_last_off [OF assms(1)] assms(2) calculation by (metis idle_def snd_conv)
  ultimately show ?thesis using assms(2,3)
    by (auto simp: tx_handle_exception_def drain_inbound_def idle_def effects_def Let_def split: option.split)
qed

lemma idle_step:
  assumes "daemon_step E stores s s'" "keeps_off (de_client E) off" "\<forall>d. stores d \<longrightarrow> off d" "idle off s"
  shows "idle off s' \<and> effects s' = effects s"
  using assms(1)
proof cases
  case sms_wake
  then show ?thesis using sms_wake_idle [OF assms(2,4)] by (simp add: de_bridge_def daemon_disabled_on_sms)
next
  case cfg_wake
  let ?s = "s\<lparr>m_cfg_dirty := False\<rparr>"
  have "idle off (load_config_from_ds (de_client E) (de_smsctl E) ?s)
      \<and> effects (load_config_from_ds (de_client E) (de_smsctl E) ?s) = effects ?s"
    using assms(2,4) by (intro load_idle) (auto simp: idle_def)
  moreover have "idle off ?s" "effects ?s = effects s" using assms(4) by (auto simp: idle_def effects_def)
  ultimately show ?thesis by (simp add: publish_idle [OF assms(2)] cfg_wake handle_exception_def Let_def)
next
  case tick
  obtain sec usec where c: "de_clock E (tx_reads s) = (sec, usec)" by fastforce
  have "idle off (s\<lparr>tx_reads := n, m_sessions := q\<rparr>) \<and> effects (s\<lparr>tx_reads := n, m_sessions := q\<rparr>) = effects s" for n q
    using assms(4) by (simp add: idle_def effects_def)
  then show ?thesis by (simp add: publish_idle [OF assms(2)] tick handle_timeout_def gettimeofday_def c Let_def)
qed (use assms(3,4) in \<open>auto simp: idle_def effects_def on_version_event_def on_config_event_def\<close>)

text \<open>
  C14. The daemon is inert until the store enables it: started disabled, it stays disabled through any
  sequence of messages, configuration events, wake-ups and timer ticks, as long as no other process
  sets the enable key; over the whole sequence it makes no gNMI call, arms no trigger file and
  executes no command, whatever arrives by SMS.
\<close>

theorem daemon_inert_until_enabled:
  assumes "(daemon_step E stores)\<^sup>*\<^sup>* s s'" "keeps_off (de_client E) off" "\<forall>d. stores d \<longrightarrow> off d"
    and "\<not> m_enabled s" "off (tx_ds s)"
  shows "\<not> m_enabled s' \<and> m_net s' = m_net s \<and> m_files s' = m_files s \<and> m_handled s' = m_handled s"
proof -
  have "idle off s' \<and> effects s' = effects s"
    using assms(1)
  proof (induction rule: rtranclp_induct)
    case base
    then show ?case using assms(4,5) by (simp add: idle_def)
  next
    case (step y z)
    then show ?case using idle_step [OF step.hyps(2) assms(2,3)] by simp
  qed
  then show ?thesis by (simp add: idle_def effects_def)
qed

definition ex_env :: "((string \<times> string) list, string, unit, unit, unit, string, string, wire, nat) daemon_env" where
  "ex_env = \<lparr>de_client = kv_client, de_smsctl = demo_smsctl, de_json = no_json, de_files = (\<lambda>_. (True, True)),
     de_clock = (\<lambda>_. (0, 0)), de_gnmi = plain_lib, de_rpc = counting_call\<rparr>"

definition no_enable :: "(string \<times> string) list \<Rightarrow> bool" where
  "no_enable d \<longleftrightarrow> map_of d ''zerotouch.enabled'' \<noteq> Some ''true''"

lemma kv_keeps_off: "keeps_off kv_client no_enable"
proof -
  have "map_of (rev kvs) ''zerotouch.enabled'' = None" if "''zerotouch.enabled'' \<notin> fst ` set kvs" for kvs :: "(string \<times> string) list"
    using that by (simp add: map_of_eq_None_iff)
  then show ?thesis
    by (auto simp: keeps_off_def no_enable_def kv_client_def get_bool_def ds_value_def map_add_def bind_eq_Some_conv
        split: option.split if_splits)
qed

text \<open>A gNMI command arrives by SMS: it is stored, announced, and the daemon wakes up.\<close>

definition ex_store :: "(string \<times> string) list" where
  "ex_store = [(''sms.last.sender'', ''+15551230000''), (''sms.last.text'', ''IOT GNMI GET /a''), (''sms.last.ts'', ''1'')]"

lemma ex_run:
  "(daemon_step ex_env no_enable)\<^sup>*\<^sup>* (idle_daemon [] False)
     (tx_handle_exception kv_client (Some (Bridge_on_sms (de_bridge ex_env)))
       (on_version_event ((idle_daemon [] False)\<lparr>tx_ds := ex_store\<rparr>)))"
proof -
  have "no_enable ex_store" by (simp add: no_enable_def ex_store_def)
  then have "(daemon_step ex_env no_enable)\<^sup>*\<^sup>* (idle_daemon [] False) ((idle_daemon [] False)\<lparr>tx_ds := ex_store\<rparr>)"
    by (intro r_into_rtranclp daemon_step.store)
  moreover have "daemon_step ex_env no_enable s (on_version_event s)" for s by (rule daemon_step.sms_event)
  moreover have "daemon_step ex_env no_enable s
      (tx_handle_exception kv_client (Some (Bridge_on_sms (de_bridge ex_env))) s)" for s
    using daemon_step.sms_wake [of ex_env no_enable s] by (simp add: ex_env_def)
  ultimately show ?thesis by (meson rtranclp.rtrancl_into_rtrancl)
qed

theorem daemon_inert_until_enabled_witness:
  "m_net (tx_handle_exception kv_client (Some (Bridge_on_sms (de_bridge ex_env)))
       (on_version_event ((idle_daemon [] False)\<lparr>tx_ds := ex_store\<rparr>))) = 0"
proof -
  have "keeps_off (de_client ex_env) no_enable" using kv_keeps_off by (simp add: ex_env_def)
  from daemon_inert_until_enabled [OF ex_run this] show ?thesis
    by (simp add: idle_daemon_def no_enable_def)
qed

end
