(* ===== verification/Provisioning.thy ===== *)
theory Provisioning
  imports Smsctl Gnmi_Simd
begin

text \<open>
  What the daemon and the appliance share: a bridge (\<open>src/bridge.cpp\<close>) whose gNMI executor works on the
  production backend (\<open>src/local_gnmi_sink.cpp\<close>).  The interface \<open>provisioning\<close> says what such a program
  promises of its wiring; under it one SMS of an administrator has exactly one effect on the server
  and one reply, and what was set by one SMS is read back by a later one.
\<close>

text \<open>What the backend makes of a command, and the reply to it.\<close>

definition gnmi_answer ::
  "('p, 'v, 'b) gnmi_lib \<Rightarrow> ('n, 'b) rpc \<Rightarrow> SinkConfig \<Rightarrow> GnmiCommand \<Rightarrow> 'n \<Rightarrow> string \<times> 'n" where
  "gnmi_answer lib call cfg g n =
     (if cmd_kind g = Set
      then map_prod (\<lambda>r. format_set r (length (cmd_updates g))) id (LocalGnmiSink_set lib call cfg (cmd_updates g) n)
      else map_prod format_get id (LocalGnmiSink_get lib call cfg (cmd_xpaths g) n))"

abbreviation set_cmd :: "(string \<times> string) list \<Rightarrow> GnmiCommand" where
  "set_cmd us \<equiv> empty_command\<lparr>cmd_kind := Set, cmd_updates := us\<rparr>"

abbreviation get_cmd :: "string list \<Rightarrow> GnmiCommand" where
  "get_cmd xs \<equiv> empty_command\<lparr>cmd_kind := Get, cmd_xpaths := xs\<rparr>"

definition set_ack :: "nat \<Rightarrow> string" where
  "set_ack n = clamp_reply (''OK GNMI SET '' @ to_string (int n) @ '' path(s) updated'')"

definition get_value :: "string \<Rightarrow> string \<Rightarrow> string" where
  "get_value x v = clamp_reply (''OK GNMI GET '' @ x @ ''='' @ v)"

lemma answer_set:
  assumes "codec_ok lib" "served_by lib clk call" "\<forall>xv \<in> set us. text_ok lib xv" "sc_set_role cfg = ''ADMIN''"
  obtains t' where "gnmi_answer lib call cfg (set_cmd us) t = (set_ack (length us), t')"
    "tree_map t' = tree_map t ++ map_of (rev us)"
proof -
  obtain r t' where set: "LocalGnmiSink_set lib call cfg us t = (r, t')" by fastforce
  from local_set_admin [OF assms set] have "res_ok r" "tree_map t' = tree_map t ++ map_of (rev us)" by simp_all
  with set show ?thesis by (intro that [of t']) (simp_all add: gnmi_answer_def format_set_def set_ack_def)
qed

lemma answer_get:
  assumes "codec_ok lib" "served_by lib clk call" "text_ok lib (x, v)" "tree_map t x = Some v"
    and "\<not> is_sensitive_path x (deny_of cfg)"
  shows "gnmi_answer lib call cfg (get_cmd [x]) t = (get_value x v, t)"
  using local_get_leaf [OF assms] by (simp add: gnmi_answer_def format_get_def row_text_def get_value_def)

text \<open>
  A sender on the allowlist whose session gives administrator access at every reading of the clock;
  \<open>good\<close> describes the session stores in which this is so, and looking a session up keeps it.
\<close>

definition admin_in :: "('ss, 'c, 'd) smsctl \<Rightarrow> (nat \<Rightarrow> u64) \<Rightarrow> string \<Rightarrow> ('ss \<Rightarrow> bool) \<Rightarrow> bool" where
  "admin_in S clk sender good \<longleftrightarrow>
     (\<forall>ss i. good ss \<longrightarrow> session_sender_allowed S sender ss
        \<and> account_access (fst (session S sender (clk i) ss)) = Admin
        \<and> good (snd (session S sender (clk i) ss)))"

lemma admin_in_session:
  assumes "admin_in S clk sender good" "good ss"
  obtains acc ss' where "session S sender (clk i) ss = (acc, ss')" "account_access acc = Admin" "good ss'"
  using assms that by (metis admin_in_def prod.collapse)

lemma admin_in_allowed: "admin_in S clk sender good \<Longrightarrow> good ss \<Longrightarrow> session_sender_allowed S sender ss"
  by (simp add: admin_in_def)

text \<open>The session outlives the sweeps at the clock's readings.\<close>

definition outlives_sweeps :: "('ss, 'c, 'd) smsctl \<Rightarrow> (nat \<Rightarrow> u64) \<Rightarrow> ('ss \<Rightarrow> bool) \<Rightarrow> bool" where
  "outlives_sweeps S clk good \<longleftrightarrow> (\<forall>ss i. good ss \<longrightarrow> good (session_sweep S (clk i) ss))"

subsection \<open>The interface\<close>

text \<open>The state when the reply is handed to the transport: the session was looked up, the backend has run.\<close>

definition handled :: "'w Bridge \<Rightarrow> ('n \<Rightarrow> 'w \<Rightarrow> 'w) \<Rightarrow> string \<Rightarrow> 'n \<Rightarrow> 'w \<Rightarrow> 'w" where
  "handled br set_net sender n w = set_net n (after_auth (br_gex br) sender w)"

text \<open>
  \<open>net\<close> is the part of the program's state \<open>'w\<close> behind the gNMI connection, \<open>cfg\<close> the configuration of
  the backend, and \<open>admin sender\<close> describes the states in which the service is on and the sender is
  allowed and logged in as an administrator.
\<close>

locale provisioning =
  fixes br :: "'w Bridge"
    and tok :: "string \<Rightarrow> string list"
    and lib :: "('p, 'v, 'b) gnmi_lib"
    and call :: "('n, 'b) rpc"
    and cfg :: "'w \<Rightarrow> SinkConfig"
    and net :: "'w \<Rightarrow> 'n"
    and set_net :: "'n \<Rightarrow> 'w \<Rightarrow> 'w"
    and admin :: "string \<Rightarrow> 'w \<Rightarrow> bool"
  assumes tokenizer: "br_tok br = Some tok"
    and gate_open: "admin sender w \<Longrightarrow> gate br sender w = (True, w)"
    and admin_access: "admin sender w \<Longrightarrow> access_of (br_gex br) sender w = Admin"
    and admin_stays: "admin sender w \<Longrightarrow> admin sender (after_auth (br_gex br) sender w)"
    and auth_net: "net (after_auth (br_gex br) sender w) = net w"
    and auth_cfg: "cfg (after_auth (br_gex br) sender w) = cfg w"
    and get_local: "sink_get (gx_sink (br_gex br)) xs w =
      (let (r, n) = LocalGnmiSink_get lib call (cfg w) xs (net w) in (r, set_net n w))"
    and set_local: "sink_set (gx_sink (br_gex br)) us w =
      (let (r, n) = LocalGnmiSink_set lib call (cfg w) us (net w) in (r, set_net n w))"
    and net_set_net: "net (set_net n w) = n"
    and cfg_set_net: "cfg (set_net n w) = cfg w"
    and admin_set_net: "admin sender (set_net n w) = admin sender w"
begin

lemma handled_net: "net (handled br set_net sender n w) = n"
  by (simp add: handled_def net_set_net)

lemma handled_cfg: "cfg (handled br set_net sender n w) = cfg w"
  by (simp add: handled_def cfg_set_net auth_cfg)

lemma handled_admin: "admin sender w \<Longrightarrow> admin sender (handled br set_net sender n w)"
  by (simp add: handled_def admin_set_net admin_stays)

lemma handle_admin:
  assumes "admin sender w" "cmd_kind g \<in> {Get, Set}" "gnmi_answer lib call (cfg w) g (net w) = (reply, n)"
  shows "GnmiExecutor_handle (br_gex br) g sender w = (reply, handled br set_net sender n w)"
  using assms(2,3)
  by (auto simp: handle_unfold admin_access [OF assms(1)] permitted_def get_local set_local auth_net auth_cfg
      gnmi_answer_def handled_def Let_def split: prod.splits)

text \<open>One message: the reply is handed to the transport, and the server has what the command made of it.\<close>

lemma on_sms_answered:
  assumes "admin (sms_sender inb) w" "parse_gnmi (tok (sms_text inb)) = g" "cmd_kind g \<in> {Get, Set}"
    and "gnmi_answer lib call (cfg w) g (net w) = (reply, n)"
  shows "Bridge_on_sms br inb w = snd (tx_send (br_tx br) (sms_sender inb) reply (handled br set_net (sms_sender inb) n w))"
proof -
  have h: "GnmiExecutor_handle (br_gex br) g (sms_sender inb) w = (reply, handled br set_net (sms_sender inb) n w)"
    by (rule handle_admin [OF assms(1,3,4)])
  then have "reply \<noteq> []" using handle_empty_iff [of "br_gex br" g "sms_sender inb" w] assms(3) by auto
  moreover have "route br inb w = (reply, handled br set_net (sms_sender inb) n w)"
    using h assms(2,3) by (auto simp: route_def tokenizer)
  ultimately show ?thesis by (simp add: on_sms_gate_route gate_open [OF assms(1)] send_unless_empty_def)
qed

end

end
