(* ===== verification/Daemon_Conversation.thy ===== *)
theory Daemon_Conversation
  imports Daemon_Events Provisioning
begin

text \<open>
  The daemon end to end: an SMS that another process leaves in the data store travels through the
  watch, the transport (\<open>src/ds_sms_transport.cpp\<close>), the bridge, the executor and the production gNMI
  backend (\<open>src/local_gnmi_sink.cpp\<close>) to the handlers of the simulated server
  (\<open>sim/zt_gnmi_simd.cpp\<close>), and the answer comes back in \<open>sms.send.*\<close>.  What is behind the gNMI
  connection is the server's tree.
\<close>

subsection \<open>The store as a map\<close>

text \<open>
  What the conversation relies on of the data store: a read returns one value per key and changes
  nothing, a write is accepted and replaces the values of its keys, the later one of a key given
  twice, and a text stored is a text read.  \<open>val d\<close> is the contents of the store \<open>d\<close>.
\<close>

definition plain_store :: "('d, 'v) ds_client \<Rightarrow> ('d \<Rightarrow> string \<Rightarrow> 'v option) \<Rightarrow> bool" where
  "plain_store C val \<longleftrightarrow>
     (\<forall>ks d. fst (dc_get C ks d) = (True, map (val d) ks) \<and> val (snd (dc_get C ks d)) = val d)
     \<and> (\<forall>kvs d. fst (dc_set C kvs d) \<and> val (snd (dc_set C kvs d)) = val d ++ map_of (rev kvs))
     \<and> (\<forall>t. v_string C (v_of_string C t) = Some t)"

definition text_of :: "('d, 'v) ds_client \<Rightarrow> ('d \<Rightarrow> string \<Rightarrow> 'v option) \<Rightarrow> 'd \<Rightarrow> string \<Rightarrow> string option" where
  "text_of C val d k = Option.bind (val d k) (v_string C)"

definition holds_sms :: "('d, 'v) ds_client \<Rightarrow> ('d \<Rightarrow> string \<Rightarrow> 'v option) \<Rightarrow> 'd \<Rightarrow> sms3 \<Rightarrow> bool" where
  "holds_sms C val d m \<longleftrightarrow>
     text_of C val d ''sms.last.sender'' = Some (fst m)
     \<and> text_of C val d ''sms.last.text'' = Some (fst (snd m))
     \<and> text_of C val d ''sms.last.ts'' = Some (snd (snd m))"

text \<open>The message the daemon leaves to the SMS service: addressee and text.\<close>

definition outbox :: "('d, 'v) ds_client \<Rightarrow> ('d \<Rightarrow> string \<Rightarrow> 'v option) \<Rightarrow> 'd \<Rightarrow> string option \<times> string option" where
  "outbox C val d = (text_of C val d ''sms.send.to'', text_of C val d ''sms.send.text'')"

definition seen_of :: "('d, 'z) DsSmsTransport_scheme \<Rightarrow> sms3" where
  "seen_of s = (m_seen_sender s, m_seen_text s, m_seen_ts s)"

lemma plain_get:
  assumes "plain_store C val"
  obtains d' where "dc_get C ks d = ((True, map (val d) ks), d')" "val d' = val d"
  using assms that [of "snd (dc_get C ks d)"] by (simp add: plain_store_def prod_eq_iff)

lemma plain_set:
  assumes "plain_store C val"
  obtains d' where "dc_set C kvs d = (True, d')" "val d' = val d ++ map_of (rev kvs)"
  using assms that [of "snd (dc_set C kvs d)"] by (simp add: plain_store_def prod_eq_iff)

lemma read_last_plain:
  assumes "plain_store C val" "holds_sms C val d m"
  obtains d' where "read_last C d = (Some m, d')" "val d' = val d"
proof -
  obtain a b c where m: "m = (a, b, c)" by (cases m)
  let ?ks = "[''sms.last.sender'', ''sms.last.text'', ''sms.last.ts'']"
  obtain d' where g: "dc_get C ?ks d = ((True, map (val d) ?ks), d')" "val d' = val d"
    by (rule plain_get [OF assms(1)])
  with assms(2) have "read_last C d = (Some m, d')"
    by (auto simp: read_last_def holds_sms_def text_of_def m bind_eq_Some_conv)
  with g(2) that show ?thesis by blast
qed

definition send_keys :: "string set" where
  "send_keys = {''sms.send.to'', ''sms.send.text'', ''sms.send.request''}"

lemma send_plain:
  assumes "plain_store C val" "is_reachable_sender to"
  obtains d n where "DsSmsTransport_send C clk to txt s = (True, s\<lparr>tx_ds := d, tx_reads := n\<rparr>)"
    "outbox C val d = (Some to, Some txt)" "\<forall>k. k \<notin> send_keys \<longrightarrow> val d k = val (tx_ds s) k"
proof -
  let ?m = "[(''sms.send.to'', v_of_string C to), (''sms.send.text'', v_of_string C txt)]"
  obtain d1 where 1: "dc_set C ?m (tx_ds s) = (True, d1)" "val d1 = val (tx_ds s) ++ map_of (rev ?m)"
    by (rule plain_set [OF assms(1)])
  obtain sec usec where c: "clk (tx_reads s) = (sec, usec)" by fastforce
  let ?r = "[(''sms.send.request'', v_of_string C (to_string (uint (sec * 1000 + usec div 1000))))]"
  obtain d2 where 2: "dc_set C ?r d1 = (True, d2)" "val d2 = val d1 ++ map_of (rev ?r)"
    by (rule plain_set [OF assms(1)])
  have "DsSmsTransport_send C clk to txt s = (True, s\<lparr>tx_ds := d2, tx_reads := tx_reads s + 1\<rparr>)"
    using assms(2) 1(1) 2(1) by (simp add: DsSmsTransport_send_def tx_now_ms_def gettimeofday_def c)
  moreover have "outbox C val d2 = (Some to, Some txt)"
    using assms(1) by (simp add: outbox_def text_of_def 1(2) 2(2) plain_store_def)
  moreover have "\<forall>k. k \<notin> send_keys \<longrightarrow> val d2 k = val (tx_ds s) k" by (simp add: send_keys_def 1(2) 2(2))
  ultimately show ?thesis using that by blast
qed

subsection \<open>One message\<close>

text \<open>
  The store comes to hold \<open>d\<close>, the watch fires and the reactor wakes: three events of the running
  daemon.
\<close>

definition sms_turn ::
  "('d, 'v, 'ss, 'c, 'j, 'p, 'w, 'b, 'n) daemon_env \<Rightarrow> 'd \<Rightarrow> ('d, 'ss, 'n) ZeroTouchClient
     \<Rightarrow> ('d, 'ss, 'n) ZeroTouchClient" where
  "sms_turn E d s =
     tx_handle_exception (de_client E) (Some (Bridge_on_sms (de_bridge E))) (on_version_event (s\<lparr>tx_ds := d\<rparr>))"

lemma sms_turn_steps: "stores d \<Longrightarrow> (daemon_step E stores)\<^sup>*\<^sup>* s (sms_turn E d s)"
  unfolding sms_turn_def
  by (rule rtranclp.rtrancl_into_rtrancl [OF rtranclp.rtrancl_into_rtrancl [OF r_into_rtranclp]],
      erule daemon_step.store, rule daemon_step.sms_event, rule daemon_step.sms_wake)

abbreviation admin_sender ::
  "('d, 'v, 'ss, 'c, 'j, 'p, 'w, 'b, 'n) daemon_env \<Rightarrow> string \<Rightarrow> ('ss \<Rightarrow> bool) \<Rightarrow> bool" where
  "admin_sender E \<equiv> admin_in (de_smsctl E) (\<lambda>i. fst (de_clock E i))"

text \<open>The daemon's wiring keeps the interface.\<close>

lemma sender_access_admin:
  assumes "admin_sender E sender good" "good (m_sessions s)"
  obtains ss where "sender_access (de_smsctl E) (de_clock E) sender s = (Admin, s\<lparr>tx_reads := tx_reads s + 1, m_sessions := ss\<rparr>)"
    "good ss"
proof -
  obtain acc ss where "session (de_smsctl E) sender (fst (de_clock E (tx_reads s))) (m_sessions s) = (acc, ss)"
    "account_access acc = Admin" "good ss" by (rule admin_in_session [OF assms, where i = "tx_reads s"])
  then show ?thesis
    by (intro that [of ss]) (cases "de_clock E (tx_reads s)", simp_all add: sender_access_def gettimeofday_def)
qed

interpretation dae: provisioning "de_bridge E" "tokenize (de_smsctl E)" "de_gnmi E" "de_rpc E" m_sink m_net
  "\<lambda>n. m_net_update (\<lambda>_. n)" "\<lambda>sender s. m_enabled s \<and> admin_sender E sender good \<and> good (m_sessions s)"
proof (unfold_locales, goal_cases)
  case (2 sender s)
  then show ?case by (simp add: de_bridge_def daemon_gate) (blast intro: admin_in_allowed)
next
  case (3 sender s)
  then show ?case by (auto simp: access_of_def de_bridge_def daemon_bridge_def elim: sender_access_admin)
next
  case (4 sender s)
  then show ?case by (auto simp: after_auth_def de_bridge_def daemon_bridge_def elim: sender_access_admin)
qed (simp_all add: de_bridge_def daemon_bridge_def daemon_sink_def after_auth_def sender_access_def gettimeofday_def
    Let_def split: prod.split)

lemma turn_reaches_bridge:
  assumes "plain_store (de_client E) val" "holds_sms (de_client E) val d (sender, txt, ts)"
    and "sender \<noteq> []" "txt \<noteq> []" "seen_of s \<noteq> (sender, txt, ts)"
  obtains d' where "sms_turn E d s = Bridge_on_sms (de_bridge E) \<lparr>sms_sender = sender, sms_text = txt, sms_ts = ts\<rparr>
      (s\<lparr>m_sms_dirty := False, tx_ds := d', m_seen_sender := sender, m_seen_text := txt, m_seen_ts := ts\<rparr>)"
    "val d' = val d"
proof -
  obtain d' where "read_last (de_client E) d = (Some (sender, txt, ts), d')" "val d' = val d"
    by (rule read_last_plain [OF assms(1,2)])
  with assms(3-5) show ?thesis
    by (intro that [of d']) (auto simp: sms_turn_def tx_handle_exception_def on_version_event_def
        drain_inbound_def seen_of_def Let_def)
qed

abbreviation set_m_net :: "'n \<Rightarrow> ('d, 'ss, 'n) ZeroTouchClient \<Rightarrow> ('d, 'ss, 'n) ZeroTouchClient" where
  "set_m_net n \<equiv> m_net_update (\<lambda>_. n)"

lemma turn_answered:
  assumes "plain_store (de_client E) val" "holds_sms (de_client E) val d (sender, txt, ts)"
    and "is_reachable_sender sender" "txt \<noteq> []" "seen_of s \<noteq> (sender, txt, ts)"
    and "m_enabled s" "admin_sender E sender good" "good (m_sessions s)"
    and "parse_gnmi (tokenize (de_smsctl E) txt) = g" "cmd_kind g \<in> {Get, Set}"
    and "gnmi_answer (de_gnmi E) (de_rpc E) (m_sink s) g (m_net s) = (reply, n)"
  shows "outbox (de_client E) val (tx_ds (sms_turn E d s)) = (Some sender, Some reply)
    \<and> m_net (sms_turn E d s) = n \<and> seen_of (sms_turn E d s) = (sender, txt, ts)
    \<and> m_sink (sms_turn E d s) = m_sink s \<and> m_enabled (sms_turn E d s) \<and> good (m_sessions (sms_turn E d s))
    \<and> (\<forall>k. k \<notin> send_keys \<longrightarrow> val (tx_ds (sms_turn E d s)) k = val d k)"
proof -
  let ?inb = "\<lparr>sms_sender = sender, sms_text = txt, sms_ts = ts\<rparr>"
  have "sender \<noteq> []" using assms(3) by (auto simp: is_reachable_sender_def)
  then obtain d' where turn: "sms_turn E d s = Bridge_on_sms (de_bridge E) ?inb
      (s\<lparr>m_sms_dirty := False, tx_ds := d', m_seen_sender := sender, m_seen_text := txt, m_seen_ts := ts\<rparr>)"
    (is "_ = Bridge_on_sms _ _ ?s") and d': "val d' = val d" by (rule turn_reaches_bridge [OF assms(1,2) _ assms(4,5)])
  let ?w = "handled (de_bridge E) set_m_net sender n ?s"
  have on: "sms_turn E d s = snd (DsSmsTransport_send (de_client E) (de_clock E) sender reply ?w)"
    unfolding turn by (subst dae.on_sms_answered [where good = good and g = g and reply = reply and n = n])
      (use assms(6-11) in \<open>auto simp: de_bridge_def daemon_bridge_def DsSmsTransport_def\<close>)
  obtain d2 k where snd: "DsSmsTransport_send (de_client E) (de_clock E) sender reply ?w
      = (True, ?w\<lparr>tx_ds := d2, tx_reads := k\<rparr>)" "outbox (de_client E) val d2 = (Some sender, Some reply)"
    "\<forall>k. k \<notin> send_keys \<longrightarrow> val d2 k = val (tx_ds ?w) k"
    by (rule send_plain [OF assms(1,3)])
  have "seen_of ?w = seen_of ?s \<and> tx_ds ?w = tx_ds ?s"
    by (simp add: handled_def after_auth_def de_bridge_def daemon_bridge_def sender_access_def gettimeofday_def
        seen_of_def Let_def split: prod.split)
  moreover have "m_enabled ?w \<and> admin_sender E sender good \<and> good (m_sessions ?w)"
    by (rule dae.handled_admin) (use assms(6-8) in simp)
  ultimately show ?thesis
    using snd d' by (simp add: on dae.handled_net dae.handled_cfg seen_of_def)
qed

subsection \<open>A conversation\<close>

text \<open>
  The whole path, SMS to SMS: an administrator texts a SET of several paths and then a GET of
  one of them; other processes may leave the store in any state that holds the message.  The
  daemon, with its production backend talking to the simulated server in the ADMIN role, leaves the
  acknowledgement of all the paths for the sender, has stored every value (the last one of a path
  given twice) in the server's tree, and answers the GET of a path that is not sensitive with
  exactly the value written, changing nothing.
\<close>

theorem daemon_set_then_get:
  assumes "plain_store (de_client E) val" "codec_ok (de_gnmi E)" "served_by (de_gnmi E) clk (de_rpc E)"
    and "is_reachable_sender sender" "admin_sender E sender good"
    and "m_enabled s" "good (m_sessions s)" "sc_set_role (m_sink s) = ''ADMIN''"
    and "holds_sms (de_client E) val d1 (sender, t1, ts1)" "seen_of s \<noteq> (sender, t1, ts1)" "t1 \<noteq> []"
    and "holds_sms (de_client E) val d2 (sender, t2, ts2)" "t2 \<noteq> []"
    and "parse_gnmi (tokenize (de_smsctl E) t1) = set_cmd us"
    and "parse_gnmi (tokenize (de_smsctl E) t2) = get_cmd [x]"
    and "\<forall>xv \<in> set us. text_ok (de_gnmi E) xv"
    and "map_of (rev us) x = Some v" "\<not> is_sensitive_path x (deny_of (m_sink s))"
  shows "let s1 = sms_turn E d1 s; s2 = sms_turn E d2 s1 in
    outbox (de_client E) val (tx_ds s1) = (Some sender, Some (set_ack (length us)))
    \<and> tree_map (m_net s1) = tree_map (m_net s) ++ map_of (rev us)
    \<and> outbox (de_client E) val (tx_ds s2) = (Some sender, Some (get_value x v))
    \<and> m_net s2 = m_net s1"
proof -
  let ?s1 = "sms_turn E d1 s"
  obtain t' where set: "gnmi_answer (de_gnmi E) (de_rpc E) (m_sink s) (set_cmd us) (m_net s) = (set_ack (length us), t')"
    and tree: "tree_map t' = tree_map (m_net s) ++ map_of (rev us)"
    by (rule answer_set [OF assms(2,3,16,8)])
  from turn_answered [OF assms(1,9,4,11,10,6,5,7,14) _ set]
  have 1: "outbox (de_client E) val (tx_ds ?s1) = (Some sender, Some (set_ack (length us)))" "m_net ?s1 = t'"
    "seen_of ?s1 = (sender, t1, ts1)" "m_sink ?s1 = m_sink s" "m_enabled ?s1" "good (m_sessions ?s1)"
    by simp_all
  from assms(14,15) have fresh: "seen_of ?s1 \<noteq> (sender, t2, ts2)"
    using 1(3) by (auto simp: empty_command_def)
  from assms(16,17) have "text_ok (de_gnmi E) (x, v)" by (metis map_of_SomeD set_rev)
  moreover have "tree_map t' x = Some v" using tree assms(17) by simp
  ultimately have "gnmi_answer (de_gnmi E) (de_rpc E) (m_sink ?s1) (get_cmd [x]) (m_net ?s1) = (get_value x v, t')"
    using answer_get [OF assms(2,3) _ _ assms(18)] 1(2,4) by simp
  from turn_answered [OF assms(1,12,4,13) fresh 1(5) assms(5) 1(6) assms(15) _ this] 1(1,2) tree
  show ?thesis by (simp add: Let_def)
qed

text \<open>The conversation on a store of texts and a loopback connection to the server.\<close>

definition talk_env ::
  "((string \<times> string) list, string, unit, unit, unit, string, string, wire, GnmiTree) daemon_env" where
  "talk_env = \<lparr>de_client = kv_client, de_smsctl = demo_smsctl, de_json = no_json, de_files = (\<lambda>_. (True, True)),
     de_clock = (\<lambda>_. (0, 0)), de_gnmi = plain_lib, de_rpc = loopback (\<lambda>_. 0)\<rparr>"

definition talk_start :: "((string \<times> string) list, unit, GnmiTree) ZeroTouchClient" where
  "talk_start =
     \<lparr>tx_ds = [], tx_reads = 0, m_sms_dirty = False, m_seen_sender = [], m_seen_text = [], m_seen_ts = [],
      m_sessions = (), m_sink = default_sink_config, m_enabled = True, m_gnmi_port = 50051,
      m_cfg_dirty = False, m_handled = 0, m_files = [], m_net = empty_tree\<rparr>"

definition talk_store :: "string \<Rightarrow> string \<Rightarrow> (string \<times> string) list" where
  "talk_store txt ts = [(''sms.last.sender'', ''+15551230000''), (''sms.last.text'', txt), (''sms.last.ts'', ts)]"

lemma kv_plain_store: "plain_store kv_client map_of"
  by (simp add: plain_store_def kv_client_def)

lemma talk_holds: "holds_sms kv_client map_of (talk_store txt ts) (''+15551230000'', txt, ts)"
  by (simp add: holds_sms_def text_of_def talk_store_def kv_client_def)

lemma talk_parse:
  "parse_gnmi (tokenize demo_smsctl ''IOT GNMI SET /b 2'')
     = empty_command\<lparr>cmd_kind := Set, cmd_updates := [(''/b'', ''2'')]\<rparr>"
  "parse_gnmi (tokenize demo_smsctl ''IOT GNMI GET /b'') = empty_command\<lparr>cmd_kind := Get, cmd_xpaths := [''/b'']\<rparr>"
  by code_simp+

theorem daemon_set_then_get_witness:
  "outbox kv_client map_of (tx_ds (sms_turn talk_env (talk_store ''IOT GNMI GET /b'' ''2'')
     (sms_turn talk_env (talk_store ''IOT GNMI SET /b 2'' ''1'') talk_start)))
   = (Some ''+15551230000'', Some ''OK GNMI GET /b=2'')"
proof -
  have "served_by plain_lib (\<lambda>_. 0) (loopback (\<lambda>_. 0))" by (simp add: served_by_def loopback_def)
  moreover have "codec_ok plain_lib" by (simp add: codec_ok_def)
  moreover have "admin_sender talk_env ''+15551230000'' (\<lambda>_. True)"
    by (simp add: admin_in_def talk_env_def demo_smsctl_def account_access_def)
  moreover have "is_reachable_sender ''+15551230000''" "\<not> is_sensitive_path ''/b'' (deny_of default_sink_config)"
    by code_simp+
  ultimately show ?thesis
    using daemon_set_then_get [of talk_env map_of "\<lambda>_. 0" "''+15551230000''" "\<lambda>_. True" talk_start
        "talk_store ''IOT GNMI SET /b 2'' ''1''" "''IOT GNMI SET /b 2''" "''1''"
        "talk_store ''IOT GNMI GET /b'' ''2''" "''IOT GNMI GET /b''" "''2''"
        "[(''/b'', ''2'')]" "''/b''" "''2''"]
      kv_plain_store talk_holds
    by (simp add: talk_parse talk_env_def talk_start_def seen_of_def text_ok_def default_sink_config_def
        get_value_def clamp_sms_def kMaxReply_def Let_def)
qed

end
