(* ===== verification/Reference_Server.thy ===== *)
theory Reference_Server
  imports Provisioning
begin

text \<open>
  What a command means, without the way it takes: a reference function from a command and the
  server's tree to the reply and the new tree.  The production backend (\<open>src/local_gnmi_sink.cpp\<close>), its
  request and response on the wire and the handlers of the simulated server (\<open>sim/zt_gnmi_simd.cpp\<close>)
  together compute it, for every GET and SET.
\<close>

definition ref_row :: "string list \<Rightarrow> TreeEntry \<Rightarrow> GnmiPathResult" where
  "ref_row deny e =
     (if is_sensitive_path (te_xpath e) deny then denied_row (te_xpath e)
      else \<lparr>pr_xpath = te_xpath e, pr_value = te_value e, pr_error = []\<rparr>)"

text \<open>
  A GET shows the sensitive paths it names as denied, and below them the leaves of the other paths,
  of which the sensitive ones are denied too; it fails when there are other paths and none of them
  has a leaf, and when it names no path.
\<close>

definition ref_get :: "string list \<Rightarrow> string list \<Rightarrow> GnmiTree \<Rightarrow> GnmiResult" where
  "ref_get deny xs t =
     (let hidden = map denied_row (filter (\<lambda>x. is_sensitive_path x deny) xs);
          asked = filter (\<lambda>x. \<not> is_sensitive_path x deny) xs;
          found = concat (map (GnmiTree_lookup t) asked) in
      if asked = [] then \<lparr>res_ok = (xs \<noteq> []), res_grpc_status = 0, res_grpc_message = [], res_paths = hidden\<rparr>
      else if found = [] then \<lparr>res_ok = False, res_grpc_status = 5, res_grpc_message = [], res_paths = hidden\<rparr>
      else \<lparr>res_ok = True, res_grpc_status = 0, res_grpc_message = [], res_paths = hidden @ map (ref_row deny) found\<rparr>)"

definition ref_set :: "(string \<times> string) list \<Rightarrow> GnmiTree \<Rightarrow> GnmiTree" where
  "ref_set us t = for_each (\<lambda>(x, v) t. GnmiTree_set t x v) us t"

definition ref_answer :: "string list \<Rightarrow> GnmiCommand \<Rightarrow> GnmiTree \<Rightarrow> string \<times> GnmiTree" where
  "ref_answer deny g t =
     (if cmd_kind g = Set then (set_ack (length (cmd_updates g)), ref_set (cmd_updates g) t)
      else (format_get (ref_get deny (cmd_xpaths g) t), t))"

text \<open>A sequence of commands.\<close>

fun ref_run :: "string list \<Rightarrow> GnmiCommand list \<Rightarrow> GnmiTree \<Rightarrow> string list \<times> GnmiTree" where
  "ref_run deny [] t = ([], t)"
| "ref_run deny (g # gs) t =
     (let (reply, t1) = ref_answer deny g t; (replies, t2) = ref_run deny gs t1 in (reply # replies, t2))"

subsection \<open>Texts that survive the codecs\<close>

definition path_ok :: "('p, 'v, 'b) gnmi_lib \<Rightarrow> string \<Rightarrow> bool" where
  "path_ok lib x \<longleftrightarrow> path_to_string lib (parse_yang_path lib x) = x"

definition cmd_ok :: "('p, 'v, 'b) gnmi_lib \<Rightarrow> GnmiCommand \<Rightarrow> bool" where
  "cmd_ok lib g \<longleftrightarrow> cmd_kind g \<in> {Get, Set} \<and> (\<forall>x \<in> set (cmd_xpaths g). path_ok lib x)
     \<and> (\<forall>xv \<in> set (cmd_updates g). text_ok lib xv)"

definition tree_texts :: "('p, 'v, 'b) gnmi_lib \<Rightarrow> GnmiTree \<Rightarrow> bool" where
  "tree_texts lib t \<longleftrightarrow> (\<forall>xv \<in> set (m_kv t). text_ok lib xv)"

lemma lookup_texts:
  assumes "tree_texts lib t" "e \<in> set (GnmiTree_lookup t x)"
  shows "text_ok lib (te_xpath e, te_value e)"
  using assms
  by (auto simp: tree_texts_def GnmiTree_lookup_def smap_find_def dest: map_of_SomeD split: option.splits)

lemma smap_set_subset: "set (smap_set k v m) \<subseteq> insert (k, v) (set m)"
  by (induction k v m rule: smap_set.induct) auto

lemma ref_set_texts: "tree_texts lib t \<Longrightarrow> \<forall>xv \<in> set us. text_ok lib xv \<Longrightarrow> tree_texts lib (ref_set us t)"
proof (induction us arbitrary: t)
  case (Cons xv us)
  have "tree_texts lib (GnmiTree_set t (fst xv) (snd xv))"
    using Cons.prems smap_set_subset [of "fst xv" "snd xv" "m_kv t"] by (fastforce simp: tree_texts_def GnmiTree_set_def)
  with Cons show ?case by (simp add: ref_set_def case_prod_beta)
qed (simp add: ref_set_def)

lemma ref_answer_texts: "tree_texts lib t \<Longrightarrow> cmd_ok lib g \<Longrightarrow> tree_texts lib (snd (ref_answer deny g t))"
  by (simp add: ref_answer_def cmd_ok_def ref_set_texts)

lemma ref_run_texts: "tree_texts lib t \<Longrightarrow> \<forall>g \<in> set gs. cmd_ok lib g \<Longrightarrow> tree_texts lib (snd (ref_run deny gs t))"
proof (induction gs arbitrary: t)
  case (Cons g gs)
  have "tree_texts lib (snd (ref_answer deny g t))" using Cons.prems by (intro ref_answer_texts) simp_all
  with Cons show ?case by (simp add: case_prod_beta)
qed simp

subsection \<open>The way over the wire\<close>

lemma handle_get_rows:
  assumes "codec_ok lib" "\<forall>x \<in> set ys. path_ok lib x" "ys \<noteq> []"
  obtains resp where "handle_get lib clk (get_req_bytes lib \<lparr>gq_target = role, gq_json = True,
      gq_path = map (parse_yang_path lib) ys\<rparr>) t =
        (if concat (map (GnmiTree_lookup t) ys) = [] then (5, no_bytes lib) else (0, get_resp_bytes lib resp))"
    and "map nt_update resp = map (\<lambda>x. map (leaf_update lib) (GnmiTree_lookup t x)) ys"
proof -
  let ?ps = "map (parse_yang_path lib) ys" and ?rows = "\<lambda>p. GnmiTree_lookup t (path_to_string lib p)"
  have rows: "map ?rows ?ps = map (GnmiTree_lookup t) ys" using assms(2) by (simp add: path_ok_def)
  then have "(\<Sum>p\<leftarrow>?ps. length (?rows p)) = length (concat (map (GnmiTree_lookup t) ys))"
    by (metis (no_types, lifting) length_concat list.map_comp map_eq_conv o_apply)
  then have n: "(\<Sum>p\<leftarrow>?ps. length (?rows p)) = 0 \<longleftrightarrow> concat (map (GnmiTree_lookup t) ys) = []" by (simp only: length_0_conv)
  let ?resp = "map (\<lambda>(i, p). \<lparr>nt_timestamp = clk i, nt_update = map (leaf_update lib) (?rows p)\<rparr>) (enumerate 0 ?ps)"
  have "map nt_update ?resp = map (map (leaf_update lib)) (map ?rows ?ps)"
    by (rule nth_equalityI) (simp_all add: nth_enumerate_eq)
  then have "map nt_update ?resp = map (\<lambda>x. map (leaf_update lib) (GnmiTree_lookup t x)) ys" unfolding rows by simp
  then show ?thesis
    using assms(1,3) n by (intro that [of ?resp]) (auto simp: handle_get_def codec_ok_def get_loop_eq)
qed

lemma leaf_row_ref: "text_ok lib (te_xpath e, te_value e) \<Longrightarrow> leaf_row lib deny (leaf_update lib e) = ref_row deny e"
  by (simp add: leaf_row_def leaf_update_def ref_row_def text_ok_def Let_def)

lemma response_rows_ref:
  assumes "map nt_update resp = map (\<lambda>x. map (leaf_update lib) (GnmiTree_lookup t x)) ys" "tree_texts lib t"
  shows "response_rows lib deny resp = map (ref_row deny) (concat (map (GnmiTree_lookup t) ys))"
proof -
  have "response_rows lib deny resp = concat (map (map (leaf_row lib deny)) (map nt_update resp))"
    by (simp add: response_rows_def o_def)
  also have "\<dots> = concat (map (\<lambda>x. map (ref_row deny) (GnmiTree_lookup t x)) ys)"
    unfolding assms(1) using lookup_texts [OF assms(2)] leaf_row_ref [of lib] by (simp cong: map_cong)
  finally show ?thesis by (simp add: map_concat o_def)
qed

lemma local_get_ref:
  assumes "codec_ok lib" "served_by lib clk call" "\<forall>x \<in> set xs. path_ok lib x" "tree_texts lib t"
  shows "LocalGnmiSink_get lib call cfg xs t = (ref_get (deny_of cfg) xs t, t)"
proof (cases "filter (\<lambda>x. \<not> is_sensitive_path x (deny_of cfg)) xs = []")
  case True
  moreover have "filter (\<lambda>x. is_sensitive_path x (deny_of cfg)) xs = xs" using True by (simp add: filter_empty_conv filter_id_conv)
  ultimately show ?thesis
    by (simp add: LocalGnmiSink_get_def request_loop_eq ref_get_def empty_result_def Let_def)
next
  case False
  let ?ys = "filter (\<lambda>x. \<not> is_sensitive_path x (deny_of cfg)) xs"
  obtain resp where h: "handle_get lib clk (get_req_bytes lib \<lparr>gq_target = sc_get_role cfg, gq_json = True,
      gq_path = map (parse_yang_path lib) ?ys\<rparr>) t =
        (if concat (map (GnmiTree_lookup t) ?ys) = [] then (5, no_bytes lib) else (0, get_resp_bytes lib resp))"
    and u: "map nt_update resp = map (\<lambda>x. map (leaf_update lib) (GnmiTree_lookup t x)) ?ys"
    using handle_get_rows [OF assms(1) _ False, of clk "sc_get_role cfg" t] assms(3) by auto
  have "get_resp_parse lib (get_resp_bytes lib resp) = Some resp" using assms(1) by (simp add: codec_ok_def)
  with False h response_rows_ref [OF u assms(4)] show ?thesis
    by (simp add: LocalGnmiSink_get_def request_loop_eq served_get [OF assms(2)] rpc_ok_def empty_result_def
        ref_get_def Let_def) blast
qed

lemma updates_ref:
  "\<forall>xv \<in> set us. text_ok lib xv \<Longrightarrow> for_each (apply_update lib)
     (map (\<lambda>(x, v). \<lparr>up_path = parse_yang_path lib x, up_val = set_typed_value lib v\<rparr>) us) t = ref_set us t"
  by (induction us arbitrary: t) (auto simp: ref_set_def apply_update_def text_ok_def)

lemma answer_ref:
  assumes "codec_ok lib" "served_by lib clk call" "sc_set_role cfg = ''ADMIN''" "cmd_ok lib g" "tree_texts lib t"
  shows "gnmi_answer lib call cfg g t = ref_answer (deny_of cfg) g t"
proof (cases "cmd_kind g = Set")
  case True
  with assms(4) have us: "\<forall>xv \<in> set (cmd_updates g). text_ok lib xv" by (simp add: cmd_ok_def)
  obtain r t' where set: "LocalGnmiSink_set lib call cfg (cmd_updates g) t = (r, t')" by fastforce
  from local_set_admin [OF assms(1,2) us assms(3) set] have "res_ok r" by simp
  moreover have "t' = ref_set (cmd_updates g) t"
    using set assms(1,3) updates_ref [OF us]
    by (auto simp: LocalGnmiSink_set_def served_set [OF assms(2)] handle_set_def codec_ok_def rpc_ok_def Let_def)
  ultimately show ?thesis using set True by (simp add: gnmi_answer_def ref_answer_def format_set_def set_ack_def)
next
  case False
  with assms(4) have "\<forall>x \<in> set (cmd_xpaths g). path_ok lib x" by (simp add: cmd_ok_def)
  from local_get_ref [OF assms(1,2) this assms(5)] False show ?thesis by (simp add: gnmi_answer_def ref_answer_def)
qed

text \<open>
  C3.  The backend over the wire is the reference function: for every GET and SET whose texts survive
  the codecs, on every tree whose texts do, the production backend with the ADMIN role, talking to the
  simulated server, gives exactly the result of the reference function and leaves the server with
  exactly its tree.  This covers subtrees, several paths, masked and missing ones, and paths given
  twice.
\<close>

theorem backend_is_reference:
  assumes "codec_ok lib" "served_by lib clk call" "sc_set_role cfg = ''ADMIN''" "tree_texts lib t"
    and "\<forall>x \<in> set xs. path_ok lib x" "\<forall>xv \<in> set us. text_ok lib xv"
  shows "LocalGnmiSink_get lib call cfg xs t = (ref_get (deny_of cfg) xs t, t)
    \<and> res_ok (fst (LocalGnmiSink_set lib call cfg us t)) \<and> snd (LocalGnmiSink_set lib call cfg us t) = ref_set us t"
proof -
  have "gnmi_answer lib call cfg (set_cmd us) t = ref_answer (deny_of cfg) (set_cmd us) t"
    using assms(6) by (intro answer_ref [OF assms(1-3) _ assms(4)]) (simp add: cmd_ok_def empty_command_def)
  moreover have "res_ok (fst (LocalGnmiSink_set lib call cfg us t))"
    using local_set_admin [OF assms(1,2,6,3) prod.collapse [symmetric]] by simp
  ultimately show ?thesis
    using local_get_ref [OF assms(1,2,5,4)] by (simp add: gnmi_answer_def ref_answer_def prod_eq_iff)
qed

theorem backend_is_reference_witness:
  "res_paths (fst (LocalGnmiSink_get plain_lib (loopback (\<lambda>_. 0)) default_sink_config [''/a'', ''/psk'']
     (ref_set [(''/a/psk'', ''x''), (''/a/mtu'', ''9'')] empty_tree)))
   = [denied_row ''/psk'', \<lparr>pr_xpath = ''/a/mtu'', pr_value = ''9'', pr_error = []\<rparr>, denied_row ''/a/psk'']"
proof -
  have "served_by plain_lib (\<lambda>_. 0) (loopback (\<lambda>_. 0))" by (simp add: served_by_def loopback_def)
  moreover have "codec_ok plain_lib" by (simp add: codec_ok_def)
  ultimately have "LocalGnmiSink_get plain_lib (loopback (\<lambda>_. 0)) default_sink_config [''/a'', ''/psk'']
      (ref_set [(''/a/psk'', ''x''), (''/a/mtu'', ''9'')] empty_tree)
    = (ref_get (deny_of default_sink_config) [''/a'', ''/psk''] (ref_set [(''/a/psk'', ''x''), (''/a/mtu'', ''9'')] empty_tree),
       ref_set [(''/a/psk'', ''x''), (''/a/mtu'', ''9'')] empty_tree)"
    using backend_is_reference [of plain_lib "\<lambda>_. 0" "loopback (\<lambda>_. 0)" default_sink_config
        "ref_set [(''/a/psk'', ''x''), (''/a/mtu'', ''9'')] empty_tree" "[''/a'', ''/psk'']" "[]"]
    by (simp add: default_sink_config_def tree_texts_def text_ok_def path_ok_def)
  moreover have "res_paths (ref_get (deny_of default_sink_config) [''/a'', ''/psk'']
      (ref_set [(''/a/psk'', ''x''), (''/a/mtu'', ''9'')] empty_tree))
    = [denied_row ''/psk'', \<lparr>pr_xpath = ''/a/mtu'', pr_value = ''9'', pr_error = []\<rparr>, denied_row ''/a/psk'']" by code_simp
  ultimately show ?thesis by simp
qed

end
