(* ===== verification/Daemon_Dialog.thy ===== *)
theory Daemon_Dialog
  imports Daemon_Conversation Reference_Server
begin

text \<open>
  A dialog with the running daemon: messages of an administrator that arrive one after the other,
  with any other events of the daemon in between (theory \<open>Daemon_Events\<close>): the timer that sweeps sessions,
  configuration events and reloads, wake-ups for nothing, and writes of other processes to the data
  store.  What the other processes may do is the predicate \<open>calm\<close>: they leave the last message and the
  enable key as they are, and the rest of the configuration is one the session survives.
\<close>

subsection \<open>What the environment may do\<close>

definition u32_of :: "('d, 'v) ds_client \<Rightarrow> 'v option \<Rightarrow> u32 \<Rightarrow> u32" where
  "u32_of C v dflt = (case Option.bind v (v_int32 C) of Some n \<Rightarrow> if 0 < n then word_of_int n else dflt | None \<Rightarrow> dflt)"

text \<open>The configuration of the sessions that a store with these contents holds.\<close>

definition stored_config :: "('d, 'v) ds_client \<Rightarrow> (string \<Rightarrow> 'v option) \<Rightarrow> SessionConfig" where
  "stored_config C f =
     \<lparr>ss_session_ttl_sec = u32_of C (f ''zerotouch.session.ttl.sec'') 600,
      ss_lockout_failures = u32_of C (f ''zerotouch.lockout.failures'') 5,
      ss_lockout_sec = u32_of C (f ''zerotouch.lockout.sec'') 900,
      ss_allowed_numbers = split_csv (case Option.bind (f ''zerotouch.allowed.numbers'') (v_string C) of Some t \<Rightarrow> t | None \<Rightarrow> [])\<rparr>"

definition calm ::
  "('d, 'v) ds_client \<Rightarrow> ('d \<Rightarrow> string \<Rightarrow> 'v option) \<Rightarrow> (SessionConfig \<Rightarrow> bool) \<Rightarrow> sms3 \<Rightarrow> 'd \<Rightarrow> bool" where
  "calm C val okc m d \<longleftrightarrow> holds_sms C val d m
     \<and> Option.bind (val d ''zerotouch.enabled'') (v_bool C) = Some True \<and> okc (stored_config C (val d))"

text \<open>Volatile writes replace the values of their keys, or fail and change nothing.\<close>

definition plain_volatile :: "('d, 'v) ds_client \<Rightarrow> ('d \<Rightarrow> string \<Rightarrow> 'v option) \<Rightarrow> bool" where
  "plain_volatile C val \<longleftrightarrow>
     (\<forall>kvs d. val (snd (dc_set_volatile C kvs d)) \<in> {val d, val d ++ map_of (rev kvs)})"

text \<open>The session also outlives the configurations \<open>okc\<close>.\<close>

definition steady :: "('ss, 'c, 'd) smsctl \<Rightarrow> (nat \<Rightarrow> u64) \<Rightarrow> (SessionConfig \<Rightarrow> bool) \<Rightarrow> ('ss \<Rightarrow> bool) \<Rightarrow> bool" where
  "steady S clk okc good \<longleftrightarrow>
     outlives_sweeps S clk good
     \<and> (\<forall>ss c. good ss \<longrightarrow> okc c \<longrightarrow> good (session_set_config S c ss))"

lemma calm_cong:
  assumes "calm C val okc m d"
    and "\<And>k. k \<notin> send_keys \<union> {''zerotouch.state'', ''zerotouch.sessions''} \<Longrightarrow>
      val d' k = val d k"
  shows "calm C val okc m d'"
proof -
  have "stored_config C (val d') = stored_config C (val d)" by (simp add: stored_config_def assms(2) send_keys_def)
  with assms show ?thesis by (simp add: calm_def holds_sms_def text_of_def send_keys_def)
qed

subsection \<open>Waiting\<close>

text \<open>
  The state between two deliveries: \<open>prev\<close> was delivered last, \<open>m\<close> is the message the store holds, \<open>t\<close> is
  the server's tree.
\<close>

definition waiting ::
  "('d, 'v, 'ss, 'c, 'j, 'p, 'w, 'b, GnmiTree) daemon_env \<Rightarrow> ('d \<Rightarrow> string \<Rightarrow> 'v option) \<Rightarrow> (SessionConfig \<Rightarrow> bool)
     \<Rightarrow> ('ss \<Rightarrow> bool) \<Rightarrow> string list \<Rightarrow> sms3 \<Rightarrow> sms3 \<Rightarrow> GnmiTree \<Rightarrow> ('d, 'ss, GnmiTree) ZeroTouchClient \<Rightarrow> bool" where
  "waiting E val okc good deny prev m t s \<longleftrightarrow>
     m_enabled s \<and> good (m_sessions s) \<and> seen_of s = prev \<and> m_net s = t
     \<and> sc_set_role (m_sink s) = ''ADMIN'' \<and> deny_of (m_sink s) = deny \<and> calm (de_client E) val okc m (tx_ds s)"

text \<open>The steps of the daemon but for the wake-up that looks for a message.\<close>

inductive pause_step ::
  "('d, 'v, 'ss, 'c, 'j, 'p, 'w, 'b, 'n) daemon_env \<Rightarrow> ('d \<Rightarrow> bool)
     \<Rightarrow> ('d, 'ss, 'n) ZeroTouchClient \<Rightarrow> ('d, 'ss, 'n) ZeroTouchClient \<Rightarrow> bool"
  for E and stores where
  p_store: "stores d \<Longrightarrow> pause_step E stores s (s\<lparr>tx_ds := d\<rparr>)"
| p_sms_event: "pause_step E stores s (on_version_event s)"
| p_cfg_event: "pause_step E stores s (on_config_event s)"
| p_wake: "\<not> m_sms_dirty s \<Longrightarrow>
    pause_step E stores s (tx_handle_exception (de_client E) (Some (Bridge_on_sms (de_bridge E))) s)"
| p_cfg_wake: "pause_step E stores s (handle_exception (de_client E) (de_smsctl E) s)"
| p_tick: "pause_step E stores s (handle_timeout (de_client E) (de_smsctl E) (de_clock E) s)"

lemma pause_is_step: "pause_step E stores s s' \<Longrightarrow> daemon_step E stores s s'"
  by (induction rule: pause_step.induct) (auto intro: daemon_step.intros)

lemma step_is_pause_or_wake:
  "daemon_step E stores s s' \<Longrightarrow> pause_step E stores s s'
     \<or> (m_sms_dirty s \<and> s' = tx_handle_exception (de_client E) (Some (Bridge_on_sms (de_bridge E))) s)"
  by (induction rule: daemon_step.induct) (auto intro: pause_step.intros)

lemma ds_value_plain:
  assumes "plain_store C val"
  obtains d' where "ds_value C k d = (val d k, d')" "val d' = val d"
proof -
  obtain d' where "dc_get C [k] d = ((True, map (val d) [k]), d')" "val d' = val d" by (rule plain_get [OF assms])
  then show ?thesis by (intro that [of d']) (simp_all add: ds_value_def)
qed

lemma get_plain:
  assumes "plain_store C val"
  shows "\<exists>d'. get_u32 C k n d = (u32_of C (val d k) n, d') \<and> val d' = val d"
    and "\<exists>d'. get_bool C k b d = (case Option.bind (val d k) (v_bool C) of Some x \<Rightarrow> x | None \<Rightarrow> b, d') \<and> val d' = val d"
    and "\<exists>d'. get_str C k d = (case Option.bind (val d k) (v_string C) of Some x \<Rightarrow> x | None \<Rightarrow> [], d') \<and> val d' = val d"
proof -
  obtain d' where "ds_value C k d = (val d k, d')" "val d' = val d" by (rule ds_value_plain [OF assms])
  then show "\<exists>d'. get_u32 C k n d = (u32_of C (val d k) n, d') \<and> val d' = val d"
    and "\<exists>d'. get_bool C k b d = (case Option.bind (val d k) (v_bool C) of Some x \<Rightarrow> x | None \<Rightarrow> b, d') \<and> val d' = val d"
    and "\<exists>d'. get_str C k d = (case Option.bind (val d k) (v_string C) of Some x \<Rightarrow> x | None \<Rightarrow> [], d') \<and> val d' = val d"
    by (simp_all add: get_u32_def get_bool_def get_str_def u32_of_def)
qed

lemma load_calm:
  assumes "plain_store C val" "calm C val okc m (tx_ds s)"
  obtains d port where "load_config_from_ds C S s =
      s\<lparr>tx_ds := d, m_enabled := True, m_gnmi_port := port, m_sink := (m_sink s)\<lparr>sc_port := port\<rparr>,
        m_sessions := session_set_config S (stored_config C (val (tx_ds s))) (m_sessions s)\<rparr>"
    "val d = val (tx_ds s)"
proof -
  let ?f = "val (tx_ds s)"
  have en: "Option.bind (?f ''zerotouch.enabled'') (v_bool C) = Some True" using assms(2) by (simp add: calm_def)
  obtain d1 where 1: "get_bool C ''zerotouch.enabled'' False (tx_ds s) = (True, d1)" "val d1 = ?f"
    using get_plain(2) [OF assms(1), of "''zerotouch.enabled''" False "tx_ds s"] en by auto
  obtain port d2 where 2: "get_u32 C ''zerotouch.gnmi.port'' 50051 d1 = (port, d2)" "val d2 = ?f"
    using get_plain(1) [OF assms(1), of "''zerotouch.gnmi.port''" 50051 d1] 1(2) by auto
  obtain d3 where 3: "get_u32 C ''zerotouch.session.ttl.sec'' 600 d2 = (u32_of C (?f ''zerotouch.session.ttl.sec'') 600, d3)" "val d3 = ?f"
    using get_plain(1) [OF assms(1), of "''zerotouch.session.ttl.sec''" 600 d2] 2(2) by auto
  obtain d4 where 4: "get_u32 C ''zerotouch.lockout.failures'' 5 d3 = (u32_of C (?f ''zerotouch.lockout.failures'') 5, d4)" "val d4 = ?f"
    using get_plain(1) [OF assms(1), of "''zerotouch.lockout.failures''" 5 d3] 3(2) by auto
  obtain d5 where 5: "get_u32 C ''zerotouch.lockout.sec'' 900 d4 = (u32_of C (?f ''zerotouch.lockout.sec'') 900, d5)" "val d5 = ?f"
    using get_plain(1) [OF assms(1), of "''zerotouch.lockout.sec''" 900 d4] 4(2) by auto
  obtain d6 where 6: "get_str C ''zerotouch.allowed.numbers'' d5 =
      (case Option.bind (?f ''zerotouch.allowed.numbers'') (v_string C) of Some x \<Rightarrow> x | None \<Rightarrow> [], d6)" "val d6 = ?f"
    using get_plain(3) [OF assms(1), of "''zerotouch.allowed.numbers''" d5] 5(2) by auto
  show ?thesis
    by (rule that [of "ucast port" d6]) (simp_all add: load_config_from_ds_def 1 2 3 4 5 6 stored_config_def)
qed

lemma deny_of_port: "deny_of (c\<lparr>sc_port := p\<rparr>) = deny_of c"
  by (simp add: deny_of_def)

lemma publish_waiting:
  assumes "plain_volatile (de_client E) val" "waiting E val okc good deny prev m t s"
  shows "waiting E val okc good deny prev m t (publish_state (de_client E) S s)"
proof -
  have "calm (de_client E) val okc m (snd (dc_set_volatile (de_client E) [(''zerotouch.state'', a), (''zerotouch.sessions'', b)] (tx_ds s)))"
    for a b
  proof (rule calm_cong [where d = "tx_ds s"])
    show "calm (de_client E) val okc m (tx_ds s)" using assms(2) by (simp add: waiting_def)
    have "val (snd (dc_set_volatile (de_client E) [(''zerotouch.state'', a), (''zerotouch.sessions'', b)] (tx_ds s)))
        \<in> {val (tx_ds s), val (tx_ds s) ++ map_of (rev [(''zerotouch.state'', a), (''zerotouch.sessions'', b)])}"
      using assms(1) unfolding plain_volatile_def by blast
    then show "val (snd (dc_set_volatile (de_client E) [(''zerotouch.state'', a), (''zerotouch.sessions'', b)] (tx_ds s))) k
        = val (tx_ds s) k"
      if "k \<notin> send_keys \<union> {''zerotouch.state'', ''zerotouch.sessions''}" for k
      using that by (auto simp: map_add_def)
  qed
  with assms(2) show ?thesis by (simp add: waiting_def publish_state_def seen_of_def)
qed

lemma pause_waiting:
  assumes "pause_step E (calm (de_client E) val okc m) s s'" "plain_store (de_client E) val"
    and "plain_volatile (de_client E) val" "steady (de_smsctl E) (\<lambda>i. fst (de_clock E i)) okc good"
    and "waiting E val okc good deny prev m t s"
  shows "waiting E val okc good deny prev m t s'"
  using assms(1)
proof cases
  case p_wake
  then show ?thesis using assms(5) by (simp add: tx_handle_exception_def waiting_def seen_of_def)
next
  case p_cfg_wake
  let ?s = "s\<lparr>m_cfg_dirty := False\<rparr>"
  have w: "waiting E val okc good deny prev m t ?s" using assms(5) by (simp add: waiting_def seen_of_def)
  then have c: "calm (de_client E) val okc m (tx_ds ?s)" by (simp add: waiting_def)
  obtain d port where l: "load_config_from_ds (de_client E) (de_smsctl E) ?s =
      ?s\<lparr>tx_ds := d, m_enabled := True, m_gnmi_port := port, m_sink := (m_sink ?s)\<lparr>sc_port := port\<rparr>,
        m_sessions := session_set_config (de_smsctl E) (stored_config (de_client E) (val (tx_ds ?s))) (m_sessions ?s)\<rparr>"
    and d: "val d = val (tx_ds ?s)" by (rule load_calm [OF assms(2) c])
  have "calm (de_client E) val okc m d" using c by (rule calm_cong) (simp add: d)
  moreover have "good (session_set_config (de_smsctl E) (stored_config (de_client E) (val (tx_ds ?s))) (m_sessions ?s))"
    using assms(4) w c by (simp add: steady_def waiting_def calm_def)
  ultimately have "waiting E val okc good deny prev m t (load_config_from_ds (de_client E) (de_smsctl E) ?s)"
    using w unfolding l by (simp add: waiting_def seen_of_def deny_of_port)
  from publish_waiting [OF assms(3) this, of "de_smsctl E"] w show ?thesis by (simp add: p_cfg_wake handle_exception_def Let_def)
next
  case p_tick
  obtain sec usec where c: "de_clock E (tx_reads s) = (sec, usec)" by fastforce
  let ?s = "s\<lparr>tx_reads := tx_reads s + 1, m_sessions := session_sweep (de_smsctl E) sec (m_sessions s)\<rparr>"
  have "good (session_sweep (de_smsctl E) sec (m_sessions s))"
    using assms(4,5) c unfolding steady_def outlives_sweeps_def waiting_def by (metis fst_conv)
  then have w: "waiting E val okc good deny prev m t ?s" using assms(5) by (simp add: waiting_def seen_of_def)
  from w publish_waiting [OF assms(3) w, of "de_smsctl E"] show ?thesis
    by (simp add: p_tick handle_timeout_def gettimeofday_def c Let_def)
qed (use assms(5) in \<open>auto simp: waiting_def seen_of_def on_version_event_def on_config_event_def\<close>)

text \<open>With no new message in the store, waking up changes nothing either.\<close>

lemma waiting_step:
  assumes "daemon_step E (calm (de_client E) val okc m) s s'" "plain_store (de_client E) val"
    and "plain_volatile (de_client E) val" "steady (de_smsctl E) (\<lambda>i. fst (de_clock E i)) okc good"
    and "waiting E val okc good deny m m t s"
  shows "waiting E val okc good deny m m t s'"
  using step_is_pause_or_wake [OF assms(1)]
proof
  assume "pause_step E (calm (de_client E) val okc m) s s'"
  from pause_waiting [OF this assms(2-5)] show ?thesis .
next
  assume wake: "m_sms_dirty s \<and> s' = tx_handle_exception (de_client E) (Some (Bridge_on_sms (de_bridge E))) s"
  have c: "calm (de_client E) val okc m (tx_ds s)" using assms(5) by (simp add: waiting_def)
  then obtain d' where r: "read_last (de_client E) (tx_ds s) = (Some m, d')" "val d' = val (tx_ds s)"
    using read_last_plain [OF assms(2), of "tx_ds s" m] by (auto simp: calm_def)
  have "calm (de_client E) val okc m d'" using c by (rule calm_cong) (simp add: r(2))
  with wake r(1) assms(5) show ?thesis
    by (cases m) (auto simp: tx_handle_exception_def drain_inbound_def waiting_def seen_of_def Let_def)
qed

lemma waiting_steps:
  assumes "(daemon_step E (calm (de_client E) val okc m))\<^sup>*\<^sup>* s s'" "plain_store (de_client E) val"
    and "plain_volatile (de_client E) val" "steady (de_smsctl E) (\<lambda>i. fst (de_clock E i)) okc good"
    and "waiting E val okc good deny m m t s"
  shows "waiting E val okc good deny m m t s'"
  using assms(1)
proof (induction rule: rtranclp_induct)
  case (step y z)
  from waiting_step [OF step.hyps(2) assms(2-4) step.IH] show ?case .
qed (rule assms(5))

lemma pause_steps:
  assumes "(pause_step E (calm (de_client E) val okc m))\<^sup>*\<^sup>* s s'" "plain_store (de_client E) val"
    and "plain_volatile (de_client E) val" "steady (de_smsctl E) (\<lambda>i. fst (de_clock E i)) okc good"
    and "waiting E val okc good deny prev m t s"
  shows "waiting E val okc good deny prev m t s'"
  using assms(1)
proof (induction rule: rtranclp_induct)
  case (step y z)
  from pause_waiting [OF step.hyps(2) assms(2-4) step.IH] show ?case .
qed (rule assms(5))

subsection \<open>One message among other events\<close>

text \<open>The wake-up that finds a new message is the last step of a turn on the same store.\<close>

lemma wake_is_turn:
  "m_sms_dirty s \<Longrightarrow> tx_handle_exception (de_client E) (Some (Bridge_on_sms (de_bridge E))) s = sms_turn E (tx_ds s) s"
  by (cases s) (simp add: sms_turn_def tx_handle_exception_def on_version_event_def)

lemma delivery_waiting:
  assumes "plain_store (de_client E) val" "codec_ok (de_gnmi E)" "served_by (de_gnmi E) clk (de_rpc E)"
    and "is_reachable_sender sender" "admin_sender E sender good" "m_sms_dirty s"
    and "waiting E val okc good deny prev (sender, txt, ts) t s" "prev \<noteq> (sender, txt, ts)" "txt \<noteq> []"
    and "parse_gnmi (tokenize (de_smsctl E) txt) = g" "cmd_ok (de_gnmi E) g" "tree_texts (de_gnmi E) t"
    and "s' = tx_handle_exception (de_client E) (Some (Bridge_on_sms (de_bridge E))) s"
  shows "outbox (de_client E) val (tx_ds s') = (Some sender, Some (fst (ref_answer deny g t)))
    \<and> waiting E val okc good deny (sender, txt, ts) (sender, txt, ts) (snd (ref_answer deny g t)) s'"
proof -
  have w: "m_enabled s" "good (m_sessions s)" "seen_of s \<noteq> (sender, txt, ts)" "m_net s = t"
    "sc_set_role (m_sink s) = ''ADMIN''" "deny_of (m_sink s) = deny" and c: "calm (de_client E) val okc (sender, txt, ts) (tx_ds s)"
    using assms(7,8) by (simp_all add: waiting_def)
  have h: "holds_sms (de_client E) val (tx_ds s) (sender, txt, ts)" using c by (simp add: calm_def)
  have "gnmi_answer (de_gnmi E) (de_rpc E) (m_sink s) g (m_net s) = (fst (ref_answer deny g t), snd (ref_answer deny g t))"
    using answer_ref [OF assms(2,3) w(5) assms(11,12)] w(4,6) by simp
  moreover have "cmd_kind g \<in> {Get, Set}" using assms(11) by (simp add: cmd_ok_def)
  ultimately have a: "outbox (de_client E) val (tx_ds s') = (Some sender, Some (fst (ref_answer deny g t)))
      \<and> m_net s' = snd (ref_answer deny g t) \<and> seen_of s' = (sender, txt, ts) \<and> m_sink s' = m_sink s
      \<and> m_enabled s' \<and> good (m_sessions s') \<and> (\<forall>k. k \<notin> send_keys \<longrightarrow> val (tx_ds s') k = val (tx_ds s) k)"
    unfolding assms(13) wake_is_turn [OF assms(6)]
    by (intro turn_answered [OF assms(1) h assms(4,9) w(3,1) assms(5) w(2) assms(10)])
  have "calm (de_client E) val okc (sender, txt, ts) (tx_ds s')" using c by (rule calm_cong) (use a in simp)
  with a w show ?thesis by (simp add: waiting_def)
qed

subsection \<open>A dialog\<close>

text \<open>
  A message \<open>(sender, txt, ts)\<close> is delivered when, after any events, the store comes to hold it, and after
  any further events, the watch among them, the reactor wakes up.  The trace of a dialog is the texts
  with what was left for the SMS service after each.
\<close>

inductive dialog ::
  "('d, 'v, 'ss, 'c, 'j, 'p, 'w, 'b, GnmiTree) daemon_env \<Rightarrow> ('d \<Rightarrow> string \<Rightarrow> 'v option) \<Rightarrow> (SessionConfig \<Rightarrow> bool) \<Rightarrow> string
     \<Rightarrow> sms3 \<Rightarrow> ('d, 'ss, GnmiTree) ZeroTouchClient \<Rightarrow> (string \<times> string option \<times> string option) list
     \<Rightarrow> ('d, 'ss, GnmiTree) ZeroTouchClient \<Rightarrow> bool"
  for E and val and okc and sender where
  over: "(daemon_step E (calm (de_client E) val okc m))\<^sup>*\<^sup>* s s' \<Longrightarrow> dialog E val okc sender m s [] s'"
| turn: "(daemon_step E (calm (de_client E) val okc m))\<^sup>*\<^sup>* s s1 \<Longrightarrow>
    calm (de_client E) val okc (sender, txt, ts) d \<Longrightarrow> txt \<noteq> [] \<Longrightarrow> m \<noteq> (sender, txt, ts) \<Longrightarrow>
    (pause_step E (calm (de_client E) val okc (sender, txt, ts)))\<^sup>*\<^sup>* (s1\<lparr>tx_ds := d\<rparr>) s2 \<Longrightarrow> m_sms_dirty s2 \<Longrightarrow>
    s3 = tx_handle_exception (de_client E) (Some (Bridge_on_sms (de_bridge E))) s2 \<Longrightarrow>
    dialog E val okc sender (sender, txt, ts) s3 tr s' \<Longrightarrow>
    dialog E val okc sender m s ((txt, outbox (de_client E) val (tx_ds s3)) # tr) s'"

lemma dialog_ref:
  assumes "dialog E val okc sender m s tr s'" "waiting E val okc good deny m m t s" "tree_texts (de_gnmi E) t"
    and "plain_store (de_client E) val" "plain_volatile (de_client E) val" "codec_ok (de_gnmi E)"
    and "served_by (de_gnmi E) clk (de_rpc E)" "is_reachable_sender sender" "admin_sender E sender good"
    and "steady (de_smsctl E) (\<lambda>i. fst (de_clock E i)) okc good"
    and "\<forall>e \<in> set tr. cmd_ok (de_gnmi E) (parse_gnmi (tokenize (de_smsctl E) (fst e)))"
  shows "map snd tr = map (\<lambda>r. (Some sender, Some r))
      (fst (ref_run deny (map (\<lambda>e. parse_gnmi (tokenize (de_smsctl E) (fst e))) tr) t))
    \<and> m_net s' = snd (ref_run deny (map (\<lambda>e. parse_gnmi (tokenize (de_smsctl E) (fst e))) tr) t)"
  using assms(1-3,11)
proof (induction arbitrary: t rule: dialog.induct)
  case (over m s s')
  from waiting_steps [OF over.hyps assms(4,5,10) over.prems(1)] show ?case by (simp add: waiting_def)
next
  case (turn m s s1 "txt" ts d s2 s3 tr s')
  let ?g = "parse_gnmi (tokenize (de_smsctl E) txt)" and ?m = "(sender, txt, ts)"
  have "waiting E val okc good deny m m t s1" by (rule waiting_steps [OF turn.hyps(1) assms(4,5,10) turn.prems(1)])
  then have "waiting E val okc good deny m ?m t (s1\<lparr>tx_ds := d\<rparr>)" using turn.hyps(2) by (simp add: waiting_def seen_of_def)
  then have w: "waiting E val okc good deny m ?m t s2" by (rule pause_steps [OF turn.hyps(5) assms(4,5,10)])
  have g: "cmd_ok (de_gnmi E) ?g" using turn.prems(3) by simp
  from delivery_waiting [OF assms(4,6-9) turn.hyps(6) w turn.hyps(4,3) refl g turn.prems(2) turn.hyps(7)]
  have d: "outbox (de_client E) val (tx_ds s3) = (Some sender, Some (fst (ref_answer deny ?g t)))"
    "waiting E val okc good deny ?m ?m (snd (ref_answer deny ?g t)) s3" by simp_all
  have "tree_texts (de_gnmi E) (snd (ref_answer deny ?g t))" by (rule ref_answer_texts [OF turn.prems(2) g])
  from turn.IH [OF d(2) this] turn.prems(3) d(1) show ?case by (simp add: Let_def case_prod_beta)
qed

text \<open>
  C2.  The daemon refines the reference server, whatever else goes on: over any dialog with an
  administrator, with timer ticks, configuration reloads, wake-ups for nothing and writes of other
  processes between and during the deliveries, the replies left in the data store are, one for
  each message and in order, those of the reference function run on the commands, and the server's
  tree is the tree of that run.
\<close>

theorem daemon_refines_reference:
  assumes "dialog E val okc sender (seen_of s) s tr s'"
    and "m_enabled s" "good (m_sessions s)" "sc_set_role (m_sink s) = ''ADMIN''"
    and "calm (de_client E) val okc (seen_of s) (tx_ds s)" "tree_texts (de_gnmi E) (m_net s)"
    and "plain_store (de_client E) val" "plain_volatile (de_client E) val" "codec_ok (de_gnmi E)"
    and "served_by (de_gnmi E) clk (de_rpc E)" "is_reachable_sender sender" "admin_sender E sender good"
    and "steady (de_smsctl E) (\<lambda>i. fst (de_clock E i)) okc good"
    and "\<forall>e \<in> set tr. cmd_ok (de_gnmi E) (parse_gnmi (tokenize (de_smsctl E) (fst e)))"
  shows "let gs = map (\<lambda>e. parse_gnmi (tokenize (de_smsctl E) (fst e))) tr; run = ref_run (deny_of (m_sink s)) gs (m_net s) in
    map snd tr = map (\<lambda>r. (Some sender, Some r)) (fst run) \<and> m_net s' = snd run"
proof -
  have "waiting E val okc good (deny_of (m_sink s)) (seen_of s) (seen_of s) (m_net s) s"
    using assms(2-5) by (simp add: waiting_def)
  from dialog_ref [OF assms(1) this assms(6-14)] show ?thesis by (simp add: Let_def)
qed

text \<open>
  A SET and a GET with a timer tick in between, on the store and the server of the instance of
  theory \<open>Daemon_Conversation\<close>.
\<close>

definition chat_store :: "string \<Rightarrow> string \<Rightarrow> string \<Rightarrow> (string \<times> string) list" where
  "chat_store sender txt ts = [(''zerotouch.enabled'', ''true''), (''sms.last.sender'', sender), (''sms.last.text'', txt), (''sms.last.ts'', ts)]"

definition chat_start :: "((string \<times> string) list, unit, GnmiTree) ZeroTouchClient" where
  "chat_start = talk_start\<lparr>tx_ds := chat_store [] [] []\<rparr>"

lemma chat_calm: "calm kv_client map_of (\<lambda>_. True) (sender, txt, ts) (chat_store sender txt ts)"
  by (simp add: calm_def holds_sms_def text_of_def chat_store_def kv_client_def)

lemma kv_plain_volatile: "plain_volatile kv_client map_of"
  by (simp add: plain_volatile_def kv_client_def)

lemma chat_turn:
  assumes "dialog E val okc sender (sender, txt, ts) (tx_handle_exception (de_client E) (Some (Bridge_on_sms (de_bridge E)))
      (on_version_event (handle_timeout (de_client E) (de_smsctl E) (de_clock E) s\<lparr>tx_ds := d\<rparr>))) tr s'"
    and "calm (de_client E) val okc (sender, txt, ts) d" "txt \<noteq> []" "m \<noteq> (sender, txt, ts)"
  obtains r where "dialog E val okc sender m s ((txt, r) # tr) s'"
proof -
  let ?s1 = "handle_timeout (de_client E) (de_smsctl E) (de_clock E) s"
  have t: "(daemon_step E (calm (de_client E) val okc m))\<^sup>*\<^sup>* s ?s1" by (rule r_into_rtranclp) (rule daemon_step.intros)
  have p: "(pause_step E (calm (de_client E) val okc (sender, txt, ts)))\<^sup>*\<^sup>* (?s1\<lparr>tx_ds := d\<rparr>) (on_version_event (?s1\<lparr>tx_ds := d\<rparr>))"
    by (rule r_into_rtranclp) (rule p_sms_event)
  show ?thesis
    by (rule that) (rule turn [OF t assms(2-4) p _ refl assms(1)], simp add: on_version_event_def)
qed

theorem daemon_refines_reference_witness:
  "\<exists>s'. dialog talk_env map_of (\<lambda>_. True) ''+15551230000'' ([], [], []) chat_start
     [(''IOT GNMI SET /b 2'', Some ''+15551230000'', Some ''OK GNMI SET 1 path(s) updated''),
      (''IOT GNMI GET /b'', Some ''+15551230000'', Some ''OK GNMI GET /b=2'')] s' \<and> m_kv (m_net s') = [(''/b'', ''2'')]"
proof -
  let ?dialog = "dialog talk_env map_of (\<lambda>_. True) ''+15551230000''"
  have de: "de_client talk_env = kv_client" "de_smsctl talk_env = demo_smsctl" "de_gnmi talk_env = plain_lib"
    "de_rpc talk_env = loopback (\<lambda>_. 0)" "de_clock talk_env = (\<lambda>_. (0, 0))" by (simp_all add: talk_env_def)
  have over: "?dialog m s [] s" for m s by (rule over) simp
  have chat: "\<exists>s1. \<forall>tr s'. ?dialog (''+15551230000'', txt, ts) s1 tr s' \<longrightarrow> (\<exists>r. ?dialog m s ((txt, r) # tr) s')"
    if "txt \<noteq> []" "m \<noteq> (''+15551230000'', txt, ts)" for m s "txt" ts
    using chat_turn [OF _ chat_calm [folded de(1)] that] by metis
  obtain s1 where 1: "\<forall>tr s'. ?dialog (''+15551230000'', ''IOT GNMI SET /b 2'', ''1'') s1 tr s' \<longrightarrow>
      (\<exists>r. ?dialog ([], [], []) chat_start ((''IOT GNMI SET /b 2'', r) # tr) s')"
    using chat [of "''IOT GNMI SET /b 2''" "([], [], [])" "''1''" chat_start] by auto
  obtain s' where 2: "\<forall>tr s''. ?dialog (''+15551230000'', ''IOT GNMI GET /b'', ''2'') s' tr s'' \<longrightarrow>
      (\<exists>r. ?dialog (''+15551230000'', ''IOT GNMI SET /b 2'', ''1'') s1 ((''IOT GNMI GET /b'', r) # tr) s'')"
    using chat [of "''IOT GNMI GET /b''" "(''+15551230000'', ''IOT GNMI SET /b 2'', ''1'')" "''2''" s1] by auto
  from 2 over obtain r2 where "?dialog (''+15551230000'', ''IOT GNMI SET /b 2'', ''1'') s1 [(''IOT GNMI GET /b'', r2)] s'" by blast
  with 1 obtain r1 where dlg: "?dialog ([], [], []) chat_start [(''IOT GNMI SET /b 2'', r1), (''IOT GNMI GET /b'', r2)] s'" by blast
  have "served_by plain_lib (\<lambda>_. 0) (loopback (\<lambda>_. 0))" by (simp add: served_by_def loopback_def)
  moreover have "codec_ok plain_lib" by (simp add: codec_ok_def)
  moreover have "admin_sender talk_env ''+15551230000'' (\<lambda>_. True)"
    by (simp add: admin_in_def talk_env_def demo_smsctl_def account_access_def)
  moreover have "is_reachable_sender ''+15551230000''" by code_simp
  moreover have "ref_run (deny_of default_sink_config) [parse_gnmi (tokenize demo_smsctl ''IOT GNMI SET /b 2''),
      parse_gnmi (tokenize demo_smsctl ''IOT GNMI GET /b'')] empty_tree
    = ([''OK GNMI SET 1 path(s) updated'', ''OK GNMI GET /b=2''], empty_tree\<lparr>m_kv := [(''/b'', ''2'')]\<rparr>)" by code_simp
  ultimately show ?thesis
    using daemon_refines_reference [of talk_env map_of "\<lambda>_. True" "''+15551230000''" chat_start
        "[(''IOT GNMI SET /b 2'', r1), (''IOT GNMI GET /b'', r2)]" s' "\<lambda>_. True" "\<lambda>_. 0"]
      dlg kv_plain_store kv_plain_volatile chat_calm [of "[]" "[]" "[]"]
    by (auto simp: de talk_parse chat_start_def talk_start_def seen_of_def default_sink_config_def cmd_ok_def path_ok_def
        text_ok_def tree_texts_def empty_command_def empty_tree_def steady_def outlives_sweeps_def)
qed

end
