(* ===== verification/Direct_Action.thy ===== *)
theory Direct_Action
  imports Smsctl
begin

text \<open>
  The modem seam (\<open>inc/zerotouch/modem.hpp\<close>), the transport over it
  (\<open>inc/zerotouch/at_modem_transport.hpp\<close>) and the appliance's backend of the classic commands
  (\<open>src/direct_action_sink.cpp\<close>): key writes and reads become AT commands on the shared modem.
\<close>

record AtResult =
  at_ok :: bool
  at_lines :: "string list"

definition line_with :: "AtResult \<Rightarrow> string \<Rightarrow> string" where
  "line_with r p = (case find (prefix p) (at_lines r) of Some l \<Rightarrow> l | None \<Rightarrow> [])"

text \<open>\<open>start\<close> runs with the callback registered by \<open>on_sms\<close> before it.\<close>

record 'w IModem =
  md_at :: "string \<Rightarrow> ('w, AtResult) eff"
  md_send_sms :: "string \<Rightarrow> string \<Rightarrow> ('w, bool) eff"
  md_start :: "(InboundSms \<Rightarrow> 'w \<Rightarrow> 'w) callable \<Rightarrow> 'w \<Rightarrow> 'w"

definition AtModemTransport :: "'w IModem \<Rightarrow> 'w ISmsTransport" where
  "AtModemTransport modem = \<lparr>tx_send = md_send_sms modem, tx_start = md_start modem\<rparr>"

subsection \<open>Fields of a response line\<close>

definition at_trim :: "string \<Rightarrow> string" where
  "at_trim cur =
     rev (dropWhile (\<lambda>c. c = CHR '' '' \<or> c = dquote \<or> c = creturn)
       (rev (dropWhile (\<lambda>c. c = CHR '' '' \<or> c = dquote) cur)))"

fun at_fields_loop :: "string list \<Rightarrow> string \<Rightarrow> string \<Rightarrow> string list" where
  "at_fields_loop out cur [] = out @ [at_trim cur]"
| "at_fields_loop out cur (c # s) =
     (if c = CHR '','' then at_fields_loop (out @ [at_trim cur]) [] s
      else at_fields_loop out (cur @ [c]) s)"

definition at_fields :: "string \<Rightarrow> string list" where
  "at_fields line =
     (case str_find CHR '':'' line of
        None \<Rightarrow> []
      | Some colon \<Rightarrow> at_fields_loop [] [] (drop (colon + 1) line))"

definition reg_label :: "string \<Rightarrow> string" where
  "reg_label stat =
     (if stat = ''1'' then ''home''
      else if stat = ''5'' then ''roam''
      else if stat = ''2'' then ''searching''
      else if stat = ''3'' then ''denied''
      else if stat = ''0'' then ''off''
      else ''-'')"

subsection \<open>The backend\<close>

definition DirectActionSink_set :: "'w IModem \<Rightarrow> string \<Rightarrow> string \<Rightarrow> ('w, bool) eff" where
  "DirectActionSink_set modem key value w =
     (if key = ''cell.apn'' then
        (let (r, w1) = md_at modem (''AT+CGDCONT=1,'' @ [dquote] @ ''IP'' @ [dquote] @ '','' @ [dquote]
                                     @ value @ [dquote]) w
         in (at_ok r, w1))
      else if key = ''cell.reset.request'' then
        (let (down, w1) = md_at modem ''AT+CFUN=0'' w;
             (up, w2) = md_at modem ''AT+CFUN=1'' w1
         in (at_ok down \<and> at_ok up, w2))
      else (True, w))"

text \<open>
  \<open>-113 + 2 * std::stoi(f[0])\<close> is computed in 32 bits; a value that does not fit is undefined in C++
  and wraps here.
\<close>

definition csq_dbm :: "int \<Rightarrow> int" where
  "csq_dbm n = sint (word_of_int (- 113 + 2 * n) :: 32 word)"

definition DirectActionSink_get :: "'w IModem \<Rightarrow> string \<Rightarrow> ('w, string option) eff" where
  "DirectActionSink_get modem key w =
     (if key = ''cell.reg'' \<or> key = ''cell.reg.cs'' then
        (let (r, w1) = md_at modem ''AT+CREG?'' w; f = at_fields (line_with r ''+CREG:'') in
         (if \<not> at_ok r then None else if length f < 2 then None else Some (reg_label (f ! 1)), w1))
      else if key = ''cell.signal.dbm'' then
        (let (r, w1) = md_at modem ''AT+CSQ'' w; f = at_fields (line_with r ''+CSQ:'') in
         (if \<not> at_ok r then None else if f = [] \<or> f ! 0 = ''99'' then None
          else map_option (\<lambda>n. to_string (csq_dbm n)) (stoi (f ! 0)), w1))
      else if key = ''cell.ip'' then
        (let (r, w1) = md_at modem ''AT+CGPADDR=1'' w; f = at_fields (line_with r ''+CGPADDR:'') in
         (if \<not> at_ok r then None
          else if length f < 2 \<or> f ! 1 = [] \<or> f ! 1 = ''0.0.0.0'' then None else Some (f ! 1), w1))
      else (None, w))"

text \<open>\<open>smsctl::kRebootTrigger\<close> is the library's name of the reboot trigger.\<close>

definition DirectActionSink_arm_trigger ::
  "string \<Rightarrow> ('w, bool) eff callable \<Rightarrow> string \<Rightarrow> string \<Rightarrow> ('w, bool) eff" where
  "DirectActionSink_arm_trigger kRebootTrigger reboot path content w =
     (if path = kRebootTrigger then (case reboot of Some f \<Rightarrow> f w | None \<Rightarrow> (False, w))
      else (False, w))"

definition DirectActionSink ::
  "'w IModem \<Rightarrow> string \<Rightarrow> ('w, bool) eff callable \<Rightarrow> ('w, u64) eff \<Rightarrow> 'w DsSink" where
  "DirectActionSink modem kRebootTrigger reboot now =
     \<lparr>ds_set = DirectActionSink_set modem, ds_get = DirectActionSink_get modem,
      ds_arm_trigger = DirectActionSink_arm_trigger kRebootTrigger reboot, ds_now_ms = now\<rparr>"

subsection \<open>Reading a response\<close>

lemma at_fields_loop_csv: "at_fields_loop (map at_trim out) cur s = map at_trim (csv_loop out cur s)"
proof (induction s arbitrary: out cur)
  case (Cons c s)
  then show ?case using Cons.IH [of "out @ [cur]" "[]"] by simp
qed simp

lemma at_fields_csv:
  "at_fields line =
     (case str_find CHR '':'' line of None \<Rightarrow> []
      | Some colon \<Rightarrow> map at_trim (csv (drop (colon + 1) line)))"
  using at_fields_loop_csv [of "[]" "[]"]
  by (cases "str_find CHR '':'' line") (simp_all add: at_fields_def csv_def del: str_find_None)

text \<open>A field as modems print it: bare, or between double quotes.\<close>

definition clean_field :: "string \<Rightarrow> bool" where
  "clean_field f \<longleftrightarrow> CHR '','' \<notin> set f \<and>
     (f = [] \<or> (hd f \<notin> {CHR '' '', dquote} \<and> last f \<notin> {CHR '' '', dquote, creturn}))"

definition quoted :: "string \<Rightarrow> string" where
  "quoted f = [dquote] @ f @ [dquote]"

lemma clean_field_comma: "clean_field f \<Longrightarrow> comma_free f"
  by (simp add: clean_field_def)

lemma at_trim_pad:
  assumes "clean_field f" "set pre \<subseteq> {CHR '' '', dquote}" "set post \<subseteq> {CHR '' '', dquote, creturn}"
    and "f = [] \<Longrightarrow> set post \<subseteq> {CHR '' '', dquote}"
  shows "at_trim (pre @ f @ post) = f"
proof (cases "f = []")
  case True
  with assms have "dropWhile (\<lambda>c. c = CHR '' '' \<or> c = dquote) (pre @ f @ post) = []"
    by (intro dropWhile_all) auto
  with True show ?thesis by (simp add: at_trim_def del: dropWhile_eq_Nil_conv)
next
  case False
  with assms have "dropWhile (\<lambda>c. c = CHR '' '' \<or> c = dquote) (pre @ f @ post) = f @ post"
    by (intro dropWhile_prefix_all) (auto simp: clean_field_def)
  moreover have "dropWhile (\<lambda>c. c = CHR '' '' \<or> c = dquote \<or> c = creturn) (rev post @ rev f) = rev f"
    using assms False by (intro dropWhile_prefix_all) (auto simp: clean_field_def hd_rev)
  ultimately show ?thesis by (simp add: at_trim_def)
qed

lemma at_trim_clean [simp]: "clean_field f \<Longrightarrow> at_trim f = f" "clean_field f \<Longrightarrow> at_trim (CHR '' '' # f) = f"
  "clean_field f \<Longrightarrow> at_trim (quoted f) = f"
  using at_trim_pad [of f "[]" "[]"] at_trim_pad [of f "'' ''" "[]"] at_trim_pad [of f "[dquote]" "[dquote]"]
  by (auto simp: quoted_def)

lemma csv_join_Cons: "fs \<noteq> [] \<Longrightarrow> csv_join (f # fs) = f @ CHR '','' # csv_join fs"
  by (cases fs) auto

lemma at_fields_line:
  assumes "CHR '':'' \<notin> set h" and "\<forall>x \<in> set (p # ps). comma_free x"
  shows "at_fields (h @ '': '' @ csv_join (p # ps)) = at_trim (CHR '' '' # p) # map at_trim ps"
proof -
  have "str_find CHR '':'' (h @ '': '' @ csv_join (p # ps)) = Some (length h)"
    using assms(1) str_find_append [of "CHR '':''" h "'' '' @ csv_join (p # ps)"] by simp
  moreover have "'' '' @ csv_join (p # ps) = csv_join ((CHR '' '' # p) # ps)"
    by (cases ps) (simp_all add: csv_join_Cons)
  then have "csv ('' '' @ csv_join (p # ps)) = (CHR '' '' # p) # ps"
    using assms(2) csv_csv_join [of "(CHR '' '' # p) # ps"] by simp
  ultimately show ?thesis by (simp add: at_fields_csv)
qed

text \<open>A field as printed: bare or in double quotes.\<close>

definition prints :: "string \<Rightarrow> string \<Rightarrow> bool" where
  "prints p f \<longleftrightarrow> (p = f \<or> p = quoted f) \<and> clean_field f"

lemma prints_trim: "prints p f \<Longrightarrow> comma_free p \<and> at_trim p = f \<and> at_trim (CHR '' '' # p) = f"
  using at_trim_pad [of f "'' ''" "[]"] at_trim_pad [of f "[CHR '' '', dquote]" "[dquote]"]
    at_trim_pad [of f "[dquote]" "[dquote]"] at_trim_clean(1) [of f]
  by (auto simp: prints_def quoted_def clean_field_comma)

text \<open>
  A response line is read field by field: for a header without a colon, a line that prints
  \<open>header: f1,f2,...\<close> with each field bare or in double quotes yields exactly the fields, whatever
  their number; the quotes and the blank after the colon are gone.
\<close>

theorem at_fields_read_back:
  assumes "CHR '':'' \<notin> set h" and "fs \<noteq> []" and "list_all2 prints ps fs"
  shows "at_fields (h @ '': '' @ csv_join ps) = fs"
proof -
  obtain p ps' f fs' where ps: "ps = p # ps'" and fs: "fs = f # fs'"
    and hd: "prints p f" and tl: "list_all2 prints ps' fs'"
    using assms(2,3) by (cases fs; cases ps) auto
  from tl have "map at_trim ps' = fs' \<and> (\<forall>x \<in> set ps'. comma_free x)"
    by (induction rule: list_all2_induct) (auto dest: prints_trim)
  then show ?thesis
    using at_fields_line [OF assms(1), of p ps'] prints_trim [OF hd] by (simp add: ps fs)
qed

theorem at_fields_read_back_witness:
  "at_fields (''+CGPADDR'' @ '': '' @ csv_join [''1'', quoted ''10.0.0.7'']) = [''1'', ''10.0.0.7'']"
  by (rule at_fields_read_back) (simp_all add: prints_def clean_field_def)

text \<open>
  What the appliance reports from the radio: with a modem that answers a signal query with
  \<open>+CSQ: rssi,ber\<close> and OK, the value read is \<open>-113 + 2 * rssi\<close> in dBm for every rssi of the standard
  (0 to 31), and absent for 99; and a query that fails reads as absent, whatever was printed.
\<close>

theorem signal_strength_read:
  assumes "md_at modem ''AT+CSQ'' w = (\<lparr>at_ok = good, at_lines = [''+CSQ: '' @ to_string n @ '','' @ ber]\<rparr>, w1)"
    and "0 \<le> n" "n \<le> 31 \<or> n = 99" and "clean_field ber"
  shows "DirectActionSink_get modem ''cell.signal.dbm'' w =
    (if good \<and> n \<noteq> 99 then Some (to_string (- 113 + 2 * n)) else None, w1)"
proof -
  have cl: "clean_field (to_string n)"
  proof -
    have "c \<noteq> CHR '','' \<and> c \<notin> {CHR '' '', dquote, creturn}" if "c \<in> set (to_string n)" for c
      using set_to_string [OF that] by (auto simp: is_digit_def)
    then show ?thesis by (auto simp: clean_field_def)
  qed
  have f: "at_fields (''+CSQ: '' @ to_string n @ '','' @ ber) = [to_string n, ber]"
    using at_fields_line [of "''+CSQ''" "to_string n" "[ber]"] cl assms(4)
    by (simp add: clean_field_comma)
  have "to_string n = ''99'' \<longleftrightarrow> n = 99"
  proof -
    have "to_string 99 = ''99''"
      by (simp add: to_string_def show_nat.simps digit_char_def char_of_def bit_0)
    then show ?thesis using strtol10_to_string [of "[]"] by (metis append_Nil2 option.inject)
  qed
  moreover have "stoi (to_string n) = Some n" using assms(2,3) by (intro stoi_to_string) (auto simp: in_signed_range_def)
  moreover have "csq_dbm n = - 113 + 2 * n" if "n \<noteq> 99"
    using that assms(2,3) by (simp only: csq_dbm_def signed_of_int) (simp add: signed_take_bit_int_eq_self)
  ultimately show ?thesis
    using assms(1) f by (auto simp: DirectActionSink_get_def line_with_def Let_def)
qed

theorem signal_strength_read_witness:
  "DirectActionSink_get
     \<lparr>md_at = (\<lambda>_ w. (\<lparr>at_ok = True, at_lines = [''+CSQ: '' @ to_string 17 @ '','' @ ''99'']\<rparr>, w + 1)),
      md_send_sms = (\<lambda>_ _ w. (True, w)), md_start = (\<lambda>_ w. w)\<rparr> ''cell.signal.dbm'' (0 :: nat)
   = (Some (to_string (- 79)), 1)"
  by (subst signal_strength_read [where n = 17 and ber = "''99''" and good = True and ?w1.0 = 1])
    (simp_all add: clean_field_def)

end
