(* ===== verification/At_Modem.thy ===== *)
theory At_Modem
  imports Direct_Action Config_File
begin

text \<open>
  The serial AT driver, \<open>src/at_modem.cpp\<close> and \<open>inc/zerotouch/at_modem.hpp\<close>: the command engine that
  writes a command and reads lines until a final result, sending an SMS, and the poll that reads the
  stored messages.

  The serial port and the clock are the record \<open>serial\<close>, over a device state \<open>'d\<close>.  The loop of
  \<open>run_at\<close> goes round as long as the clock is before the deadline; \<open>dv_slices\<close> says how often that is,
  so every run of the loop that the clock lets end is covered.  \<open>dv_writes\<close> gives the results of the
  successive \<open>write\<close> calls for a buffer (\<^term>\<open>None\<close> for \<open>EAGAIN\<close>) up to a call that fails, where the
  list ends.  The PDU codec, the reassembler and the vendor table of \<open>cellular\<close> are the record
  \<open>cell_lib\<close>.
\<close>

datatype speed_t = B9600 | B19200 | B38400 | B57600 | B115200 | B230400 | B460800 | B921600

datatype Vendor = VSierra | VQuectel | VUBlox | VGeneric

record 'd serial =
  dv_open :: "string \<Rightarrow> ('d, int) eff"
  dv_tcgetattr :: "('d, bool) eff"
  dv_tcsetattr :: "speed_t \<Rightarrow> ('d, bool) eff"
  dv_writes :: "string \<Rightarrow> ('d, nat option list) eff"
  dv_slices :: "int \<Rightarrow> ('d, nat) eff"
  dv_poll :: "('d, string option) eff"

text \<open>\<open>sm_part\<close> stands for the fields of a message that the driver does not look at.\<close>

record 'x SmsMessage =
  sm_index :: int
  sm_total :: int
  sm_sender :: string
  sm_text :: string
  sm_scts :: string
  sm_part :: 'x

record ('r, 'x) cell_lib =
  encode_sms_submit :: "string \<Rightarrow> string \<Rightarrow> (string \<times> int) option"
  decode_sms_deliver :: "string \<Rightarrow> 'x SmsMessage option"
  reasm_add :: "'x SmsMessage \<Rightarrow> ('r, 'x SmsMessage option) eff"
  parse_vendor :: "string \<Rightarrow> Vendor"

record AtModemConfig =
  amc_dev :: string
  amc_baud :: u32
  amc_poll_sec :: u32
  amc_type :: ModemType

record ('r, 'd) AtModem =
  am_cfg :: AtModemConfig
  am_fd :: int
  am_vendor :: Vendor
  am_reasm :: 'r
  am_rx :: string
  am_dev :: 'd

definition new_AtModem :: "AtModemConfig \<Rightarrow> 'r \<Rightarrow> 'd \<Rightarrow> ('r, 'd) AtModem" where
  "new_AtModem cfg r d =
     \<lparr>am_cfg = cfg, am_fd = - 1, am_vendor = VGeneric, am_reasm = r, am_rx = [], am_dev = d\<rparr>"

definition on_dev :: "('d, 'a) eff \<Rightarrow> (('r, 'd) AtModem, 'a) eff" where
  "on_dev f am = (let (r, d) = f (am_dev am) in (r, am\<lparr>am_dev := d\<rparr>))"

subsection \<open>Tables\<close>

definition baud_const :: "u32 \<Rightarrow> speed_t" where
  "baud_const baud =
     (if baud = 9600 then B9600 else if baud = 19200 then B19200 else if baud = 38400 then B38400
      else if baud = 57600 then B57600 else if baud = 115200 then B115200 else if baud = 230400 then B230400
      else if baud = 460800 then B460800 else if baud = 921600 then B921600 else B115200)"

definition is_error :: "string \<Rightarrow> bool" where
  "is_error l \<longleftrightarrow> l = ''ERROR'' \<or> prefix ''+CME ERROR'' l \<or> prefix ''+CMS ERROR'' l"

fun forced_vendor :: "ModemType \<Rightarrow> Vendor" where
  "forced_vendor Sierra = VSierra"
| "forced_vendor Quectel = VQuectel"
| "forced_vendor UBlox = VUBlox"
| "forced_vendor Generic = VGeneric"
| "forced_vendor Auto = VGeneric"

fun vendor_name :: "Vendor \<Rightarrow> string" where
  "vendor_name VSierra = ''Sierra''"
| "vendor_name VQuectel = ''Quectel''"
| "vendor_name VUBlox = ''u-blox''"
| "vendor_name VGeneric = ''Generic''"

subsection \<open>The command engine\<close>

definition open_port :: "'d serial \<Rightarrow> (('r, 'd) AtModem, bool) eff" where
  "open_port dev am =
     (let (fd, am1) = on_dev (dv_open dev (amc_dev (am_cfg am))) am;
          am2 = am1\<lparr>am_fd := fd\<rparr>
      in if fd < 0 then (False, am2)
         else
           (let (got, am3) = on_dev (dv_tcgetattr dev) am2 in
            if \<not> got then (False, am3)
            else on_dev (dv_tcsetattr dev (baud_const (amc_baud (am_cfg am)))) am3))"

fun at_write_loop :: "nat \<Rightarrow> nat \<Rightarrow> nat option list \<Rightarrow> bool" where
  "at_write_loop off len [] = (\<not> off < len)"
| "at_write_loop off len (n # ns) =
     (if \<not> off < len then True
      else (case n of None \<Rightarrow> at_write_loop off len ns | Some k \<Rightarrow> at_write_loop (off + k) len ns))"

definition write_all :: "'d serial \<Rightarrow> string \<Rightarrow> (('r, 'd) AtModem, bool) eff" where
  "write_all dev s am =
     (let (ns, am1) = on_dev (dv_writes dev s) am in (at_write_loop 0 (length s) ns, am1))"

definition strip_cr :: "string \<Rightarrow> string" where
  "strip_cr line = (if line \<noteq> [] \<and> last line = creturn then butlast line else line)"

text \<open>
  The inner loop over the complete lines of the buffer: a final result ends the command, and what
  is left in the buffer stays there.
\<close>

function at_take_lines :: "string \<Rightarrow> string \<Rightarrow> string list \<Rightarrow> AtResult option \<times> string \<times> string list" where
  "at_take_lines cmd rx acc =
     (case str_find newline rx of
        None \<Rightarrow> (None, rx, acc)
      | Some nl \<Rightarrow>
          (let line = strip_cr (substr 0 nl rx); rest = drop (nl + 1) rx in
           if line = [] \<or> line = cmd then at_take_lines cmd rest acc
           else if line = ''OK'' then (Some \<lparr>at_ok = True, at_lines = acc\<rparr>, rest, acc)
           else if is_error line then (Some \<lparr>at_ok = False, at_lines = acc @ [line]\<rparr>, rest, acc @ [line])
           else at_take_lines cmd rest (acc @ [line])))"
  by pat_completeness auto
termination
  by (relation "measure (\<lambda>(cmd, rx, acc). length rx)") (auto dest!: str_find_SomeD)

declare at_take_lines.simps [simp del]

fun run_at_loop :: "'d serial \<Rightarrow> string \<Rightarrow> bool \<Rightarrow> nat \<Rightarrow> string list \<Rightarrow> (('r, 'd) AtModem, AtResult) eff" where
  "run_at_loop dev cmd want_prompt 0 acc am = (\<lparr>at_ok = False, at_lines = acc\<rparr>, am)"
| "run_at_loop dev cmd want_prompt (Suc k) acc am =
     (case on_dev (dv_poll dev) am of
        (None, am1) \<Rightarrow> run_at_loop dev cmd want_prompt k acc am1
      | (Some buf, am1) \<Rightarrow>
          (let rx = am_rx am1 @ buf in
           if want_prompt \<and> CHR ''>'' \<in> set rx then
             (\<lparr>at_ok = True, at_lines = acc\<rparr>, am1\<lparr>am_rx := []\<rparr>)
           else
             (case at_take_lines cmd rx acc of
                (Some res, rx1, acc1) \<Rightarrow> (res, am1\<lparr>am_rx := rx1\<rparr>)
              | (None, rx1, acc1) \<Rightarrow> run_at_loop dev cmd want_prompt k acc1 (am1\<lparr>am_rx := rx1\<rparr>))))"

definition no_result :: AtResult where
  "no_result = \<lparr>at_ok = False, at_lines = []\<rparr>"

definition run_at :: "'d serial \<Rightarrow> string \<Rightarrow> int \<Rightarrow> bool \<Rightarrow> (('r, 'd) AtModem, AtResult) eff" where
  "run_at dev cmd timeout_ms want_prompt am =
     (if am_fd am < 0 then (no_result, am)
      else
        (let (written, am1) = (if cmd \<noteq> [] then write_all dev (cmd @ [creturn]) am else (True, am)) in
         if \<not> written then (no_result, am1)
         else
           (let (k, am2) = on_dev (dv_slices dev timeout_ms) am1
            in run_at_loop dev cmd want_prompt k [] am2)))"

definition AtModem_at :: "'d serial \<Rightarrow> string \<Rightarrow> (('r, 'd) AtModem, AtResult) eff" where
  "AtModem_at dev cmd = run_at dev cmd 3000 False"

definition AtModem_send_sms ::
  "'d serial \<Rightarrow> ('r, 'x) cell_lib \<Rightarrow> string \<Rightarrow> string \<Rightarrow> (('r, 'd) AtModem, bool) eff" where
  "AtModem_send_sms dev cell to txt am =
     (case encode_sms_submit cell to txt of
        None \<Rightarrow> (False, am)
      | Some (pdu, tpdu_len) \<Rightarrow>
          (let (_, am1) = write_all dev [CHR 0x1B] am;
               (_, am2) = run_at dev ''AT+CMGF=0'' 1000 False am1;
               (prompt, am3) = run_at dev (''AT+CMGS='' @ to_string tpdu_len) 5000 True am2
           in if \<not> at_ok prompt then (False, am3)
              else
                (let (written, am4) = write_all dev (pdu @ [CHR 0x1A]) am3 in
                 if \<not> written then (False, am4)
                 else (let (r, am5) = run_at dev [] 60000 False am4 in (at_ok r, am5)))))"

definition resolve_vendor :: "'d serial \<Rightarrow> ('r, 'x) cell_lib \<Rightarrow> ('r, 'd) AtModem \<Rightarrow> ('r, 'd) AtModem" where
  "resolve_vendor dev cell am =
     (if amc_type (am_cfg am) \<noteq> Auto then am\<lparr>am_vendor := forced_vendor (amc_type (am_cfg am))\<rparr>
      else
        (let (r1, am1) = AtModem_at dev ''AT+GMI'' am;
             (r2, am2) = AtModem_at dev ''AT+CGMM'' am1;
             ident = concat (map (\<lambda>l. l @ '' '') (at_lines r1)) @ concat (map (\<lambda>l. l @ '' '') (at_lines r2))
         in am2\<lparr>am_vendor := parse_vendor cell ident\<rparr>))"

definition configure :: "'d serial \<Rightarrow> ('r, 'd) AtModem \<Rightarrow> ('r, 'd) AtModem" where
  "configure dev am =
     (let am0 = snd (write_all dev [CHR 0x1B] am);
          am1 = snd (run_at dev ''ATE0'' 1000 False am0);
          am2 = snd (run_at dev ''AT+CMEE=1'' 1000 False am1);
          am3 = snd (run_at dev ''AT+CMGF=0'' 1000 False am2)
      in snd (run_at dev ''AT+CNMI=2,1,0,0,0'' 1000 False am3))"

subsection \<open>Stored messages\<close>

text \<open>
  The callback that receives a message runs in the program that owns the modem, and may use the
  modem again (to reply), so the poll works on a state that has the modem as a part.
\<close>

record 'm Machine =
  mc_modem :: 'm
  mc_reads :: nat

definition on_machine :: "('m, 'a) eff \<Rightarrow> (('m, 'z) Machine_scheme, 'a) eff" where
  "on_machine f s = (let (r, m) = f (mc_modem s) in (r, s\<lparr>mc_modem := m\<rparr>))"

definition take_message ::
  "('r, 'x) cell_lib \<Rightarrow> (InboundSms \<Rightarrow> (('r, 'd) AtModem, 'z) Machine_scheme \<Rightarrow> (('r, 'd) AtModem, 'z) Machine_scheme) callable
     \<Rightarrow> 'x SmsMessage \<Rightarrow> (('r, 'd) AtModem, 'z) Machine_scheme \<Rightarrow> (('r, 'd) AtModem, 'z) Machine_scheme" where
  "take_message cell on_sms msg s =
     (let (complete, s1) =
        (if sm_total msg = 0 then (Some msg, s)
         else on_machine (\<lambda>am. let (r, q) = reasm_add cell msg (am_reasm am) in (r, am\<lparr>am_reasm := q\<rparr>)) s)
      in case (complete, on_sms) of
           (Some full, Some f) \<Rightarrow> f \<lparr>sms_sender = sm_sender full, sms_text = sm_text full, sms_ts = sm_scts full\<rparr> s1
         | _ \<Rightarrow> s1)"

fun drain_loop ::
  "('r, 'x) cell_lib \<Rightarrow> (InboundSms \<Rightarrow> (('r, 'd) AtModem, 'z) Machine_scheme \<Rightarrow> (('r, 'd) AtModem, 'z) Machine_scheme) callable
     \<Rightarrow> string list \<Rightarrow> int list \<Rightarrow> ((('r, 'd) AtModem, 'z) Machine_scheme, int list) eff" where
  "drain_loop cell on_sms [] to_delete s = (to_delete, s)"
| "drain_loop cell on_sms [l] to_delete s = (to_delete, s)"
| "drain_loop cell on_sms (l # pdu # ls) to_delete s =
     (if \<not> prefix ''+CMGL:'' l then drain_loop cell on_sms (pdu # ls) to_delete s
      else
        (case stoi (drop (the (str_find CHR '':'' l) + 1) l) of
           None \<Rightarrow> drain_loop cell on_sms (pdu # ls) to_delete s
         | Some index \<Rightarrow>
             (case decode_sms_deliver cell pdu of
                None \<Rightarrow> drain_loop cell on_sms ls to_delete s
              | Some msg \<Rightarrow>
                  drain_loop cell on_sms ls (to_delete @ [index])
                    (take_message cell on_sms (msg\<lparr>sm_index := index\<rparr>) s))))"

definition delete_stored ::
  "'d serial \<Rightarrow> int \<Rightarrow> (('r, 'd) AtModem, 'z) Machine_scheme \<Rightarrow> (('r, 'd) AtModem, 'z) Machine_scheme" where
  "delete_stored dev idx s = snd (on_machine (AtModem_at dev (''AT+CMGD='' @ to_string idx)) s)"

definition drain_sms ::
  "'d serial \<Rightarrow> ('r, 'x) cell_lib
     \<Rightarrow> (InboundSms \<Rightarrow> (('r, 'd) AtModem, 'z) Machine_scheme \<Rightarrow> (('r, 'd) AtModem, 'z) Machine_scheme) callable
     \<Rightarrow> (('r, 'd) AtModem, 'z) Machine_scheme \<Rightarrow> (('r, 'd) AtModem, 'z) Machine_scheme" where
  "drain_sms dev cell on_sms s =
     (let (r, s1) = on_machine (AtModem_at dev ''AT+CMGL=4'') s in
      if \<not> at_ok r then s1
      else (let (to_delete, s2) = drain_loop cell on_sms (at_lines r) [] s1
            in for_each (delete_stored dev) to_delete s2))"

definition modem_setup ::
  "'d serial \<Rightarrow> ('r, 'x) cell_lib \<Rightarrow> (('r, 'd) AtModem, 'z) Machine_scheme \<Rightarrow> (('r, 'd) AtModem, 'z) Machine_scheme" where
  "modem_setup dev cell s = s\<lparr>mc_modem := configure dev (resolve_vendor dev cell (mc_modem s))\<rparr>"

definition AtModem_start ::
  "'d serial \<Rightarrow> ('r, 'x) cell_lib
     \<Rightarrow> (InboundSms \<Rightarrow> (('r, 'd) AtModem, 'z) Machine_scheme \<Rightarrow> (('r, 'd) AtModem, 'z) Machine_scheme) callable
     \<Rightarrow> (('r, 'd) AtModem, 'z) Machine_scheme \<Rightarrow> (('r, 'd) AtModem, 'z) Machine_scheme" where
  "AtModem_start dev cell on_sms s =
     (let (opened, s1) = on_machine (open_port dev) s in
      if \<not> opened then s1 else drain_sms dev cell on_sms (modem_setup dev cell s1))"

definition modem_handle_timeout ::
  "'d serial \<Rightarrow> ('r, 'x) cell_lib
     \<Rightarrow> (InboundSms \<Rightarrow> (('r, 'd) AtModem, 'z) Machine_scheme \<Rightarrow> (('r, 'd) AtModem, 'z) Machine_scheme) callable
     \<Rightarrow> (('r, 'd) AtModem, 'z) Machine_scheme \<Rightarrow> (('r, 'd) AtModem, 'z) Machine_scheme" where
  "modem_handle_timeout dev cell on_sms s = drain_sms dev cell on_sms s"

text \<open>The driver behind the modem seam.\<close>

definition AtModem_seam :: "'d serial \<Rightarrow> ('r, 'x) cell_lib \<Rightarrow> (('r, 'd) AtModem, 'z) Machine_scheme IModem" where
  "AtModem_seam dev cell =
     \<lparr>md_at = (\<lambda>cmd. on_machine (AtModem_at dev cmd)),
      md_send_sms = (\<lambda>to txt. on_machine (AtModem_send_sms dev cell to txt)),
      md_start = AtModem_start dev cell\<rparr>"

subsection \<open>Reading a response, however it is cut\<close>

definition at_text :: "string list \<Rightarrow> string" where
  "at_text ls = concat (map (\<lambda>l. l @ [creturn, newline]) ls)"

text \<open>The lines of a response that the caller sees: blank lines and the echo of the command are dropped.\<close>

definition kept :: "string \<Rightarrow> string list \<Rightarrow> string list" where
  "kept cmd ls = filter (\<lambda>l. l \<noteq> [] \<and> l \<noteq> cmd) ls"

definition ordinary :: "string \<Rightarrow> bool" where
  "ordinary l \<longleftrightarrow> newline \<notin> set l \<and> l \<noteq> ''OK'' \<and> \<not> is_error l"

definition final_line :: "string \<Rightarrow> string \<Rightarrow> bool" where
  "final_line cmd t \<longleftrightarrow> newline \<notin> set t \<and> t \<noteq> cmd \<and> (t = ''OK'' \<or> is_error t)"

definition final_result :: "string \<Rightarrow> string list \<Rightarrow> AtResult" where
  "final_result t ls = (if t = ''OK'' then \<lparr>at_ok = True, at_lines = ls\<rparr> else \<lparr>at_ok = False, at_lines = ls @ [t]\<rparr>)"

fun polls :: "'d serial \<Rightarrow> nat \<Rightarrow> 'd \<Rightarrow> string option list" where
  "polls dev 0 d = []"
| "polls dev (Suc n) d = (let (p, d1) = dv_poll dev d in p # polls dev n d1)"

definition received :: "string option list \<Rightarrow> string" where
  "received ps = concat (map (\<lambda>p. case p of None \<Rightarrow> [] | Some b \<Rightarrow> b) ps)"

lemma strip_cr_snoc [simp]: "strip_cr (l @ [creturn]) = l"
  by (simp add: strip_cr_def)

lemma at_take_lines_line:
  assumes "newline \<notin> set l"
  shows "at_take_lines cmd (l @ creturn # newline # rest) acc =
    (if l = [] \<or> l = cmd then at_take_lines cmd rest acc
     else if l = ''OK'' then (Some \<lparr>at_ok = True, at_lines = acc\<rparr>, rest, acc)
     else if is_error l then (Some \<lparr>at_ok = False, at_lines = acc @ [l]\<rparr>, rest, acc @ [l])
     else at_take_lines cmd rest (acc @ [l]))"
proof -
  have "str_find newline ((l @ [creturn]) @ newline # rest) = Some (length (l @ [creturn]))"
    by (rule str_find_append) (use assms in simp)
  then show ?thesis by (subst at_take_lines.simps) (simp add: substr_def)
qed

lemma at_take_lines_none: "newline \<notin> set rx \<Longrightarrow> at_take_lines cmd rx acc = (None, rx, acc)"
  by (subst at_take_lines.simps) (simp add: str_find_def)

lemma cut_at_newline:
  assumes "newline \<in> set rx" "rx @ rest = p @ newline # post" "newline \<notin> set p"
  shows "\<exists>rx2. rx = p @ newline # rx2 \<and> rx2 @ rest = post"
proof -
  from assms(2) obtain us where "rx = p @ us \<and> us @ rest = newline # post \<or> rx @ us = p \<and> rest = us @ newline # post"
    by (auto simp: append_eq_append_conv2)
  with assms(1,3) have us: "rx = p @ us" "us @ rest = newline # post" by auto
  with assms(1,3) show ?thesis by (cases us) auto
qed

lemma final_not_kept: "final_line cmd t \<Longrightarrow> t \<noteq> []"
  by (auto simp: final_line_def is_error_def)

lemma at_take_lines_part:
  assumes "rx @ rest = at_text ls @ t @ [creturn, newline]" "\<forall>l \<in> set ls. ordinary l" "final_line cmd t"
  shows "(\<exists>ls1 ls2 rx1. ls = ls1 @ ls2 \<and> at_take_lines cmd rx acc = (None, rx1, acc @ kept cmd ls1)
      \<and> newline \<notin> set rx1 \<and> rx1 @ rest = at_text ls2 @ t @ [creturn, newline])
    \<or> rest = [] \<and> (\<exists>acc1. at_take_lines cmd rx acc = (Some (final_result t (acc @ kept cmd ls)), [], acc1))"
  using assms(1,2)
proof (induction ls arbitrary: rx acc)
  case Nil
  show ?case
  proof (cases "newline \<in> set rx")
    case True
    have "rx @ rest = (t @ [creturn]) @ newline # []" using Nil.prems(1) by (simp add: at_text_def)
    from cut_at_newline [OF True this] assms(3) have "rx = t @ [creturn] @ [newline] \<and> rest = []"
      by (auto simp: final_line_def)
    then show ?thesis using at_take_lines_line [of t cmd "[]" acc] assms(3) final_not_kept [OF assms(3)]
      by (auto simp: final_line_def final_result_def kept_def)
  next
    case False
    then have "at_take_lines cmd rx acc = (None, rx, acc @ kept cmd [])"
      by (simp add: at_take_lines_none kept_def)
    with Nil.prems(1) False show ?thesis by blast
  qed
next
  case (Cons l ls)
  have l: "newline \<notin> set l" "l \<noteq> ''OK''" "\<not> is_error l" using Cons.prems(2) by (auto simp: ordinary_def)
  show ?case
  proof (cases "newline \<in> set rx")
    case True
    have "rx @ rest = (l @ [creturn]) @ newline # (at_text ls @ t @ [creturn, newline])"
      using Cons.prems(1) by (simp add: at_text_def)
    from cut_at_newline [OF True this] l(1) obtain rx2 where rx: "rx = l @ creturn # newline # rx2" and
      rest: "rx2 @ rest = at_text ls @ t @ [creturn, newline]"
      by auto
    have step: "at_take_lines cmd rx acc = at_take_lines cmd rx2 (acc @ kept cmd [l])"
      using l by (simp add: rx at_take_lines_line kept_def)
    have k: "kept cmd (l # xs) = kept cmd [l] @ kept cmd xs" for xs by (simp add: kept_def)
    from Cons.IH [OF rest, of "acc @ kept cmd [l]"] Cons.prems(2)
    consider ls1 ls2 rx1 where "ls = ls1 @ ls2" "at_take_lines cmd rx acc = (None, rx1, acc @ kept cmd (l # ls1))"
        "newline \<notin> set rx1" "rx1 @ rest = at_text ls2 @ t @ [creturn, newline]"
      | acc1 where "rest = []" "at_take_lines cmd rx acc = (Some (final_result t (acc @ kept cmd (l # ls))), [], acc1)"
      unfolding step k [of ls] by (auto simp: k [symmetric])
    then show ?thesis by cases (blast intro: append_Cons [symmetric])+
  next
    case False
    then have "at_take_lines cmd rx acc = (None, rx, acc @ kept cmd [])"
      by (simp add: at_take_lines_none kept_def)
    with Cons.prems(1) False show ?thesis by blast
  qed
qed

lemma run_at_loop_reads:
  assumes "am_rx am @ received (polls dev n (am_dev am)) = at_text ls @ t @ [creturn, newline]"
    and "newline \<notin> set (am_rx am)" "\<forall>l \<in> set ls. ordinary l" "final_line cmd t" "n \<le> k"
    and "wp \<longrightarrow> CHR ''>'' \<notin> set (at_text ls @ t)"
  shows "\<exists>d. run_at_loop dev cmd wp k acc am = (final_result t (acc @ kept cmd ls), am\<lparr>am_rx := [], am_dev := d\<rparr>)"
  using assms
proof (induction n arbitrary: k acc am ls)
  case 0
  then have "newline \<in> set (am_rx am)" by (auto simp: received_def)
  with "0.prems" show ?case by simp
next
  case (Suc n)
  then obtain k' where k: "k = Suc k'" "n \<le> k'" by (cases k) auto
  obtain p d1 where p: "dv_poll dev (am_dev am) = (p, d1)" by fastforce
  show ?case
  proof (cases p)
    case None
    then have "\<exists>d. run_at_loop dev cmd wp k' acc (am\<lparr>am_dev := d1\<rparr>) =
      (final_result t (acc @ kept cmd ls), am\<lparr>am_dev := d1, am_rx := [], am_dev := d\<rparr>)"
      using Suc.prems p k by (intro Suc.IH) (auto simp: received_def)
    then show ?thesis using None p by (simp add: k on_dev_def)
  next
    case (Some b)
    have all: "(am_rx am @ b) @ received (polls dev n d1) = at_text ls @ t @ [creturn, newline]"
      using Suc.prems(1) p Some by (simp add: received_def)
    then have "set (am_rx am @ b) \<subseteq> set (at_text ls @ t @ [creturn, newline])" by (metis set_append Un_upper1)
    then have np: "\<not> (wp \<and> CHR ''>'' \<in> set (am_rx am @ b))" using Suc.prems(6) by auto
    from at_take_lines_part [OF all Suc.prems(3,4), of acc] show ?thesis
    proof (elim disjE exE conjE)
      fix ls1 ls2 rx1
      assume ls: "ls = ls1 @ ls2" and tl: "at_take_lines cmd (am_rx am @ b) acc = (None, rx1, acc @ kept cmd ls1)"
        and rx1: "newline \<notin> set rx1" "rx1 @ received (polls dev n d1) = at_text ls2 @ t @ [creturn, newline]"
      have "\<exists>d. run_at_loop dev cmd wp k' (acc @ kept cmd ls1) (am\<lparr>am_dev := d1, am_rx := rx1\<rparr>) =
        (final_result t ((acc @ kept cmd ls1) @ kept cmd ls2), am\<lparr>am_dev := d1, am_rx := rx1, am_rx := [], am_dev := d\<rparr>)"
        using Suc.prems ls rx1 k by (intro Suc.IH) (auto simp: at_text_def)
      then show ?thesis using Some p tl ls np by (auto simp: k on_dev_def kept_def)
    qed (use Some p np in \<open>auto simp: k on_dev_def intro!: exI [of _ d1]\<close>)
  qed
qed

lemma write_all_frame: "write_all dev s am = (b, am1) \<Longrightarrow> am1 = am\<lparr>am_dev := am_dev am1\<rparr>"
  by (auto simp: write_all_def on_dev_def Let_def split: prod.splits)

lemma write_all_fields:
  "write_all dev s am = (b, am1) \<Longrightarrow>
     am_rx am1 = am_rx am \<and> am_fd am1 = am_fd am \<and> am_reasm am1 = am_reasm am \<and> am_vendor am1 = am_vendor am"
  by (drule write_all_frame) (metis AtModem.select_convs AtModem.surjective AtModem.update_convs(6))

text \<open>
  C16. The command engine reads a response the same however the serial line cuts it: if what arrives
  before the deadline is, put together, the lines \<open>ls\<close> and a final result \<open>t\<close>, then \<open>at()\<close> returns
  success with exactly those lines (without blank ones and the echo of the command) when \<open>t\<close> is
  \<open>OK\<close>, and failure with the error line added when \<open>t\<close> is an error; and it leaves nothing in the
  buffer for the next command.
\<close>

theorem at_reads_response:
  assumes "0 \<le> am_fd am" "am_rx am = []" "cmd \<noteq> []" "write_all dev (cmd @ [creturn]) am = (True, am1)"
    and "dv_slices dev 3000 (am_dev am1) = (k, d)" "n \<le> k"
    and "received (polls dev n d) = at_text ls @ t @ [creturn, newline]"
    and "\<forall>l \<in> set ls. ordinary l" "final_line cmd t"
  shows "fst (AtModem_at dev cmd am) = final_result t (kept cmd ls) \<and> am_rx (snd (AtModem_at dev cmd am)) = []"
proof -
  have "am_rx am1 = []" using write_all_fields [OF assms(4)] assms(2) by simp
  then have "\<exists>d'. run_at_loop dev cmd False k [] (am1\<lparr>am_dev := d\<rparr>) =
    (final_result t ([] @ kept cmd ls), am1\<lparr>am_dev := d, am_rx := [], am_dev := d'\<rparr>)"
    using assms by (intro run_at_loop_reads) auto
  then show ?thesis
    using assms(1,3-5) by (auto simp: AtModem_at_def run_at_def on_dev_def)
qed

text \<open>A port that plays back what it is given, one element per slice.\<close>

definition tape :: "string option list serial" where
  "tape =
     \<lparr>dv_open = (\<lambda>_ d. (3, d)), dv_tcgetattr = (\<lambda>d. (True, d)), dv_tcsetattr = (\<lambda>_ d. (True, d)),
      dv_writes = (\<lambda>s d. ([Some (length s)], d)), dv_slices = (\<lambda>_ d. (length d, d)),
      dv_poll = (\<lambda>d. case d of [] \<Rightarrow> (None, []) | p # ps \<Rightarrow> (p, ps))\<rparr>"

definition tape_modem :: "string option list \<Rightarrow> (unit, string option list) AtModem" where
  "tape_modem d = (new_AtModem \<lparr>amc_dev = ''/dev/ttyUSB2'', amc_baud = 115200, amc_poll_sec = 5, amc_type = Generic\<rparr> () d)
     \<lparr>am_fd := 3\<rparr>"

definition csq_tape :: "string option list" where
  "csq_tape = [Some [creturn, newline, CHR ''+'', CHR ''C''], None,
     Some (''SQ: 23,99'' @ [creturn, newline, creturn]), Some [newline, CHR ''O''], Some (''K'' @ [creturn, newline])]"

theorem at_reads_response_witness:
  "fst (AtModem_at tape ''AT+CSQ'' (tape_modem csq_tape)) = \<lparr>at_ok = True, at_lines = [''+CSQ: 23,99'']\<rparr>"
proof -
  have "fst (AtModem_at tape ''AT+CSQ'' (tape_modem csq_tape)) =
    final_result ''OK'' (kept ''AT+CSQ'' [[], ''+CSQ: 23,99'', []])"
    by (rule at_reads_response [of "tape_modem csq_tape" "''AT+CSQ''" tape "tape_modem csq_tape" 5 csq_tape 5,
          THEN conjunct1])
      (simp_all add: tape_def tape_modem_def new_AtModem_def csq_tape_def write_all_def on_dev_def received_def
        at_text_def ordinary_def final_line_def is_error_def eval_nat_numeral)
  then show ?thesis by (simp add: final_result_def kept_def)
qed

subsection \<open>The poll\<close>

text \<open>
  A listing of stored messages: each entry is a header line and a PDU line, and lines that are not
  headers (unsolicited result codes) may stand between entries.
\<close>

type_synonym 'x stored = "string list \<times> string \<times> string \<times> int \<times> 'x SmsMessage option"

fun entry_lines :: "'x stored \<Rightarrow> string list" where
  "entry_lines (junk, h, pdu, i, m) = junk @ [h, pdu]"

definition not_header :: "string \<Rightarrow> bool" where
  "not_header l \<longleftrightarrow> \<not> prefix ''+CMGL:'' l"

fun entry_ok :: "('r, 'x) cell_lib \<Rightarrow> 'x stored \<Rightarrow> bool" where
  "entry_ok cell (junk, h, pdu, i, m) \<longleftrightarrow>
     list_all not_header junk \<and> prefix ''+CMGL:'' h \<and> stoi (drop 6 h) = Some i \<and> decode_sms_deliver cell pdu = m"

text \<open>The entries that decode, with the index the driver notes in the message.\<close>

fun taken :: "'x stored list \<Rightarrow> 'x SmsMessage list" where
  "taken [] = []"
| "taken ((junk, h, pdu, i, None) # es) = taken es"
| "taken ((junk, h, pdu, i, Some m) # es) = m\<lparr>sm_index := i\<rparr> # taken es"

lemma header_colon: "prefix ''+CMGL:'' h \<Longrightarrow> str_find CHR '':'' h = Some 5"
  by (auto simp: prefix_def str_find_def)

lemma drain_loop_junk:
  "list_all not_header junk \<Longrightarrow> drain_loop cell on_sms (junk @ ls) dl s = drain_loop cell on_sms ls dl s"
proof (induction junk)
  case (Cons j junk)
  then show ?case by (cases "junk @ ls") (auto simp: not_header_def)
qed simp

lemma drain_loop_trailing: "list_all not_header junk \<Longrightarrow> drain_loop cell on_sms junk dl s = (dl, s)"
  using drain_loop_junk [of junk cell on_sms "[]"] by simp

lemma drain_loop_entries:
  assumes "list_all (entry_ok cell) es" "list_all not_header trailing"
  shows "drain_loop cell on_sms (concat (map entry_lines es) @ trailing) dl s =
    (dl @ map sm_index (taken es), for_each (take_message cell on_sms) (taken es) s)"
  using assms(1)
proof (induction es arbitrary: dl s)
  case Nil
  then show ?case using drain_loop_trailing [OF assms(2)] by simp
next
  case (Cons e es)
  obtain junk h pdu i m where e: "e = (junk, h, pdu, i, m)" by (cases e) auto
  have ok: "list_all not_header junk" "prefix ''+CMGL:'' h" "stoi (drop 6 h) = Some i" "decode_sms_deliver cell pdu = m"
    using Cons.prems by (auto simp: e)
  have "drain_loop cell on_sms (concat (map entry_lines (e # es)) @ trailing) dl s =
    drain_loop cell on_sms (h # pdu # (concat (map entry_lines es) @ trailing)) dl s"
    by (simp add: e drain_loop_junk [OF ok(1)] del: drain_loop.simps)
  then show ?case using Cons.IH Cons.prems ok header_colon [OF ok(2)] by (cases m) (simp_all add: e)
qed

text \<open>
  C27. A poll takes every message of the listing that decodes, in the order of the store and once
  each, gives the complete ones to the callback, and then deletes exactly the messages it took, in
  the same order; a message that does not decode is neither delivered nor deleted.  Other lines
  between the entries make no difference.
\<close>

theorem drain_sms_takes_all:
  assumes "on_machine (AtModem_at dev ''AT+CMGL=4'') s =
      (\<lparr>at_ok = True, at_lines = concat (map entry_lines es) @ trailing\<rparr>, s1)"
    and "list_all (entry_ok cell) es" "list_all not_header trailing"
  shows "drain_sms dev cell on_sms s =
    for_each (delete_stored dev) (map sm_index (taken es)) (for_each (take_message cell on_sms) (taken es) s1)"
  using assms by (simp add: drain_sms_def drain_loop_entries)

text \<open>A codec for the examples: a PDU is the text of a message from one sender, \<open>?\<close> does not decode.\<close>

definition plain_cell :: "(unit, unit) cell_lib" where
  "plain_cell =
     \<lparr>encode_sms_submit = (\<lambda>to txt. Some (txt, int (length txt))),
      decode_sms_deliver = (\<lambda>p. if p = ''?'' then None
        else Some \<lparr>sm_index = 0, sm_total = 0, sm_sender = ''+1'', sm_text = p, sm_scts = [], sm_part = ()\<rparr>),
      reasm_add = (\<lambda>m r. (Some m, r)), parse_vendor = (\<lambda>_. VGeneric)\<rparr>"

definition ok_line :: "string option" where
  "ok_line = Some (''OK'' @ [creturn, newline])"

definition listing_tape :: "string option list" where
  "listing_tape = [Some (at_text [''+CMGL: 4,1,,3'', ''hey'', ''+CMTI: 1'', ''+CMGL: 7,1,,1'', ''?'', ''OK'']), ok_line]"

definition count_sms :: "InboundSms \<Rightarrow> 'm Machine \<Rightarrow> 'm Machine" where
  "count_sms inb s = s\<lparr>mc_reads := mc_reads s + length (sms_text inb)\<rparr>"

lemma listing_tape_read:
  "on_machine (AtModem_at tape ''AT+CMGL=4'') \<lparr>mc_modem = tape_modem listing_tape, mc_reads = 0\<rparr> =
    (\<lparr>at_ok = True, at_lines = [''+CMGL: 4,1,,3'', ''hey'', ''+CMTI: 1'', ''+CMGL: 7,1,,1'', ''?'']\<rparr>,
     \<lparr>mc_modem = tape_modem [ok_line], mc_reads = 0\<rparr>)"
  by code_simp

lemma plain_cell_decode:
  "decode_sms_deliver plain_cell p = (if p = ''?'' then None
     else Some \<lparr>sm_index = 0, sm_total = 0, sm_sender = ''+1'', sm_text = p, sm_scts = [], sm_part = ()\<rparr>)"
  by (simp add: plain_cell_def)

lemma stoi_examples: "stoi '' 4,1,,3'' = Some 4" "stoi '' 7,1,,1'' = Some 7"
  by code_simp+

theorem drain_sms_takes_all_witness:
  "drain_sms tape plain_cell (Some count_sms) \<lparr>mc_modem = tape_modem listing_tape, mc_reads = 0\<rparr> =
    \<lparr>mc_modem = tape_modem [], mc_reads = 3\<rparr>"
proof -
  have "drain_sms tape plain_cell (Some count_sms) \<lparr>mc_modem = tape_modem listing_tape, mc_reads = 0\<rparr> =
    for_each (delete_stored tape)
      (map sm_index (taken [([], ''+CMGL: 4,1,,3'', ''hey'', 4, decode_sms_deliver plain_cell ''hey''),
        ([''+CMTI: 1''], ''+CMGL: 7,1,,1'', ''?'', 7, None)]))
      (for_each (take_message plain_cell (Some count_sms))
        (taken [([], ''+CMGL: 4,1,,3'', ''hey'', 4, decode_sms_deliver plain_cell ''hey''),
          ([''+CMTI: 1''], ''+CMGL: 7,1,,1'', ''?'', 7, None)]) \<lparr>mc_modem = tape_modem [ok_line], mc_reads = 0\<rparr>)"
    by (rule drain_sms_takes_all [where trailing = "[]"])
      (simp_all add: listing_tape_read not_header_def stoi_examples plain_cell_decode)
  also have "\<dots> = \<lparr>mc_modem = tape_modem [], mc_reads = 3\<rparr>" by code_simp
  finally show ?thesis .
qed

text \<open>What the callback keeps and the modem is no part of, the poll keeps.\<close>

definition kept_by ::
  "((('r, 'd) AtModem, 'z) Machine_scheme \<Rightarrow> bool)
     \<Rightarrow> (InboundSms \<Rightarrow> (('r, 'd) AtModem, 'z) Machine_scheme \<Rightarrow> (('r, 'd) AtModem, 'z) Machine_scheme) callable \<Rightarrow> bool" where
  "kept_by P on_sms \<longleftrightarrow> (\<forall>s m. P s \<longrightarrow> P (s\<lparr>mc_modem := m\<rparr>)) \<and> (\<forall>f x s. on_sms = Some f \<longrightarrow> P s \<longrightarrow> P (f x s))"

lemma on_machine_keeps: "kept_by P on_sms \<Longrightarrow> P s \<Longrightarrow> on_machine g s = (r, s1) \<Longrightarrow> P s1"
  by (auto simp: on_machine_def kept_by_def split: prod.splits)

lemma take_message_keeps: "kept_by P on_sms \<Longrightarrow> P s \<Longrightarrow> P (take_message cell on_sms msg s)"
proof -
  assume k: "kept_by P on_sms" and s: "P s"
  obtain c s1 where c: "(if sm_total msg = 0 then (Some msg, s)
      else on_machine (\<lambda>am. let (r, q) = reasm_add cell msg (am_reasm am) in (r, am\<lparr>am_reasm := q\<rparr>)) s) = (c, s1)"
    by fastforce
  then have "P s1" using k s on_machine_keeps [OF k s] by (auto split: if_splits)
  then show "P (take_message cell on_sms msg s)"
    using k unfolding take_message_def c by (auto simp: kept_by_def split: option.split)
qed

lemma drain_loop_keeps: "kept_by P on_sms \<Longrightarrow> P s \<Longrightarrow> P (snd (drain_loop cell on_sms ls dl s))"
  by (induction cell on_sms ls dl s rule: drain_loop.induct) (auto simp: take_message_keeps split: option.split)

lemma delete_stored_keeps: "kept_by P on_sms \<Longrightarrow> P s \<Longrightarrow> P (for_each (delete_stored dev) idxs s)"
  by (induction idxs arbitrary: s)
    (auto simp: delete_stored_def, metis on_machine_keeps prod.collapse)

lemma drain_sms_keeps:
  assumes "kept_by P on_sms" "P s"
  shows "P (drain_sms dev cell on_sms s)"
proof -
  obtain r s1 where r: "on_machine (AtModem_at dev ''AT+CMGL=4'') s = (r, s1)" by fastforce
  obtain dl s2 where d: "drain_loop cell on_sms (at_lines r) [] s1 = (dl, s2)" by fastforce
  have "P s1" using on_machine_keeps [OF assms r] .
  moreover have "P s2" using drain_loop_keeps [OF assms(1) \<open>P s1\<close>, of cell "at_lines r" "[]"] by (simp add: d)
  ultimately show ?thesis using delete_stored_keeps [OF assms(1)] by (simp add: drain_sms_def r d)
qed

lemma AtModem_start_keeps:
  assumes "kept_by P on_sms" "P s"
  shows "P (AtModem_start dev cell on_sms s)"
proof -
  obtain ok s1 where o: "on_machine (open_port dev) s = (ok, s1)" by fastforce
  have "P s1" using on_machine_keeps [OF assms o] .
  moreover have "P (modem_setup dev cell s1)" using \<open>P s1\<close> assms(1) by (simp add: modem_setup_def kept_by_def)
  ultimately show ?thesis using drain_sms_keeps [OF assms(1), of _ dev cell] by (simp add: AtModem_start_def o)
qed

definition inbound :: "'x SmsMessage \<Rightarrow> InboundSms" where
  "inbound m = \<lparr>sms_sender = sm_sender m, sms_text = sm_text m, sms_ts = sm_scts m\<rparr>"

lemma take_single_parts:
  "list_all (\<lambda>m. sm_total m = 0) ms \<Longrightarrow>
     for_each (take_message cell (Some f)) ms s = for_each (\<lambda>m. f (inbound m)) ms s"
  by (induction ms arbitrary: s) (auto simp: take_message_def inbound_def)

lemma start_replays_stored:
  assumes "on_machine (open_port dev) s = (True, s0)"
    and "on_machine (AtModem_at dev ''AT+CMGL=4'') (modem_setup dev cell s0) =
      (\<lparr>at_ok = True, at_lines = concat (map entry_lines es) @ trailing\<rparr>, s1)"
    and "list_all (entry_ok cell) es" "list_all not_header trailing" "list_all (\<lambda>m. sm_total m = 0) (taken es)"
  shows "AtModem_start dev cell (Some f) s =
    for_each (delete_stored dev) (map sm_index (taken es)) (for_each (\<lambda>m. f (inbound m)) (taken es) s1)"
proof -
  have "AtModem_start dev cell (Some f) s = drain_sms dev cell (Some f) (modem_setup dev cell s0)"
    using assms(1) by (simp add: AtModem_start_def)
  with assms(2-5) show ?thesis by (simp add: drain_sms_def drain_loop_entries take_single_parts)
qed

definition boot_tape :: "string option list" where
  "boot_tape = [ok_line, ok_line, ok_line, ok_line] @ listing_tape"

lemma boot_open:
  "on_machine (open_port tape) \<lparr>mc_modem = (tape_modem boot_tape)\<lparr>am_fd := - 1\<rparr>, mc_reads = 0\<rparr> =
    (True, \<lparr>mc_modem = tape_modem boot_tape, mc_reads = 0\<rparr>)"
  by code_simp

lemma boot_setup:
  "modem_setup tape plain_cell \<lparr>mc_modem = tape_modem boot_tape, mc_reads = 0\<rparr> =
    \<lparr>mc_modem = tape_modem listing_tape, mc_reads = 0\<rparr>"
  by code_simp

end
