(* ===== verification/Standalone.thy ===== *)
theory Standalone
  imports At_Modem Local_Gnmi_Sink Users
begin

text \<open>
  The appliance without a data store, \<open>daemon/zerotouchd_standalone.cpp\<close> and
  \<open>src/modem_factory.cpp\<close>: configuration and users from files, SMS and the classic commands over the
  modem, gNMI over the network.  \<open>'m\<close> is the world of the modem and the machine it runs on, \<open>'n\<close> the
  world behind the gNMI connection; \<open>clk i\<close> is the \<open>i\<close>-th reading of the clock.
\<close>

definition make_modem :: "AppConfig \<Rightarrow> AtModemConfig" where
  "make_modem cfg =
     \<lparr>amc_dev = modem_dev cfg, amc_baud = modem_baud cfg, amc_poll_sec = 5, amc_type = modem_type cfg\<rparr>"

text \<open>The client is the machine around the modem, extended by the members of the class.\<close>

record ('m, 'ss, 'n) StandaloneClient = "'m Machine" +
  sa_config :: AppConfig
  sa_users :: UserStore
  sa_sessions :: 'ss
  sa_handled :: u64
  sa_net :: 'n

definition sa_now_s :: "(nat \<Rightarrow> u64) \<Rightarrow> (('m, 'z) Machine_scheme, u64) eff" where
  "sa_now_s clk s = (clk (mc_reads s), s\<lparr>mc_reads := mc_reads s + 1\<rparr>)"

definition sa_handle_timeout ::
  "('ss, 'c, 'm Machine) smsctl \<Rightarrow> (nat \<Rightarrow> u64) \<Rightarrow> ('m, 'ss, 'n) StandaloneClient
     \<Rightarrow> ('m, 'ss, 'n) StandaloneClient" where
  "sa_handle_timeout S clk s =
     (let (now, s1) = sa_now_s clk s in s1\<lparr>sa_sessions := session_sweep S now (sa_sessions s1)\<rparr>)"

text \<open>\<open>run\<close> up to the bridge: files are read as texts, a missing file as the empty text.\<close>

definition sa_load ::
  "('ss, 'c, 'm Machine) smsctl \<Rightarrow> (string \<Rightarrow> string option) \<Rightarrow> string \<Rightarrow> ('m, 'ss, 'n) StandaloneClient
     \<Rightarrow> ('m, 'ss, 'n) StandaloneClient" where
  "sa_load S file config_path s =
     (let read_file = (\<lambda>p. case file p of Some t \<Rightarrow> t | None \<Rightarrow> []);
          c = parse_config (read_file config_path)
      in s\<lparr>sa_config := c, sa_users := UserStore_parse (read_file (users_file c)),
           sa_sessions := session_set_config S
             \<lparr>ss_session_ttl_sec = session_ttl_sec c, ss_lockout_failures = lockout_failures c,
              ss_lockout_sec = lockout_sec c, ss_allowed_numbers = allowed_numbers c\<rparr> (sa_sessions s)\<rparr>)"

definition sa_lookup :: "UserStore \<Rightarrow> string \<Rightarrow> ('m Machine, Account option) eff" where
  "sa_lookup users i m =
     (map_option (\<lambda>u. \<lparr>acc_id = usr_id u, acc_hash = usr_hash u, acc_access = usr_access u\<rparr>)
        (UserStore_lookup users i), m)"

definition sa_authfn ::
  "('ss, 'c, 'm Machine) smsctl \<Rightarrow> (nat \<Rightarrow> u64) \<Rightarrow> ('m, 'ss, 'n) StandaloneClient AuthFn" where
  "sa_authfn S clk sender s =
     (let (now, s1) = sa_now_s clk s;
          (acc, ss) = session S sender now (sa_sessions s1)
      in (account_access acc, s1\<lparr>sa_sessions := ss\<rparr>))"

definition sa_allow :: "('ss, 'c, 'm Machine) smsctl \<Rightarrow> string \<Rightarrow> (('m, 'ss, 'n) StandaloneClient, bool) eff" where
  "sa_allow S sender s = (enabled (sa_config s) \<and> session_sender_allowed S sender (sa_sessions s), s)"

text \<open>The backend of the classic commands, on the appliance's modem; \<open>reboot\<close> is the system call.\<close>

definition sa_action ::
  "'d serial \<Rightarrow> ('r, 'x) cell_lib \<Rightarrow> string \<Rightarrow> (('r, 'd) AtModem, bool) eff \<Rightarrow> (nat \<Rightarrow> u64)
     \<Rightarrow> ('r, 'd) AtModem Machine DsSink" where
  "sa_action dev cell kRebootTrigger reboot clk_ms =
     DirectActionSink (AtModem_seam dev cell) kRebootTrigger (Some (on_machine reboot))
       (\<lambda>m. (clk_ms (mc_reads m), m\<lparr>mc_reads := mc_reads m + 1\<rparr>))"

definition sa_fallback ::
  "('ss, 'c, 'm Machine) smsctl \<Rightarrow> 'm Machine DsSink \<Rightarrow> (nat \<Rightarrow> u64) \<Rightarrow> string \<Rightarrow> string
     \<Rightarrow> (('m, 'ss, 'n) StandaloneClient, string) eff" where
  "sa_fallback S action clk sender txt s =
     (let cmd = sms_parse S txt in
      if kind_of S cmd = NotACommand then ([], s)
      else if kind_of S cmd = Wifi \<or> kind_of S cmd = FactoryReset then
        (''ERR '' @ keyword S cmd @ '': not supported on this device'', s)
      else
        (let (now, s1) = sa_now_s clk s;
             s2 = s1\<lparr>sa_handled := sa_handled s1 + 1\<rparr>;
             seed = command_seed now (sa_handled s2);
             (reply, (ss, m)) =
               executor_handle S action (sa_lookup (sa_users s2)) cmd sender now seed
                 (sa_sessions s2, \<lparr>mc_modem = mc_modem s2, mc_reads = mc_reads s2\<rparr>)
         in (reply, s2\<lparr>sa_sessions := ss, mc_modem := mc_modem m, mc_reads := mc_reads m\<rparr>)))"

definition sa_sink_config :: "AppConfig \<Rightarrow> SinkConfig" where
  "sa_sink_config c = default_sink_config\<lparr>sc_host := gnmi_host c, sc_port := gnmi_port c\<rparr>"

definition sa_sink ::
  "('p, 'v1, 'b) gnmi_lib \<Rightarrow> ('n, 'b) rpc \<Rightarrow> ('m, 'ss, 'n) StandaloneClient GnmiSink" where
  "sa_sink lib call =
     \<lparr>sink_get = (\<lambda>xs s. let (r, n) = LocalGnmiSink_get lib call (sa_sink_config (sa_config s)) xs (sa_net s)
                         in (r, s\<lparr>sa_net := n\<rparr>)),
      sink_set = (\<lambda>us s. let (r, n) = LocalGnmiSink_set lib call (sa_sink_config (sa_config s)) us (sa_net s)
                         in (r, s\<lparr>sa_net := n\<rparr>))\<rparr>"

definition sa_bridge ::
  "('ss, 'c, ('r, 'd) AtModem Machine) smsctl \<Rightarrow> 'd serial \<Rightarrow> ('r, 'x) cell_lib \<Rightarrow> ('r, 'd) AtModem Machine DsSink
     \<Rightarrow> (nat \<Rightarrow> u64) \<Rightarrow> ('p, 'v1, 'b) gnmi_lib \<Rightarrow> ('n, 'b) rpc
     \<Rightarrow> (('r, 'd) AtModem, 'ss, 'n) StandaloneClient Bridge" where
  "sa_bridge S dev cell action clk lib call =
     \<lparr>br_tx = AtModemTransport (AtModem_seam dev cell),
      br_gex = \<lparr>gx_sink = sa_sink lib call, gx_auth = Some (sa_authfn S clk)\<rparr>,
      br_tok = Some (tokenize S), br_fallback = Some (sa_fallback S action clk),
      br_allow = Some (sa_allow S)\<rparr>"

text \<open>
  \<open>run\<close> up to the reactor loop: load, make the modem, wire and start.  \<open>reasm\<close> is a new reassembler.
  From then on the reactor calls the modem's poll and the session sweep.
\<close>

definition sa_run ::
  "('ss, 'c, ('r, 'd) AtModem Machine) smsctl \<Rightarrow> 'd serial \<Rightarrow> ('r, 'x) cell_lib \<Rightarrow> 'r
     \<Rightarrow> ('r, 'd) AtModem Machine DsSink \<Rightarrow> (nat \<Rightarrow> u64) \<Rightarrow> ('p, 'v1, 'b) gnmi_lib \<Rightarrow> ('n, 'b) rpc
     \<Rightarrow> (string \<Rightarrow> string option) \<Rightarrow> string
     \<Rightarrow> (('r, 'd) AtModem, 'ss, 'n) StandaloneClient \<Rightarrow> (('r, 'd) AtModem, 'ss, 'n) StandaloneClient" where
  "sa_run S dev cell reasm action clk lib call file config_path s =
     (let s1 = sa_load S file config_path s;
          s2 = s1\<lparr>mc_modem := new_AtModem (make_modem (sa_config s1)) reasm (am_dev (mc_modem s1))\<rparr>
      in Bridge_start (sa_bridge S dev cell action clk lib call) s2)"

subsection \<open>Command lines of the two daemons\<close>

text \<open>The path given by the last \<open>--config=\<close> or \<open>--ds-sock=\<close> argument; \<^term>\<open>Inl c\<close> exits with code \<open>c\<close>.\<close>

fun path_args :: "string \<Rightarrow> string list \<Rightarrow> string \<Rightarrow> int + string" where
  "path_args opt [] path = Inr path"
| "path_args opt (a # as) path =
     (if prefix opt a then path_args opt as (drop (length opt) a)
      else if a = ''--help'' \<or> a = ''-h'' then Inl 0
      else Inl 2)"

definition standalone_main_args :: "string list \<Rightarrow> int + string" where
  "standalone_main_args as = path_args ''--config='' as ''/etc/zerotouch/zerotouch.conf''"

definition daemon_main_args :: "string list \<Rightarrow> int + string" where
  "daemon_main_args as = path_args ''--ds-sock='' as []"

subsection \<open>Start-up and the gate\<close>

lemma sa_gate:
  "gate (sa_bridge S dev cell action clk lib call) sender s =
     (enabled (sa_config s) \<and> session_sender_allowed S sender (sa_sessions s), s)"
  by (simp add: gate_def sa_bridge_def sa_allow_def)

lemma sa_disabled_on_sms:
  "\<not> enabled (sa_config s) \<Longrightarrow> Bridge_on_sms (sa_bridge S dev cell action clk lib call) inb s = s"
  by (auto simp: on_sms_gate_route sa_gate)

lemma sa_load_disabled:
  assumes "\<forall>t v. file config_path = Some t \<longrightarrow> map_of (rev (settings t)) ''enabled'' = Some v \<longrightarrow> \<not> to_bool v"
  shows "\<not> enabled (sa_config (sa_load S file config_path s))"
proof (cases "file config_path")
  case None
  then show ?thesis by (simp add: sa_load_def enabled_parse_config settings_def map_filter_simps Let_def)
next
  case (Some t)
  with assms show ?thesis by (auto simp: sa_load_def enabled_parse_config Let_def split: option.split)
qed

text \<open>Equality of two clients up to the modem.\<close>

definition same_but_modem :: "('m, 'ss, 'n) StandaloneClient \<Rightarrow> ('m, 'ss, 'n) StandaloneClient \<Rightarrow> bool" where
  "same_but_modem s t \<longleftrightarrow> (\<exists>m. t = s\<lparr>mc_modem := m\<rparr>)"

lemma same_but_modem_refl: "same_but_modem s s"
  unfolding same_but_modem_def by (rule exI [of _ "mc_modem s"]) simp

lemma same_but_modem_update: "same_but_modem s t \<Longrightarrow> same_but_modem s (t\<lparr>mc_modem := m\<rparr>)"
  by (auto simp: same_but_modem_def)

lemma disabled_keeps:
  assumes "\<not> enabled (sa_config s)"
  shows "kept_by (same_but_modem s) (Some (Bridge_on_sms (sa_bridge S dev cell action clk lib call)))"
  using assms by (auto simp: kept_by_def same_but_modem_def sa_disabled_on_sms)

lemma sa_bridge_start:
  "Bridge_start (sa_bridge S dev cell action clk lib call) s =
     AtModem_start dev cell (Some (Bridge_on_sms (sa_bridge S dev cell action clk lib call))) s"
proof -
  have "br_tx (sa_bridge S dev cell action clk lib call) = AtModemTransport (AtModem_seam dev cell)"
    by (simp add: sa_bridge_def)
  then show ?thesis by (simp add: Bridge_start_def AtModemTransport_def AtModem_seam_def)
qed

text \<open>
  C28.  The appliance is inert until its file enables it: with a configuration file that is missing,
  or whose last \<open>enabled\<close> line is not a true value, start-up and any number of polls change nothing
  but the state of the modem, whatever messages are in its store or arrive, and whatever the users
  file and the libraries are: no session is opened, no gNMI call is made, no command is counted.
\<close>

theorem appliance_inert_unless_enabled:
  assumes "\<forall>t v. file config_path = Some t \<longrightarrow> map_of (rev (settings t)) ''enabled'' = Some v \<longrightarrow> \<not> to_bool v"
  shows "same_but_modem (sa_load S file config_path s)
    ((modem_handle_timeout dev cell (Some (Bridge_on_sms (sa_bridge S dev cell action clk lib call))) ^^ k)
      (sa_run S dev cell reasm action clk lib call file config_path s))"
proof (induction k)
  note keeps = disabled_keeps [OF sa_load_disabled [of "file" config_path S s, OF assms]]
  case 0
  show ?case
    using AtModem_start_keeps [OF keeps same_but_modem_update [OF same_but_modem_refl]]
    by (simp add: sa_run_def sa_bridge_start Let_def)
next
  note keeps = disabled_keeps [OF sa_load_disabled [of "file" config_path S s, OF assms]]
  case (Suc k)
  from drain_sms_keeps [OF keeps Suc.IH] show ?case by (simp add: modem_handle_timeout_def)
qed

theorem appliance_inert_unless_enabled_witness:
  "same_but_modem (sa_load demo_smsctl (\<lambda>_. None) ''/etc/zerotouch/zerotouch.conf''
       \<lparr>mc_modem = tape_modem boot_tape, mc_reads = 0, sa_config = default_config, sa_users = \<lparr>m_users = []\<rparr>,
        sa_sessions = (), sa_handled = 0, sa_net = ()\<rparr>)
    ((modem_handle_timeout tape plain_cell (Some (Bridge_on_sms (sa_bridge demo_smsctl tape plain_cell
        (sa_action tape plain_cell ''/run/reboot'' (\<lambda>m. (True, m)) (\<lambda>_. 0)) (\<lambda>_. 0) plain_lib (leaky_call [] [])))) ^^ 2)
      (sa_run demo_smsctl tape plain_cell ()
        (sa_action tape plain_cell ''/run/reboot'' (\<lambda>m. (True, m)) (\<lambda>_. 0)) (\<lambda>_. 0) plain_lib (leaky_call [] [])
        (\<lambda>_. None) ''/etc/zerotouch/zerotouch.conf''
        \<lparr>mc_modem = tape_modem boot_tape, mc_reads = 0, sa_config = default_config, sa_users = \<lparr>m_users = []\<rparr>,
         sa_sessions = (), sa_handled = 0, sa_net = ()\<rparr>))"
  by (rule appliance_inert_unless_enabled) simp

end
