(* ===== verification/At_Transcript.thy ===== *)
theory At_Transcript
  imports At_Modem
begin

text \<open>
  What the AT driver (\<open>src/at_modem.cpp\<close>) puts on the serial line.  There are two views of it.  On a port
  that takes every write whole (\<open>logs_writes\<close>), \<open>wire d\<close> is what it has taken so far, one element per
  \<open>write_all\<close>; on a port whose writes may be cut short or fail (\<open>counts_writes\<close>), \<open>bytes d\<close> are the bytes taken.
  The clock and the reads leave both alone.
\<close>

definition logs_writes :: "'d serial \<Rightarrow> ('d \<Rightarrow> string list) \<Rightarrow> bool" where
  "logs_writes dev wire \<longleftrightarrow>
     (\<forall>s d. at_write_loop 0 (length s) (fst (dv_writes dev s d)) \<and> wire (snd (dv_writes dev s d)) = wire d @ [s])
     \<and> (\<forall>t d. wire (snd (dv_slices dev t d)) = wire d)
     \<and> (\<forall>d. wire (snd (dv_poll dev d)) = wire d)"

abbreviation line_of :: "string \<Rightarrow> string" where
  "line_of cmd \<equiv> cmd @ [creturn]"

lemma write_all_wire:
  assumes "logs_writes dev wire"
  obtains d where "write_all dev s am = (True, am\<lparr>am_dev := d\<rparr>)" "wire d = wire (am_dev am) @ [s]"
proof -
  obtain ns d where d: "dv_writes dev s (am_dev am) = (ns, d)" by fastforce
  then have "at_write_loop 0 (length s) ns" "wire d = wire (am_dev am) @ [s]"
    using assms by (metis logs_writes_def fst_conv snd_conv)+
  with d show ?thesis by (intro that [of d]) (simp_all add: write_all_def on_dev_def)
qed

lemma poll_wire: "logs_writes dev wire \<Longrightarrow> dv_poll dev d = (p, d') \<Longrightarrow> wire d' = wire d"
  by (metis logs_writes_def snd_conv)

lemma run_at_loop_wire:
  assumes "logs_writes dev wire"
  shows "wire (am_dev (snd (run_at_loop dev cmd wp k acc am))) = wire (am_dev am)
    \<and> am_fd (snd (run_at_loop dev cmd wp k acc am)) = am_fd am"
proof (induction k arbitrary: acc am)
  case (Suc k)
  obtain p d where p: "dv_poll dev (am_dev am) = (p, d)" by fastforce
  with poll_wire [OF assms p] Suc.IH show ?case
    by (auto simp: on_dev_def Let_def split: option.split prod.split)
qed simp

lemma run_at_wire:
  assumes "logs_writes dev wire" "0 \<le> am_fd am"
  shows "wire (am_dev (snd (run_at dev cmd t wp am))) = wire (am_dev am) @ (if cmd = [] then [] else [line_of cmd])
    \<and> am_fd (snd (run_at dev cmd t wp am)) = am_fd am"
proof -
  obtain d where d: "write_all dev (line_of cmd) am = (True, am\<lparr>am_dev := d\<rparr>)"
    "wire d = wire (am_dev am) @ [line_of cmd]" by (rule write_all_wire [OF assms(1)])
  let ?am = "if cmd = [] then am else am\<lparr>am_dev := d\<rparr>"
  obtain k d' where k: "dv_slices dev t (am_dev ?am) = (k, d')" by fastforce
  then have "wire d' = wire (am_dev ?am)" using assms(1) by (metis logs_writes_def snd_conv)
  with k d assms(2) run_at_loop_wire [OF assms(1), of cmd wp k "[]" "?am\<lparr>am_dev := d'\<rparr>"]
  show ?thesis by (auto simp: run_at_def on_dev_def)
qed

lemmas at_wire = run_at_wire [where t = 3000 and wp = False, folded AtModem_at_def]

subsection \<open>Sending\<close>

text \<open>Whether the driver takes the modem to be ready for the PDU.\<close>

definition ready_for_pdu :: "'d serial \<Rightarrow> int \<Rightarrow> ('r, 'd) AtModem \<Rightarrow> bool" where
  "ready_for_pdu dev n am =
     at_ok (fst (run_at dev (''AT+CMGS='' @ to_string n) 5000 True
       (snd (run_at dev ''AT+CMGF=0'' 1000 False (snd (write_all dev [CHR 0x1B] am))))))"

text \<open>The bytes of one submission.\<close>

definition submission :: "('r, 'x) cell_lib \<Rightarrow> string \<Rightarrow> string \<Rightarrow> bool \<Rightarrow> string list" where
  "submission cell to txt ready =
     (case encode_sms_submit cell to txt of
        None \<Rightarrow> []
      | Some (pdu, n) \<Rightarrow> [[CHR 0x1B], line_of ''AT+CMGF=0'', line_of (''AT+CMGS='' @ to_string n)]
          @ (if ready then [pdu @ [CHR 0x1A]] else []))"

lemma send_sms_transcript_raw:
  assumes "logs_writes dev wire" "0 \<le> am_fd am"
  shows "wire (am_dev (snd (AtModem_send_sms dev cell to txt am))) = wire (am_dev am) @
      submission cell to txt (ready_for_pdu dev (snd (the (encode_sms_submit cell to txt))) am)
    \<and> (fst (AtModem_send_sms dev cell to txt am) \<longrightarrow>
        (\<exists>pdu n. encode_sms_submit cell to txt = Some (pdu, n) \<and> ready_for_pdu dev n am))
    \<and> am_fd (snd (AtModem_send_sms dev cell to txt am)) = am_fd am"
proof (cases "encode_sms_submit cell to txt")
  case None
  then show ?thesis by (simp add: AtModem_send_sms_def submission_def)
next
  case (Some e)
  obtain pdu n where e: "encode_sms_submit cell to txt = Some (pdu, n)" using Some by (cases e) auto
  obtain d where 1: "write_all dev [CHR 0x1B] am = (True, am\<lparr>am_dev := d\<rparr>)" "wire d = wire (am_dev am) @ [[CHR 0x1B]]"
    by (rule write_all_wire [OF assms(1)])
  obtain r2 am2 where 2: "run_at dev ''AT+CMGF=0'' 1000 False (am\<lparr>am_dev := d\<rparr>) = (r2, am2)" by fastforce
  obtain r3 am3 where 3: "run_at dev (''AT+CMGS='' @ to_string n) 5000 True am2 = (r3, am3)" by fastforce
  have w2: "wire (am_dev am2) = wire (am_dev am) @ [[CHR 0x1B], line_of ''AT+CMGF=0'']" "am_fd am2 = am_fd am"
    using run_at_wire [OF assms(1), of "am\<lparr>am_dev := d\<rparr>" "''AT+CMGF=0''" 1000 False] assms(2) 1(2) 2 by auto
  have w3: "wire (am_dev am3) = wire (am_dev am) @ [[CHR 0x1B], line_of ''AT+CMGF=0'', line_of (''AT+CMGS='' @ to_string n)]"
    "am_fd am3 = am_fd am"
    using run_at_wire [OF assms(1), of am2 "''AT+CMGS='' @ to_string n" 5000 True] assms(2) w2 3 by auto
  obtain d4 where 4: "write_all dev (pdu @ [CHR 0x1A]) am3 = (True, am3\<lparr>am_dev := d4\<rparr>)"
    "wire d4 = wire (am_dev am3) @ [pdu @ [CHR 0x1A]]" by (rule write_all_wire [OF assms(1)])
  obtain r5 am5 where 5: "run_at dev [] 60000 False (am3\<lparr>am_dev := d4\<rparr>) = (r5, am5)" by fastforce
  have w5: "wire (am_dev am5) = wire d4" "am_fd am5 = am_fd am"
    using run_at_wire [OF assms(1), of "am3\<lparr>am_dev := d4\<rparr>" "[]" 60000 False] assms(2) w3(2) 5 by simp_all
  have "ready_for_pdu dev n am = at_ok r3" using 1 2 3 by (simp add: ready_for_pdu_def)
  with e 1 2 3 4 5 w3 w5 show ?thesis
    by (simp add: AtModem_send_sms_def submission_def)
qed

subsection \<open>A port that may fail\<close>

text \<open>
  Writes that may be refused or end in an error: \<open>bytes d\<close> are the bytes the port has taken so far, and
  of a buffer it takes as many bytes as the results of its \<open>write\<close> calls add up to.
\<close>

definition taken_bytes :: "nat option list \<Rightarrow> nat" where
  "taken_bytes ns = sum_list (map (\<lambda>n. case n of None \<Rightarrow> 0 | Some k \<Rightarrow> k) ns)"

definition counts_writes :: "'d serial \<Rightarrow> ('d \<Rightarrow> string) \<Rightarrow> bool" where
  "counts_writes dev bytes \<longleftrightarrow>
     (\<forall>s d. bytes (snd (dv_writes dev s d)) = bytes d @ take (taken_bytes (fst (dv_writes dev s d))) s)
     \<and> (\<forall>t d. bytes (snd (dv_slices dev t d)) = bytes d)
     \<and> (\<forall>d. bytes (snd (dv_poll dev d)) = bytes d)"

text \<open>What the port takes of a buffer.\<close>

definition took :: "'d serial \<Rightarrow> string \<Rightarrow> ('r, 'd) AtModem \<Rightarrow> string" where
  "took dev s am = take (taken_bytes (fst (dv_writes dev s (am_dev am)))) s"

lemma write_loop_taken: "at_write_loop off len ns \<longleftrightarrow> len \<le> off + taken_bytes ns"
  by (induction off len ns rule: at_write_loop.induct) (auto simp: taken_bytes_def split: option.split)

lemma write_all_whole: "fst (write_all dev s am) \<longleftrightarrow> took dev s am = s"
  by (simp add: write_all_def on_dev_def write_loop_taken took_def split: prod.split)

lemma write_all_bytes:
  assumes "counts_writes dev bytes"
  shows "bytes (am_dev (snd (write_all dev s am))) = bytes (am_dev am) @ took dev s am"
    and "am_fd (snd (write_all dev s am)) = am_fd am"
proof -
  obtain ns d where "dv_writes dev s (am_dev am) = (ns, d)" by fastforce
  moreover from this have "bytes d = bytes (am_dev am) @ take (taken_bytes ns) s"
    using assms unfolding counts_writes_def by (metis fst_conv snd_conv)
  ultimately show "bytes (am_dev (snd (write_all dev s am))) = bytes (am_dev am) @ took dev s am"
    and "am_fd (snd (write_all dev s am)) = am_fd am"
    by (simp_all add: write_all_def on_dev_def took_def)
qed

lemma run_at_loop_bytes:
  assumes "counts_writes dev bytes"
  shows "bytes (am_dev (snd (run_at_loop dev cmd wp k acc am))) = bytes (am_dev am)
    \<and> am_fd (snd (run_at_loop dev cmd wp k acc am)) = am_fd am"
proof (induction k arbitrary: acc am)
  case (Suc k)
  obtain p d where p: "dv_poll dev (am_dev am) = (p, d)" by fastforce
  then have "bytes d = bytes (am_dev am)" using assms by (metis counts_writes_def snd_conv)
  with p Suc.IH show ?case by (auto simp: on_dev_def Let_def split: option.split prod.split)
qed simp

text \<open>A command writes its line, as far as the port takes it, and succeeds only when it took all of it.\<close>

lemma run_at_bytes:
  assumes "counts_writes dev bytes" "0 \<le> am_fd am"
  shows "bytes (am_dev (snd (run_at dev cmd t wp am))) =
      bytes (am_dev am) @ (if cmd = [] then [] else took dev (line_of cmd) am)
    \<and> am_fd (snd (run_at dev cmd t wp am)) = am_fd am
    \<and> (at_ok (fst (run_at dev cmd t wp am)) \<longrightarrow> cmd \<noteq> [] \<longrightarrow> took dev (line_of cmd) am = line_of cmd)"
proof -
  obtain ok am1 where w: "(if cmd \<noteq> [] then write_all dev (line_of cmd) am else (True, am)) = (ok, am1)" by fastforce
  then have 1: "bytes (am_dev am1) = bytes (am_dev am) @ (if cmd = [] then [] else took dev (line_of cmd) am)"
    "am_fd am1 = am_fd am" "ok \<longrightarrow> cmd \<noteq> [] \<longrightarrow> took dev (line_of cmd) am = line_of cmd"
    using write_all_bytes [OF assms(1), of "line_of cmd" am] write_all_whole [of dev "line_of cmd" am]
    by (auto split: if_splits)
  obtain k d where k: "dv_slices dev t (am_dev am1) = (k, d)" by fastforce
  then have "bytes d = bytes (am_dev am1)" using assms(1) by (metis counts_writes_def snd_conv)
  moreover have "run_at dev cmd t wp am =
      (if \<not> ok then (no_result, am1) else run_at_loop dev cmd wp k [] (am1\<lparr>am_dev := d\<rparr>))"
    using assms(2) k unfolding run_at_def w by (simp add: on_dev_def)
  ultimately show ?thesis
    using 1 run_at_loop_bytes [OF assms(1), of cmd wp k "[]" "am1\<lparr>am_dev := d\<rparr>"]
    by (cases ok; cases cmd) (simp_all add: no_result_def)
qed

text \<open>The states of the driver before the command for PDU mode, before the submit command and before the PDU.\<close>

definition at_mode :: "'d serial \<Rightarrow> ('r, 'd) AtModem \<Rightarrow> ('r, 'd) AtModem" where
  "at_mode dev am = snd (write_all dev [CHR 0x1B] am)"

definition at_submit :: "'d serial \<Rightarrow> ('r, 'd) AtModem \<Rightarrow> ('r, 'd) AtModem" where
  "at_submit dev am = snd (run_at dev ''AT+CMGF=0'' 1000 False (at_mode dev am))"

definition at_pdu :: "'d serial \<Rightarrow> int \<Rightarrow> ('r, 'd) AtModem \<Rightarrow> ('r, 'd) AtModem" where
  "at_pdu dev n am = snd (run_at dev (''AT+CMGS='' @ to_string n) 5000 True (at_submit dev am))"

text \<open>
  C17.  What \<open>send_sms\<close> writes and when it reports success, on every path, with a port whose writes may
  be cut short, refused or fail.  Nothing is written for a message that does not encode.  Otherwise
  the line takes, each as far as the port takes it, the escape that clears a stuck prompt, the command
  for PDU mode and the submit command with the length of the PDU, and then, exactly when the modem was
  taken to be ready, the PDU with the byte that submits it, once.  Success is reported exactly when the
  message encodes, the modem was ready, the port took the whole PDU and the modem then answered \<open>OK\<close>;
  the submit command was then written whole, too.
\<close>

theorem send_sms_transcript:
  assumes "counts_writes dev bytes" "0 \<le> am_fd am"
  shows "case encode_sms_submit cell to txt of
      None \<Rightarrow> AtModem_send_sms dev cell to txt am = (False, am)
    | Some (pdu, n) \<Rightarrow>
        let submit = line_of (''AT+CMGS='' @ to_string n); payload = pdu @ [CHR 0x1A];
            sent = took dev payload (at_pdu dev n am); am' = snd (AtModem_send_sms dev cell to txt am) in
        bytes (am_dev am') = bytes (am_dev am) @ took dev [CHR 0x1B] am @ took dev (line_of ''AT+CMGF=0'') (at_mode dev am)
          @ took dev submit (at_submit dev am) @ (if ready_for_pdu dev n am then sent else [])
        \<and> (fst (AtModem_send_sms dev cell to txt am) \<longleftrightarrow> ready_for_pdu dev n am \<and> sent = payload
             \<and> at_ok (fst (run_at dev [] 60000 False (snd (write_all dev payload (at_pdu dev n am))))))
        \<and> (ready_for_pdu dev n am \<longrightarrow> took dev submit (at_submit dev am) = submit)"
proof (cases "encode_sms_submit cell to txt")
  case None
  then show ?thesis by (simp add: AtModem_send_sms_def)
next
  case (Some e)
  obtain pdu n where e: "encode_sms_submit cell to txt = Some (pdu, n)" using Some by (cases e) auto
  let ?cmgs = "''AT+CMGS='' @ to_string n" and ?pay = "pdu @ [CHR 0x1A]"
  have fd1: "0 \<le> am_fd (at_mode dev am)" and b1: "bytes (am_dev (at_mode dev am)) = bytes (am_dev am) @ took dev [CHR 0x1B] am"
    using write_all_bytes [OF assms(1), of "[CHR 0x1B]" am] assms(2) by (simp_all add: at_mode_def)
  have fd2: "0 \<le> am_fd (at_submit dev am)"
    and b2: "bytes (am_dev (at_submit dev am)) = bytes (am_dev (at_mode dev am)) @ took dev (line_of ''AT+CMGF=0'') (at_mode dev am)"
    using run_at_bytes [OF assms(1) fd1, of "''AT+CMGF=0''" 1000 False] fd1 by (simp_all add: at_submit_def)
  have ready: "ready_for_pdu dev n am = at_ok (fst (run_at dev ?cmgs 5000 True (at_submit dev am)))"
    by (simp add: ready_for_pdu_def at_submit_def at_mode_def)
  have fd3: "0 \<le> am_fd (at_pdu dev n am)"
    and b3: "bytes (am_dev (at_pdu dev n am)) = bytes (am_dev (at_submit dev am)) @ took dev (line_of ?cmgs) (at_submit dev am)"
    and whole: "ready_for_pdu dev n am \<longrightarrow> took dev (line_of ?cmgs) (at_submit dev am) = line_of ?cmgs"
    using run_at_bytes [OF assms(1) fd2, of ?cmgs 5000 True] fd2 unfolding ready by (simp_all add: at_pdu_def)
  let ?am4 = "snd (write_all dev ?pay (at_pdu dev n am))"
  have b4: "bytes (am_dev ?am4) = bytes (am_dev (at_pdu dev n am)) @ took dev ?pay (at_pdu dev n am)" and fd4: "0 \<le> am_fd ?am4"
    using write_all_bytes [OF assms(1), of ?pay "at_pdu dev n am"] fd3 by simp_all
  have b5: "bytes (am_dev (snd (run_at dev [] 60000 False ?am4))) = bytes (am_dev ?am4)"
    using run_at_bytes [OF assms(1) fd4, of "[]" 60000 False] by simp
  have send: "AtModem_send_sms dev cell to txt am =
      (if \<not> ready_for_pdu dev n am then (False, at_pdu dev n am)
       else if took dev ?pay (at_pdu dev n am) \<noteq> ?pay then (False, ?am4)
       else (at_ok (fst (run_at dev [] 60000 False ?am4)), snd (run_at dev [] 60000 False ?am4)))"
    unfolding ready write_all_whole [symmetric]
    by (simp add: AtModem_send_sms_def e at_pdu_def at_submit_def at_mode_def case_prod_beta Let_def)
  show ?thesis unfolding e send using b1 b2 b3 b4 b5 whole by (simp add: Let_def)
qed

text \<open>A port on which the modem answers what it was told last, and keeps what was written.\<close>

definition echo_port :: "(string \<Rightarrow> string list \<Rightarrow> string) \<Rightarrow> string list serial" where
  "echo_port reply =
     \<lparr>dv_open = (\<lambda>_ d. (3, d)), dv_tcgetattr = (\<lambda>d. (True, d)), dv_tcsetattr = (\<lambda>_ d. (True, d)),
      dv_writes = (\<lambda>s d. ([Some (length s)], d @ [s])), dv_slices = (\<lambda>_ d. (1, d)),
      dv_poll = (\<lambda>d. (Some (reply (last d) d), d))\<rparr>"

lemma echo_port_logs: "logs_writes (echo_port reply) (\<lambda>d. d)"
  by (auto simp: logs_writes_def echo_port_def)

definition echo_modem :: "(unit, string list) AtModem" where
  "echo_modem = (new_AtModem \<lparr>amc_dev = ''/dev/ttyUSB2'', amc_baud = 115200, amc_poll_sec = 5, amc_type = Generic\<rparr> () [])
     \<lparr>am_fd := 3\<rparr>"

definition prompts :: "string \<Rightarrow> string list \<Rightarrow> string" where
  "prompts cmd d = (if prefix ''AT+CMGS='' cmd then ''> '' else ''OK'' @ [creturn, newline])"

text \<open>The same modem on a port that hangs up in the middle of the PDU.\<close>

definition cut_port :: "string list serial" where
  "cut_port = (echo_port prompts)\<lparr>dv_writes := (\<lambda>s d.
     if CHR 0x1A \<in> set s then ([None, Some 1], d @ [take 1 s]) else ([Some (length s)], d @ [s]))\<rparr>"

lemma cut_port_counts: "counts_writes cut_port concat"
  by (simp add: counts_writes_def cut_port_def echo_port_def taken_bytes_def)

theorem send_sms_transcript_witness:
  "\<not> fst (AtModem_send_sms cut_port plain_cell ''+1555'' ''hi'' echo_modem)
   \<and> concat (am_dev (snd (AtModem_send_sms cut_port plain_cell ''+1555'' ''hi'' echo_modem))) =
     [CHR 0x1B] @ line_of ''AT+CMGF=0'' @ line_of ''AT+CMGS=2'' @ ''h''"
proof -
  have "ready_for_pdu cut_port 2 echo_modem" by code_simp
  moreover have "took cut_port (''hi'' @ [CHR 0x1A]) (at_pdu cut_port 2 echo_modem) = ''h''"
    "took cut_port [CHR 0x1B] echo_modem = [CHR 0x1B]"
    "took cut_port (line_of ''AT+CMGF=0'') (at_mode cut_port echo_modem) = line_of ''AT+CMGF=0''"
    "took cut_port (line_of (''AT+CMGS='' @ to_string 2)) (at_submit cut_port echo_modem) = line_of ''AT+CMGS=2''"
    by code_simp+
  moreover have "encode_sms_submit plain_cell ''+1555'' ''hi'' = Some (''hi'', 2)" by (simp add: plain_cell_def)
  moreover have "0 \<le> am_fd echo_modem" "am_dev echo_modem = []" by (simp_all add: echo_modem_def new_AtModem_def)
  ultimately show ?thesis
    using send_sms_transcript [OF cut_port_counts, of echo_modem plain_cell "''+1555''" "''hi''"] by (simp add: Let_def)
qed

subsection \<open>What passes for the prompt\<close>

text \<open>
  C20.  A late answer passes for the prompt: when the command for PDU mode runs out of time and its \<open>OK\<close>
  arrives while the driver waits for the prompt of the submit command, the wait ends in success and
  the PDU is written, although the modem has not sent a \<open>>\<close> and is not reading a PDU.
\<close>

theorem late_ok_passes_for_prompt:
  assumes "logs_writes dev wire" "0 \<le> am_fd am" "encode_sms_submit cell to txt = Some (pdu, n)"
    and "snd (run_at dev ''AT+CMGF=0'' 1000 False (snd (write_all dev [CHR 0x1B] am))) = am2" "am_rx am2 = []"
    and "snd (write_all dev (line_of (''AT+CMGS='' @ to_string n)) am2) = am3"
    and "dv_slices dev 5000 (am_dev am3) = (k, d)" "m \<le> k"
    and "received (polls dev m d) = ''OK'' @ [creturn, newline]"
  shows "wire (am_dev (snd (AtModem_send_sms dev cell to txt am))) = wire (am_dev am) @
      [[CHR 0x1B], line_of ''AT+CMGF=0'', line_of (''AT+CMGS='' @ to_string n), pdu @ [CHR 0x1A]]
    \<and> CHR ''>'' \<notin> set (am_rx am2 @ received (polls dev m d))"
proof -
  let ?cmd = "''AT+CMGS='' @ to_string n"
  obtain d1 where 1: "write_all dev [CHR 0x1B] am = (True, am\<lparr>am_dev := d1\<rparr>)" by (rule write_all_wire [OF assms(1)])
  then have "am_fd am2 = am_fd am"
    using run_at_wire [OF assms(1), of "am\<lparr>am_dev := d1\<rparr>" "''AT+CMGF=0''" 1000 False] assms(2,4) by simp
  moreover obtain d3 where 3: "write_all dev (line_of ?cmd) am2 = (True, am2\<lparr>am_dev := d3\<rparr>)"
    by (rule write_all_wire [OF assms(1)])
  moreover have "am3 = am2\<lparr>am_dev := d3\<rparr>" using assms(6) 3 by simp
  moreover have "\<exists>d'. run_at_loop dev ?cmd True k [] (am3\<lparr>am_dev := d\<rparr>)
      = (final_result ''OK'' ([] @ kept ?cmd []), am3\<lparr>am_dev := d, am_rx := [], am_dev := d'\<rparr>)"
    using assms(5,8,9) calculation(3)
    by (intro run_at_loop_reads [where n = m]) (simp_all add: at_text_def final_line_def)
  ultimately have "at_ok (fst (run_at dev ?cmd 5000 True am2))"
    using assms(2,7) by (auto simp: run_at_def on_dev_def final_result_def)
  then have "ready_for_pdu dev n am" using assms(4) by (simp add: ready_for_pdu_def)
  with send_sms_transcript_raw [OF assms(1,2), of cell "to" "txt"] assms(3,5,9) show ?thesis
    by (simp add: submission_def)
qed

text \<open>A modem that answers the command for PDU mode only after the next command was written.\<close>

definition late_ok :: "string \<Rightarrow> string list \<Rightarrow> string" where
  "late_ok cmd d = (if prefix ''AT+CMGS='' cmd then ''OK'' @ [creturn, newline] else [])"

theorem late_ok_passes_for_prompt_witness:
  "am_dev (snd (AtModem_send_sms (echo_port late_ok) plain_cell ''+1555'' ''hi'' echo_modem)) =
     [[CHR 0x1B], line_of ''AT+CMGF=0'', line_of ''AT+CMGS=2'', ''hi'' @ [CHR 0x1A]]"
proof -
  let ?am2 = "snd (run_at (echo_port late_ok) ''AT+CMGF=0'' 1000 False (snd (write_all (echo_port late_ok) [CHR 0x1B] echo_modem)))"
  let ?am3 = "snd (write_all (echo_port late_ok) (line_of (''AT+CMGS='' @ to_string 2)) ?am2)"
  have "am_rx ?am2 = []" by code_simp
  moreover have "dv_slices (echo_port late_ok) 5000 (am_dev ?am3) = (1, am_dev ?am3)" by code_simp
  moreover have "received (polls (echo_port late_ok) 1 (am_dev ?am3)) = ''OK'' @ [creturn, newline]" by code_simp
  moreover have "encode_sms_submit plain_cell ''+1555'' ''hi'' = Some (''hi'', 2)" by (simp add: plain_cell_def)
  moreover have "0 \<le> am_fd echo_modem" "am_dev echo_modem = []" by (simp_all add: echo_modem_def new_AtModem_def)
  moreover have "to_string 2 = ''2''" by code_simp
  ultimately show ?thesis
    using late_ok_passes_for_prompt [OF echo_port_logs, of echo_modem plain_cell "''+1555''" "''hi''" "''hi''" 2 late_ok ?am2 ?am3 1 "am_dev ?am3" 1]
    by simp
qed

end
