(* ===== verification/Appliance_Conversation.thy ===== *)
theory Appliance_Conversation
  imports Standalone Reference_Server At_Transcript
begin

text \<open>
  The appliance end to end (\<open>daemon/zerotouchd_standalone.cpp\<close>): messages in the store of the modem are
  listed by the poll (\<open>src/at_modem.cpp\<close>), go through the bridge and the production backend to the
  handlers of the simulated server (\<open>sim/zt_gnmi_simd.cpp\<close>), and the answers leave as PDUs on the
  serial line.
\<close>

abbreviation set_sa_net :: "'n \<Rightarrow> ('m, 'ss, 'n) StandaloneClient \<Rightarrow> ('m, 'ss, 'n) StandaloneClient" where
  "set_sa_net n \<equiv> sa_net_update (\<lambda>_. n)"

lemma sa_authfn_admin:
  assumes "admin_in S clk sender good" "good (sa_sessions s)"
  obtains ss where "sa_authfn S clk sender s = (Admin, s\<lparr>mc_reads := mc_reads s + 1, sa_sessions := ss\<rparr>)" "good ss"
proof -
  obtain acc ss where "session S sender (clk (mc_reads s)) (sa_sessions s) = (acc, ss)"
    "account_access acc = Admin" "good ss" by (rule admin_in_session [OF assms])
  then show ?thesis by (intro that [of ss]) (simp_all add: sa_authfn_def sa_now_s_def)
qed

text \<open>The appliance's wiring keeps the interface.\<close>

interpretation app: provisioning "sa_bridge S dev cell action clk lib call" "tokenize S" lib call
  "\<lambda>s. sa_sink_config (sa_config s)" sa_net set_sa_net
  "\<lambda>sender s. enabled (sa_config s) \<and> admin_in S clk sender good \<and> good (sa_sessions s)"
proof (unfold_locales, goal_cases)
  case (2 sender s)
  then show ?case by (auto simp: sa_gate intro: admin_in_allowed)
next
  case (3 sender s)
  then show ?case by (auto simp: access_of_def sa_bridge_def elim: sa_authfn_admin)
next
  case (4 sender s)
  then show ?case by (auto simp: after_auth_def sa_bridge_def elim: sa_authfn_admin)
qed (simp_all add: sa_bridge_def sa_sink_def after_auth_def sa_authfn_def sa_now_s_def Let_def split: prod.split)

lemma handled_modem:
  "mc_modem (handled (sa_bridge S dev cell action clk lib call) set_sa_net sender n s) = mc_modem s"
  by (simp add: handled_def after_auth_def sa_bridge_def sa_authfn_def sa_now_s_def Let_def split: prod.split)

lemma handled_config:
  "sa_config (handled (sa_bridge S dev cell action clk lib call) set_sa_net sender n s) = sa_config s"
  by (simp add: handled_def after_auth_def sa_bridge_def sa_authfn_def sa_now_s_def Let_def split: prod.split)

lemma sa_send:
  "snd (tx_send (br_tx (sa_bridge S dev cell action clk lib call)) to reply s) =
     s\<lparr>mc_modem := snd (AtModem_send_sms dev cell to reply (mc_modem s))\<rparr>"
  by (simp add: sa_bridge_def AtModemTransport_def AtModem_seam_def on_machine_def split: prod.split)

subsection \<open>One poll\<close>

definition sa_poll ::
  "('ss, 'c, ('r, 'd) AtModem Machine) smsctl \<Rightarrow> 'd serial \<Rightarrow> ('r, 'x) cell_lib \<Rightarrow> ('r, 'd) AtModem Machine DsSink
     \<Rightarrow> (nat \<Rightarrow> u64) \<Rightarrow> ('p, 'v1, 'b) gnmi_lib \<Rightarrow> ('n, 'b) rpc
     \<Rightarrow> (('r, 'd) AtModem, 'ss, 'n) StandaloneClient \<Rightarrow> (('r, 'd) AtModem, 'ss, 'n) StandaloneClient" where
  "sa_poll S dev cell action clk lib call =
     modem_handle_timeout dev cell (Some (Bridge_on_sms (sa_bridge S dev cell action clk lib call)))"

text \<open>
  A listing of the store finds the messages \<open>ms\<close>, each in one part; entries that do not decode are not
  among them, and a listing that fails finds none.
\<close>

definition lists :: "'d serial \<Rightarrow> ('r, 'x) cell_lib \<Rightarrow> ('r, 'd) AtModem \<Rightarrow> 'x SmsMessage list \<Rightarrow> bool" where
  "lists dev cell am ms \<longleftrightarrow>
     (let r = fst (AtModem_at dev ''AT+CMGL=4'' am) in
      if at_ok r
      then (\<exists>es trailing. at_lines r = concat (map entry_lines es) @ trailing \<and> list_all (entry_ok cell) es
              \<and> list_all not_header trailing \<and> taken es = ms) \<and> list_all (\<lambda>m. sm_total m = 0) ms
      else ms = [])"

lemma listsI:
  assumes "fst (AtModem_at dev ''AT+CMGL=4'' am) = \<lparr>at_ok = True, at_lines = concat (map entry_lines es)\<rparr>"
    and "list_all (entry_ok cell) es" "taken es = ms" "list_all (\<lambda>m. sm_total m = 0) ms"
  shows "lists dev cell am ms"
proof -
  have "concat (map entry_lines es) = concat (map entry_lines es) @ [] \<and> list_all (entry_ok cell) es
      \<and> list_all not_header [] \<and> taken es = ms" using assms(2,3) by simp
  then show ?thesis using assms(1,4) unfolding lists_def Let_def by (simp only: simp_thms if_True AtResult.simps) blast
qed

lemma poll_lists:
  assumes "lists dev cell (mc_modem s) ms"
  shows "sa_poll S dev cell action clk lib call s = for_each (delete_stored dev) (map sm_index ms)
    (for_each (\<lambda>m. Bridge_on_sms (sa_bridge S dev cell action clk lib call) (inbound m)) ms
      (s\<lparr>mc_modem := snd (AtModem_at dev ''AT+CMGL=4'' (mc_modem s))\<rparr>))"
proof -
  let ?s = "s\<lparr>mc_modem := snd (AtModem_at dev ''AT+CMGL=4'' (mc_modem s))\<rparr>"
  have m: "on_machine (AtModem_at dev ''AT+CMGL=4'') s = (fst (AtModem_at dev ''AT+CMGL=4'' (mc_modem s)), ?s)"
    by (simp add: on_machine_def split: prod.split)
  show ?thesis
  proof (cases "at_ok (fst (AtModem_at dev ''AT+CMGL=4'' (mc_modem s)))")
    case True
    with assms obtain es trailing where
      "at_lines (fst (AtModem_at dev ''AT+CMGL=4'' (mc_modem s))) = concat (map entry_lines es) @ trailing"
      "list_all (entry_ok cell) es" "list_all not_header trailing" "taken es = ms" "list_all (\<lambda>m. sm_total m = 0) ms"
      by (auto simp: lists_def Let_def)
    with True m show ?thesis
      by (auto simp: sa_poll_def modem_handle_timeout_def drain_sms_def drain_loop_entries take_single_parts)
  next
    case False
    with assms m show ?thesis
      by (simp add: lists_def sa_poll_def modem_handle_timeout_def drain_sms_def Let_def)
  qed
qed

text \<open>A modem that is ready for the PDU of every message.\<close>

definition obliging :: "'d serial \<Rightarrow> ('r, 'x) cell_lib \<Rightarrow> ('d \<Rightarrow> string list) \<Rightarrow> bool" where
  "obliging dev cell wire \<longleftrightarrow> logs_writes dev wire
     \<and> (\<forall>to reply pdu n (am :: ('r, 'd) AtModem). encode_sms_submit cell to reply = Some (pdu, n) \<longrightarrow>
          0 \<le> am_fd am \<longrightarrow> ready_for_pdu dev n am)"

lemma obliging_send:
  assumes "obliging dev cell wire" "0 \<le> am_fd am"
  shows "wire (am_dev (snd (AtModem_send_sms dev cell to reply am))) = wire (am_dev am) @ submission cell to reply True
    \<and> am_fd (snd (AtModem_send_sms dev cell to reply am)) = am_fd am"
proof -
  have l: "logs_writes dev wire" using assms(1) by (simp add: obliging_def)
  have "submission cell to reply (ready_for_pdu dev (snd (the (encode_sms_submit cell to reply))) am)
      = submission cell to reply True"
    using assms by (auto simp: submission_def obliging_def split: option.split)
  with send_sms_transcript_raw [OF l assms(2), of cell "to" reply] show ?thesis by simp
qed

abbreviation sa_wire :: "('d \<Rightarrow> string list) \<Rightarrow> (('r, 'd) AtModem, 'z) Machine_scheme \<Rightarrow> string list" where
  "sa_wire wire s \<equiv> wire (am_dev (mc_modem s))"

text \<open>The service is on, the session stands, the port is open; the server's tree is \<open>t\<close> and the line has taken \<open>w\<close>.\<close>

definition serving :: "('d \<Rightarrow> string list) \<Rightarrow> ('ss \<Rightarrow> bool) \<Rightarrow> 'n \<Rightarrow> string list \<Rightarrow> (('r, 'd) AtModem, 'ss, 'n) StandaloneClient \<Rightarrow> bool" where
  "serving wire good t w s \<longleftrightarrow>
     enabled (sa_config s) \<and> good (sa_sessions s) \<and> 0 \<le> am_fd (mc_modem s) \<and> sa_net s = t \<and> sa_wire wire s = w"

lemma serving_at:
  assumes "obliging dev cell wire" "serving wire good t w s" "cmd \<noteq> []"
  shows "serving wire good t (w @ [line_of cmd]) (s\<lparr>mc_modem := snd (AtModem_at dev cmd (mc_modem s))\<rparr>)"
proof -
  have "logs_writes dev wire" using assms(1) by (simp add: obliging_def)
  from at_wire [OF this, of "mc_modem s" cmd] assms(2,3) show ?thesis by (simp add: serving_def)
qed

lemma appliance_sink:
  "sc_set_role (sa_sink_config c) = ''ADMIN''" "deny_of (sa_sink_config c) = default_deny_tokens"
  by (simp_all add: sa_sink_config_def default_sink_config_def deny_of_def)

text \<open>One message: the answer of the reference function leaves as one submission.\<close>

lemma message_answered:
  assumes "obliging dev cell wire" "codec_ok lib" "served_by lib clk2 call" "tree_texts lib t"
    and "admin_in S clk (sm_sender m) good" "cmd_ok lib (parse_gnmi (tokenize S (sm_text m)))"
    and "serving wire good t w s"
    and "ref_answer default_deny_tokens (parse_gnmi (tokenize S (sm_text m))) t = (reply, t')"
  shows "serving wire good t' (w @ submission cell (sm_sender m) reply True)
    (Bridge_on_sms (sa_bridge S dev cell action clk lib call) (inbound m) s)"
proof -
  let ?br = "sa_bridge S dev cell action clk lib call" and ?g = "parse_gnmi (tokenize S (sm_text m))"
  let ?w = "handled ?br set_sa_net (sm_sender m) t' s"
  have s: "enabled (sa_config s)" "good (sa_sessions s)" "0 \<le> am_fd (mc_modem s)" "sa_net s = t" "sa_wire wire s = w"
    using assms(7) by (simp_all add: serving_def)
  have "gnmi_answer lib call (sa_sink_config (sa_config s)) ?g (sa_net s) = (reply, t')"
    using answer_ref [OF assms(2,3) appliance_sink(1) assms(6,4)] assms(8) s(4) by (simp add: appliance_sink(2))
  moreover have "cmd_kind ?g \<in> {Get, Set}" using assms(6) by (simp add: cmd_ok_def)
  ultimately have "Bridge_on_sms ?br (inbound m) s = snd (tx_send (br_tx ?br) (sm_sender m) reply ?w)"
    using app.on_sms_answered [where inb = "inbound m" and w = s and S = S and clk = clk and good = good
        and g = ?g and reply = reply and n = t'] assms(5) s(1,2)
    by (simp add: inbound_def)
  also have "\<dots> = ?w\<lparr>mc_modem := snd (AtModem_send_sms dev cell (sm_sender m) reply (mc_modem s))\<rparr>"
    by (simp add: sa_send handled_modem)
  finally have b: "Bridge_on_sms ?br (inbound m) s = \<dots>" .
  have "good (sa_sessions ?w)"
    using app.handled_admin [where w = s and S = S and clk = clk and sender = "sm_sender m" and good = good
        and n = t' and dev = dev and cell = cell and action = action and lib = lib and call = call] assms(5) s(1,2)
    by simp
  with s obliging_send [OF assms(1) s(3), of "sm_sender m" reply] show ?thesis
    unfolding b by (simp add: serving_def app.handled_net handled_config)
qed

abbreviation command_of :: "(string \<Rightarrow> string list) \<Rightarrow> 'x SmsMessage \<Rightarrow> GnmiCommand" where
  "command_of tok m \<equiv> parse_gnmi (tok (sm_text m))"

definition submissions :: "('r, 'x) cell_lib \<Rightarrow> 'x SmsMessage list \<Rightarrow> string list \<Rightarrow> string list" where
  "submissions cell ms replies = concat (map2 (\<lambda>m reply. submission cell (sm_sender m) reply True) ms replies)"

lemma messages_answered:
  assumes "obliging dev cell wire" "codec_ok lib" "served_by lib clk2 call" "tree_texts lib t"
    and "\<forall>m \<in> set ms. admin_in S clk (sm_sender m) good \<and> cmd_ok lib (command_of (tokenize S) m)"
    and "serving wire good t w s" "ref_run default_deny_tokens (map (command_of (tokenize S)) ms) t = (replies, t')"
  shows "serving wire good t' (w @ submissions cell ms replies)
    (for_each (\<lambda>m. Bridge_on_sms (sa_bridge S dev cell action clk lib call) (inbound m)) ms s)"
  using assms(4-7)
proof (induction ms arbitrary: s t w replies)
  case (Cons m ms)
  obtain reply t1 where a: "ref_answer default_deny_tokens (command_of (tokenize S) m) t = (reply, t1)" by fastforce
  with Cons.prems(4) obtain rest where r: "ref_run default_deny_tokens (map (command_of (tokenize S)) ms) t1 = (rest, t')"
    and replies: "replies = reply # rest" by (auto simp: case_prod_beta prod_eq_iff)
  have c: "cmd_ok lib (command_of (tokenize S) m)" and ad: "admin_in S clk (sm_sender m) good" using Cons.prems(2) by simp_all
  from ref_answer_texts [OF Cons.prems(1) c, of default_deny_tokens] have t1: "tree_texts lib t1" by (simp add: a)
  have ms: "\<forall>m \<in> set ms. admin_in S clk (sm_sender m) good \<and> cmd_ok lib (command_of (tokenize S) m)"
    using Cons.prems(2) by simp
  from Cons.IH [OF t1 ms message_answered [OF assms(1-3) Cons.prems(1) ad c Cons.prems(3) a] r] show ?case
    by (simp add: replies submissions_def)
qed (simp add: submissions_def)

lemma deletions:
  assumes "obliging dev cell wire" "serving wire good t w s"
  shows "serving wire good t (w @ map (\<lambda>i. line_of (''AT+CMGD='' @ to_string i)) is) (for_each (delete_stored dev) is s)"
  using assms(2)
proof (induction "is" arbitrary: s w)
  case (Cons i "is")
  have "delete_stored dev i s = s\<lparr>mc_modem := snd (AtModem_at dev (''AT+CMGD='' @ to_string i) (mc_modem s))\<rparr>"
    by (simp add: delete_stored_def on_machine_def split: prod.split)
  with serving_at [OF assms(1) Cons.prems, of "''AT+CMGD='' @ to_string i"]
  have "serving wire good t (w @ [line_of (''AT+CMGD='' @ to_string i)]) (delete_stored dev i s)" by simp
  from Cons.IH [OF this] show ?case by simp
qed simp

text \<open>What one poll writes: the listing command, the replies, then the deletions.\<close>

definition poll_script :: "('r, 'x) cell_lib \<Rightarrow> 'x SmsMessage list \<Rightarrow> string list \<Rightarrow> string list" where
  "poll_script cell ms replies =
     [line_of ''AT+CMGL=4''] @ submissions cell ms replies @ map (\<lambda>m. line_of (''AT+CMGD='' @ to_string (sm_index m))) ms"

lemma poll_answered:
  assumes "obliging dev cell wire" "codec_ok lib" "served_by lib clk2 call" "tree_texts lib t"
    and "\<forall>m \<in> set ms. admin_in S clk (sm_sender m) good \<and> cmd_ok lib (command_of (tokenize S) m)"
    and "serving wire good t w s" "ref_run default_deny_tokens (map (command_of (tokenize S)) ms) t = (replies, t')"
    and "lists dev cell (mc_modem s) ms"
  shows "serving wire good t' (w @ poll_script cell ms replies) (sa_poll S dev cell action clk lib call s)"
proof -
  have "serving wire good t (w @ [line_of ''AT+CMGL=4'']) (s\<lparr>mc_modem := snd (AtModem_at dev ''AT+CMGL=4'' (mc_modem s))\<rparr>)"
    by (rule serving_at [OF assms(1,6)]) simp
  from deletions [OF assms(1) messages_answered [OF assms(1-5) this assms(7)], of "map sm_index ms"] show ?thesis
    unfolding poll_lists [OF assms(8)] by (simp add: poll_script_def o_def)
qed

subsection \<open>A dialog\<close>

text \<open>
  The events of the appliance: its timer, the modem on its own (new messages may come into its store, but
  what was written to it stays written), and the modem's poll.  The trace is what each poll found.
\<close>

inductive sa_dialog ::
  "('ss, 'c, ('r, 'd) AtModem Machine) smsctl \<Rightarrow> 'd serial \<Rightarrow> ('r, 'x) cell_lib \<Rightarrow> ('r, 'd) AtModem Machine DsSink
     \<Rightarrow> (nat \<Rightarrow> u64) \<Rightarrow> ('p, 'v1, 'b) gnmi_lib \<Rightarrow> ('n, 'b) rpc \<Rightarrow> ('d \<Rightarrow> string list)
     \<Rightarrow> (('r, 'd) AtModem, 'ss, 'n) StandaloneClient \<Rightarrow> 'x SmsMessage list list
     \<Rightarrow> (('r, 'd) AtModem, 'ss, 'n) StandaloneClient \<Rightarrow> bool"
  for S dev cell action clk lib call wire where
  over: "sa_dialog S dev cell action clk lib call wire s [] s"
| tick: "sa_dialog S dev cell action clk lib call wire (sa_handle_timeout S clk s) pss s' \<Longrightarrow>
    sa_dialog S dev cell action clk lib call wire s pss s'"
| modem: "wire d = sa_wire wire s \<Longrightarrow>
    sa_dialog S dev cell action clk lib call wire (s\<lparr>mc_modem := (mc_modem s)\<lparr>am_dev := d\<rparr>\<rparr>) pss s' \<Longrightarrow>
    sa_dialog S dev cell action clk lib call wire s pss s'"
| poll: "lists dev cell (mc_modem s) ms \<Longrightarrow>
    sa_dialog S dev cell action clk lib call wire (sa_poll S dev cell action clk lib call s) pss s' \<Longrightarrow>
    sa_dialog S dev cell action clk lib call wire s (ms # pss) s'"

text \<open>What the polls write and what the server ends with, by the reference function.\<close>

fun ref_polls ::
  "('r, 'x) cell_lib \<Rightarrow> (string \<Rightarrow> string list) \<Rightarrow> 'x SmsMessage list list \<Rightarrow> GnmiTree \<Rightarrow> string list \<times> GnmiTree" where
  "ref_polls cell tok [] t = ([], t)"
| "ref_polls cell tok (ms # pss) t =
     (let (replies, t1) = ref_run default_deny_tokens (map (command_of tok) ms) t; (w, t2) = ref_polls cell tok pss t1
      in (poll_script cell ms replies @ w, t2))"

lemma sa_dialog_ref:
  assumes "sa_dialog S dev cell action clk lib call wire s pss s'"
    and "serving wire good t w s" "tree_texts lib t"
    and "\<forall>ms \<in> set pss. \<forall>m \<in> set ms. admin_in S clk (sm_sender m) good \<and> cmd_ok lib (command_of (tokenize S) m)"
    and "obliging dev cell wire" "codec_ok lib" "served_by lib clk2 call" "outlives_sweeps S clk good"
  shows "serving wire good (snd (ref_polls cell (tokenize S) pss t)) (w @ fst (ref_polls cell (tokenize S) pss t)) s'"
  using assms(1-4)
proof (induction arbitrary: t w rule: sa_dialog.induct)
  case (tick s pss s')
  have "serving wire good t w (sa_handle_timeout S clk s)"
    using tick.prems(1) assms(8) by (simp add: serving_def sa_handle_timeout_def sa_now_s_def outlives_sweeps_def)
  from tick.IH [OF this tick.prems(2,3)] show ?case .
next
  case (modem d s pss s')
  have "serving wire good t w (s\<lparr>mc_modem := (mc_modem s)\<lparr>am_dev := d\<rparr>\<rparr>)"
    using modem.prems(1) modem.hyps(1) by (simp add: serving_def)
  from modem.IH [OF this modem.prems(2,3)] show ?case .
next
  case (poll s ms pss s')
  obtain replies t1 where r: "ref_run default_deny_tokens (map (command_of (tokenize S)) ms) t = (replies, t1)" by fastforce
  have ms: "\<forall>m \<in> set ms. admin_in S clk (sm_sender m) good \<and> cmd_ok lib (command_of (tokenize S) m)"
    using poll.prems(3) by simp
  then have t1: "tree_texts lib t1"
    using ref_run_texts [OF poll.prems(2), of "map (command_of (tokenize S)) ms" default_deny_tokens] r by simp
  from poll.IH [OF poll_answered [OF assms(5-7) poll.prems(2) ms poll.prems(1) r poll.hyps(1)] t1] poll.prems(3) r show ?case
    by (simp add: case_prod_beta)
qed simp

text \<open>
  C5.  The appliance refines the reference server, serial line to serial line: whatever polls, timer
  ticks and arrivals in the modem's store follow each other, and however many messages by
  administrators a poll finds, the bytes written on the line are, poll by poll, the listing command,
  one submission to its sender for each message with exactly the answer of the reference function,
  in the order of the store, and then the deletions of exactly these messages; and the server ends
  with the tree of the reference function run on all the commands.
\<close>

theorem appliance_refines_reference:
  assumes "sa_dialog S dev cell action clk lib call wire s pss s'"
    and "enabled (sa_config s)" "good (sa_sessions s)" "0 \<le> am_fd (mc_modem s)" "tree_texts lib (sa_net s)"
    and "\<forall>ms \<in> set pss. \<forall>m \<in> set ms. admin_in S clk (sm_sender m) good \<and> cmd_ok lib (command_of (tokenize S) m)"
    and "obliging dev cell wire" "codec_ok lib" "served_by lib clk2 call" "outlives_sweeps S clk good"
  shows "sa_wire wire s' = sa_wire wire s @ fst (ref_polls cell (tokenize S) pss (sa_net s))
    \<and> sa_net s' = snd (ref_polls cell (tokenize S) pss (sa_net s))"
proof -
  have "serving wire good (sa_net s) (sa_wire wire s) s" using assms(2-4) by (simp add: serving_def)
  from sa_dialog_ref [OF assms(1) this assms(5-10)] show ?thesis by (simp add: serving_def)
qed

text \<open>A modem whose store holds a SET and a PDU that does not decode at the first listing and a GET at the next.\<close>

definition desk_store :: "string list \<Rightarrow> string list" where
  "desk_store d =
     (if length (filter (prefix ''AT+CMGL'') d) = 1 then [''+CMGL: 4,0,,9'', ''IOT GNMI SET /b 2'', ''+CMGL: 6,0,,1'', ''?'']
      else [''+CMGL: 5,0,,9'', ''IOT GNMI GET /b''])"

definition desk_modem :: "string \<Rightarrow> string list \<Rightarrow> string" where
  "desk_modem cmd d =
     (if prefix ''AT+CMGS='' cmd then ''> ''
      else if prefix ''AT+CMGL'' cmd then at_text (desk_store d @ [''OK'']) else at_text [''OK''])"

lemma desk_obliging: "obliging (echo_port desk_modem) plain_cell (\<lambda>d. d)"
proof -
  have "ready_for_pdu (echo_port desk_modem) n am" if "0 \<le> am_fd am" for n and am :: "(unit, string list) AtModem"
  proof -
    let ?am = "snd (run_at (echo_port desk_modem) ''AT+CMGF=0'' 1000 False (snd (write_all (echo_port desk_modem) [CHR 0x1B] am)))"
    obtain d where "write_all (echo_port desk_modem) [CHR 0x1B] am = (True, am\<lparr>am_dev := d\<rparr>)"
      by (rule write_all_wire [OF echo_port_logs])
    then have "0 \<le> am_fd ?am"
      using run_at_wire [OF echo_port_logs, of "am\<lparr>am_dev := d\<rparr>" desk_modem "''AT+CMGF=0''" 1000 False] that by simp
    then show ?thesis
      unfolding ready_for_pdu_def
      by (simp add: run_at_def write_all_def on_dev_def echo_port_def desk_modem_def)
  qed
  then show ?thesis by (simp add: obliging_def echo_port_logs)
qed

definition desk_client :: "((unit, string list) AtModem, unit, GnmiTree) StandaloneClient" where
  "desk_client = \<lparr>mc_modem = echo_modem, mc_reads = 0, sa_config = default_config\<lparr>enabled := True\<rparr>,
     sa_users = \<lparr>m_users = []\<rparr>, sa_sessions = (), sa_handled = 0, sa_net = empty_tree\<rparr>"

definition desk_poll ::
  "((unit, string list) AtModem, unit, GnmiTree) StandaloneClient \<Rightarrow> ((unit, string list) AtModem, unit, GnmiTree) StandaloneClient" where
  "desk_poll = sa_poll demo_smsctl (echo_port desk_modem) plain_cell
     (sa_action (echo_port desk_modem) plain_cell ''/run/reboot'' (\<lambda>m. (True, m)) (\<lambda>_. 0)) (\<lambda>_. 0) plain_lib (loopback (\<lambda>_. 0))"

definition desk_set :: "unit SmsMessage" where
  "desk_set = (the (decode_sms_deliver plain_cell ''IOT GNMI SET /b 2''))\<lparr>sm_index := 4\<rparr>"

definition desk_get :: "unit SmsMessage" where
  "desk_get = (the (decode_sms_deliver plain_cell ''IOT GNMI GET /b''))\<lparr>sm_index := 5\<rparr>"

abbreviation desk_tick ::
  "((unit, string list) AtModem, unit, GnmiTree) StandaloneClient \<Rightarrow> ((unit, string list) AtModem, unit, GnmiTree) StandaloneClient" where
  "desk_tick \<equiv> sa_handle_timeout demo_smsctl (\<lambda>_. 0)"

lemma desk_stoi: "stoi '' 4,0,,9'' = Some 4" "stoi '' 5,0,,9'' = Some 5" "stoi '' 6,0,,1'' = Some 6"
  by code_simp+

lemma desk_lists:
  "lists (echo_port desk_modem) plain_cell (mc_modem desk_client) [desk_set]"
  "lists (echo_port desk_modem) plain_cell (mc_modem (desk_tick (desk_poll desk_client))) [desk_get]"
proof -
  have "fst (AtModem_at (echo_port desk_modem) ''AT+CMGL=4'' (mc_modem desk_client)) =
      \<lparr>at_ok = True, at_lines = concat (map entry_lines
        [([], ''+CMGL: 4,0,,9'', ''IOT GNMI SET /b 2'', 4, Some (desk_set\<lparr>sm_index := 0\<rparr>)), ([], ''+CMGL: 6,0,,1'', ''?'', 6, None)])\<rparr>"
    by code_simp
  then show "lists (echo_port desk_modem) plain_cell (mc_modem desk_client) [desk_set]"
    by (rule listsI) (simp_all add: plain_cell_decode desk_set_def desk_stoi)
  have "fst (AtModem_at (echo_port desk_modem) ''AT+CMGL=4'' (mc_modem (desk_tick (desk_poll desk_client)))) =
      \<lparr>at_ok = True, at_lines = concat (map entry_lines
        [([], ''+CMGL: 5,0,,9'', ''IOT GNMI GET /b'', 5, Some (desk_get\<lparr>sm_index := 0\<rparr>))])\<rparr>"
    by code_simp
  then show "lists (echo_port desk_modem) plain_cell (mc_modem (desk_tick (desk_poll desk_client))) [desk_get]"
    by (rule listsI) (simp_all add: plain_cell_decode desk_get_def desk_stoi)
qed

lemma desk_commands:
  "command_of (tokenize demo_smsctl) desk_set = set_cmd [(''/b'', ''2'')]"
  "command_of (tokenize demo_smsctl) desk_get = get_cmd [''/b'']"
  by code_simp+

theorem appliance_refines_reference_witness:
  "sa_wire (\<lambda>d. d) (desk_poll (desk_tick (desk_poll desk_client))) =
     [line_of ''AT+CMGL=4'', [CHR 0x1B], line_of ''AT+CMGF=0'', line_of ''AT+CMGS=29'',
      ''OK GNMI SET 1 path(s) updated'' @ [CHR 0x1A], line_of ''AT+CMGD=4'',
      line_of ''AT+CMGL=4'', [CHR 0x1B], line_of ''AT+CMGF=0'', line_of ''AT+CMGS=16'',
      ''OK GNMI GET /b=2'' @ [CHR 0x1A], line_of ''AT+CMGD=5'']"
proof -
  let ?dialog = "sa_dialog demo_smsctl (echo_port desk_modem) plain_cell
     (sa_action (echo_port desk_modem) plain_cell ''/run/reboot'' (\<lambda>m. (True, m)) (\<lambda>_. 0)) (\<lambda>_. 0) plain_lib (loopback (\<lambda>_. 0)) (\<lambda>d. d)"
  have "?dialog (desk_tick (desk_poll desk_client)) [[desk_get]] (desk_poll (desk_tick (desk_poll desk_client)))"
    unfolding desk_poll_def by (rule sa_dialog.poll [OF desk_lists(2) [unfolded desk_poll_def] sa_dialog.over])
  then have "?dialog (desk_poll desk_client) [[desk_get]] (desk_poll (desk_tick (desk_poll desk_client)))"
    by (rule sa_dialog.tick)
  then have dlg: "?dialog desk_client [[desk_set], [desk_get]] (desk_poll (desk_tick (desk_poll desk_client)))"
    unfolding desk_poll_def by (rule sa_dialog.poll [OF desk_lists(1)])
  have served: "served_by plain_lib (\<lambda>_. 0) (loopback (\<lambda>_. 0))" by (simp add: served_by_def loopback_def)
  have codec: "codec_ok plain_lib" by (simp add: codec_ok_def)
  have "admin_in (demo_smsctl :: (unit, unit, (unit, string list) AtModem Machine) smsctl) (\<lambda>_. 0) ''+1'' (\<lambda>_. True)"
    by (simp add: admin_in_def demo_smsctl_def account_access_def)
  moreover have "outlives_sweeps (demo_smsctl :: (unit, unit, (unit, string list) AtModem Machine) smsctl) (\<lambda>_. 0) (\<lambda>_. True)"
    by (simp add: outlives_sweeps_def)
  moreover have "enabled (sa_config desk_client)" "0 \<le> am_fd (mc_modem desk_client)" "sa_wire (\<lambda>d. d) desk_client = []"
    "sa_net desk_client = empty_tree" by (simp_all add: desk_client_def echo_modem_def new_AtModem_def)
  moreover have "fst (ref_polls plain_cell (tokenize demo_smsctl) [[desk_set], [desk_get]] empty_tree) =
     [line_of ''AT+CMGL=4'', [CHR 0x1B], line_of ''AT+CMGF=0'', line_of ''AT+CMGS=29'',
      ''OK GNMI SET 1 path(s) updated'' @ [CHR 0x1A], line_of ''AT+CMGD=4'',
      line_of ''AT+CMGL=4'', [CHR 0x1B], line_of ''AT+CMGF=0'', line_of ''AT+CMGS=16'',
      ''OK GNMI GET /b=2'' @ [CHR 0x1A], line_of ''AT+CMGD=5'']" by code_simp
  moreover have "sm_sender desk_set = ''+1''" "sm_sender desk_get = ''+1''"
    by (simp_all add: desk_set_def desk_get_def plain_cell_decode)
  ultimately show ?thesis
    using appliance_refines_reference [OF dlg _ _ _ _ _ desk_obliging codec served, where good = "\<lambda>_. True"]
    by (simp add: desk_commands cmd_ok_def path_ok_def text_ok_def tree_texts_def empty_command_def del: ref_polls.simps)
qed

end
