(* ===== verification/At_Clock.thy ===== *)
theory At_Clock
  imports At_Modem
begin

text \<open>
  The command engine of \<open>src/at_modem.cpp\<close> on a running clock: \<open>write_all\<close> call by call and \<open>run_at\<close> with
  its deadline, as loops that may not end.  Theory \<open>At_Modem\<close> takes the results of the writes and the
  number of turns before the deadline as given; here they come out of the run, and every run that
  returns is one of those.  \<open>clk i\<close> is the \<open>i\<close>-th reading of \<open>now_ms()\<close>.
\<close>

text \<open>One \<open>write\<close>: so many bytes, \<open>EAGAIN\<close>, or another error.\<close>

datatype write_result = Wrote nat | Again | Failed

record 'd timed_port =
  tp_write :: "string \<Rightarrow> ('d, write_result) eff"
  tp_poll :: "('d, string option) eff"

partial_function (option) clk_write_loop :: "'d timed_port \<Rightarrow> string \<Rightarrow> nat \<Rightarrow> 'd \<Rightarrow> (bool \<times> 'd) option" where
  "clk_write_loop T s off d =
     (if \<not> off < length s then Some (True, d)
      else
        (let (r, d1) = tp_write T (drop off s) d in
         case r of
           Failed \<Rightarrow> Some (False, d1)
         | Again \<Rightarrow> clk_write_loop T s off d1
         | Wrote n \<Rightarrow> clk_write_loop T s (off + n) d1))"

definition clk_write_all :: "'d timed_port \<Rightarrow> string \<Rightarrow> ('r, 'd) AtModem \<Rightarrow> (bool \<times> ('r, 'd) AtModem) option" where
  "clk_write_all T s am =
     (case clk_write_loop T s 0 (am_dev am) of None \<Rightarrow> None | Some (b, d) \<Rightarrow> Some (b, am\<lparr>am_dev := d\<rparr>))"

partial_function (option) clk_loop ::
  "'d timed_port \<Rightarrow> (nat \<Rightarrow> u64) \<Rightarrow> u64 \<Rightarrow> string \<Rightarrow> bool \<Rightarrow> nat \<Rightarrow> string list \<Rightarrow> ('r, 'd) AtModem
     \<Rightarrow> (AtResult \<times> nat \<times> ('r, 'd) AtModem) option" where
  "clk_loop T clk deadline cmd want_prompt i acc am =
     (if \<not> clk i < deadline then Some (\<lparr>at_ok = False, at_lines = acc\<rparr>, i + 1, am)
      else
        (let (p, am1) = on_dev (tp_poll T) am in
         case p of
           None \<Rightarrow> clk_loop T clk deadline cmd want_prompt (i + 1) acc am1
         | Some buf \<Rightarrow>
             (let rx = am_rx am1 @ buf in
              if want_prompt \<and> CHR ''>'' \<in> set rx then
                Some (\<lparr>at_ok = True, at_lines = acc\<rparr>, i + 1, am1\<lparr>am_rx := []\<rparr>)
              else
                (let (res, rx1, acc1) = at_take_lines cmd rx acc in
                 case res of
                   Some r \<Rightarrow> Some (r, i + 1, am1\<lparr>am_rx := rx1\<rparr>)
                 | None \<Rightarrow> clk_loop T clk deadline cmd want_prompt (i + 1) acc1 (am1\<lparr>am_rx := rx1\<rparr>)))))"

definition clk_run_at ::
  "'d timed_port \<Rightarrow> (nat \<Rightarrow> u64) \<Rightarrow> string \<Rightarrow> int \<Rightarrow> bool \<Rightarrow> nat \<Rightarrow> ('r, 'd) AtModem
     \<Rightarrow> (AtResult \<times> nat \<times> ('r, 'd) AtModem) option" where
  "clk_run_at T clk cmd timeout_ms want_prompt i am =
     (if am_fd am < 0 then Some (no_result, i, am)
      else
        (case (if cmd \<noteq> [] then clk_write_all T (cmd @ [creturn]) am else Some (True, am)) of
           None \<Rightarrow> None
         | Some (written, am1) \<Rightarrow>
             if \<not> written then Some (no_result, i, am1)
             else clk_loop T clk (clk i + word_of_int timeout_ms) cmd want_prompt (i + 1) [] am1))"

declare clk_write_loop.simps [code] clk_loop.simps [code]

subsection \<open>Every run is counted\<close>

lemma clk_loop_counts:
  fixes am :: "('r, 'd) AtModem"
  assumes "dv_poll dev = tp_poll T" "\<forall>j < k. clk (i + j) < deadline" "\<not> clk (i + k) < deadline"
  shows "\<exists>i'. clk_loop T clk deadline cmd wp i acc am =
    Some (fst (run_at_loop dev cmd wp k acc am), i', snd (run_at_loop dev cmd wp k acc am))"
  using assms(2,3)
proof (induction k arbitrary: i acc am)
  case 0
  then show ?case by (subst clk_loop.simps) simp
next
  case (Suc k)
  then have now: "clk i < deadline" by force
  have "clk (i + 1 + j) < deadline" if "j < k" for j
    using Suc.prems(1) [rule_format, of "Suc j"] that by simp
  moreover have "\<not> clk (i + 1 + k) < deadline" using Suc.prems(2) by simp
  ultimately have next_turn: "\<exists>i'. clk_loop T clk deadline cmd wp (i + 1) acc' am' =
      Some (fst (run_at_loop dev cmd wp k acc' am'), i', snd (run_at_loop dev cmd wp k acc' am'))" for acc' and am' :: "('r, 'd) AtModem"
    by (intro Suc.IH) blast
  obtain p am1 where p: "on_dev (tp_poll T) am = (p, am1)" by fastforce
  obtain res rx1 acc1 where l: "at_take_lines cmd (am_rx am1 @ the p) acc = (res, rx1, acc1)"
    by (cases "at_take_lines cmd (am_rx am1 @ the p) acc") auto
  show ?case
    using next_turn l by (subst clk_loop.simps) (auto simp: now p assms(1) split: option.split)
qed

text \<open>The clock gets to the deadline: the loop of \<open>run_at\<close> ends after some number of turns.\<close>

lemma turns_before_deadline:
  fixes clk :: "nat \<Rightarrow> u64"
  assumes "\<not> clk (i + m) < deadline"
  obtains k where "\<forall>j < k. clk (i + j) < deadline" "\<not> clk (i + k) < deadline"
  using exists_least_iff [of "\<lambda>k. \<not> clk (i + k) < deadline"] assms that by blast

text \<open>
  C18.  The command engine always ends: once the port has taken or refused the command and the clock
  goes on to the deadline, \<open>run_at\<close> returns, whatever the modem sends; and what it returns is what the
  engine of \<open>At_Modem\<close> returns for some results of the writes and some number of turns, so what is
  proved there of every port holds for every run.
\<close>

theorem at_engine_ends:
  fixes am :: "('r, 'd) AtModem"
  assumes "cmd = [] \<or> clk_write_all T (cmd @ [creturn]) am \<noteq> None"
    and "\<not> clk (i + 1 + m) < clk i + word_of_int timeout_ms"
  shows "\<exists>r i' am' dev. clk_run_at T clk cmd timeout_ms wp i am = Some (r, i', am')
    \<and> dv_poll dev = tp_poll T \<and> run_at dev cmd timeout_ms wp am = (r, am')"
proof -
  obtain k where k: "\<forall>j < k. clk (i + 1 + j) < clk i + word_of_int timeout_ms"
    "\<not> clk (i + 1 + k) < clk i + word_of_int timeout_ms" using assms(2) by (rule turns_before_deadline)
  obtain b d where w: "(if cmd \<noteq> [] then clk_write_all T (cmd @ [creturn]) am else Some (True, am)) = Some (b, am\<lparr>am_dev := d\<rparr>)"
    "cmd = [] \<longrightarrow> d = am_dev am"
  proof (cases "cmd = []")
    case True
    then show ?thesis using that [of True "am_dev am"] by simp
  next
    case False
    with assms(1) that show ?thesis by (auto simp: clk_write_all_def split: option.splits prod.splits)
  qed
  define dev :: "'d serial" where "dev = \<lparr>dv_open = (\<lambda>_ x. (0, x)), dv_tcgetattr = (\<lambda>x. (True, x)),
    dv_tcsetattr = (\<lambda>_ x. (True, x)), dv_writes = (\<lambda>s _. (if b then [Some (length s)] else [], d)),
    dv_slices = (\<lambda>_ x. (k, x)), dv_poll = tp_poll T\<rparr>"
  have poll: "dv_poll dev = tp_poll T" by (simp add: dev_def)
  have "write_all dev (cmd @ [creturn]) am = (b, am\<lparr>am_dev := d\<rparr>)"
    by (simp add: write_all_def on_dev_def dev_def)
  moreover have "dv_slices dev timeout_ms = (\<lambda>x. (k, x))" by (simp add: dev_def)
  moreover obtain i' where "clk_loop T clk (clk i + word_of_int timeout_ms) cmd wp (i + 1) [] (am\<lparr>am_dev := d\<rparr>) =
      Some (fst (run_at_loop dev cmd wp k [] (am\<lparr>am_dev := d\<rparr>)), i', snd (run_at_loop dev cmd wp k [] (am\<lparr>am_dev := d\<rparr>)))"
    using clk_loop_counts [OF poll k, of cmd wp "[]" "am\<lparr>am_dev := d\<rparr>"] by blast
  ultimately have "\<exists>i'. clk_run_at T clk cmd timeout_ms wp i am =
      Some (fst (run_at dev cmd timeout_ms wp am), i', snd (run_at dev cmd timeout_ms wp am))"
    using w by (auto simp: clk_run_at_def run_at_def on_dev_def)
  with poll show ?thesis by (metis prod.collapse)
qed

text \<open>A modem that takes every command and says nothing.\<close>

definition silent :: "unit timed_port" where
  "silent = \<lparr>tp_write = (\<lambda>s d. (Wrote (length s), d)), tp_poll = (\<lambda>d. (None, d))\<rparr>"

lemma silent_writes: "clk_write_loop silent s off d = Some (True, d)"
  by (subst clk_write_loop.simps) (simp add: silent_def, subst clk_write_loop.simps, simp)

theorem at_engine_ends_witness:
  "\<exists>r i' am' dev. clk_run_at silent (\<lambda>i. 100 * of_nat i) ''AT'' 3000 False 0
       ((new_AtModem \<lparr>amc_dev = ''/dev/ttyUSB2'', amc_baud = 115200, amc_poll_sec = 5, amc_type = Generic\<rparr> () ())\<lparr>am_fd := 3\<rparr>)
     = Some (r, i', am') \<and> dv_poll dev = tp_poll silent \<and> run_at dev ''AT'' 3000 False
       ((new_AtModem \<lparr>amc_dev = ''/dev/ttyUSB2'', amc_baud = 115200, amc_poll_sec = 5, amc_type = Generic\<rparr> () ())\<lparr>am_fd := 3\<rparr>)
     = (r, am')"
  by (rule at_engine_ends [where m = 30]) (simp_all add: clk_write_all_def silent_writes)

subsection \<open>The write that does not end\<close>

definition stays_blocked :: "'d timed_port \<Rightarrow> ('d \<Rightarrow> bool) \<Rightarrow> bool" where
  "stays_blocked T blocked \<longleftrightarrow>
     (\<forall>s d. blocked d \<longrightarrow> s \<noteq> [] \<longrightarrow> (\<exists>d'. tp_write T s d = (Again, d') \<and> blocked d'))"

lemma blocked_no_result:
  "clk_write_loop T s off d = Some y \<Longrightarrow> stays_blocked T blocked \<Longrightarrow> off < length s \<Longrightarrow> \<not> blocked d"
proof (induction T s off d y rule: clk_write_loop.raw_induct [rotated, consumes 1, case_names turn])
  case (turn loop T s off d y)
  show ?case
  proof
    assume b: "blocked d"
    have "drop off s \<noteq> []" using turn.prems by simp
    with b turn.prems obtain d' where "tp_write T (drop off s) d = (Again, d')" "blocked d'"
      unfolding stays_blocked_def by blast
    with turn show False by auto
  qed
qed

text \<open>
  C19.  The write has no deadline: on a port that has come to refuse every write for the moment (the
  modem stops reading the line, or is unplugged behind its converter), a command never returns,
  however far the clock goes on, and with it neither does the poll nor anything else on the
  appliance's only thread.
\<close>

theorem blocked_port_hangs:
  assumes "stays_blocked T blocked" "0 \<le> am_fd am" "cmd \<noteq> []" "blocked (am_dev am)"
  shows "clk_run_at T clk cmd timeout_ms wp i am = None"
proof -
  have "clk_write_loop T (cmd @ [creturn]) 0 (am_dev am) = None"
    using blocked_no_result [OF _ assms(1)] assms(4) by (metis length_append_singleton not_None_eq zero_less_Suc)
  with assms(2,3) show ?thesis by (simp add: clk_run_at_def clk_write_all_def)
qed

theorem blocked_port_hangs_witness:
  "clk_run_at \<lparr>tp_write = (\<lambda>s d. (Again, d)), tp_poll = (\<lambda>d. (None, d))\<rparr> (\<lambda>i. 100 * of_nat i) ''AT'' 3000 False 0
     ((new_AtModem \<lparr>amc_dev = ''/dev/ttyUSB2'', amc_baud = 115200, amc_poll_sec = 5, amc_type = Generic\<rparr> () ())\<lparr>am_fd := 3\<rparr>) = None"
  by (rule blocked_port_hangs [where blocked = "\<lambda>_. True"]) (simp_all add: stays_blocked_def)

end
