(* ===== verification/Tunnel_Session.thy ===== *)
theory Tunnel_Session
  imports Cpp_Num Std_Map
begin

text \<open>
  The tunnel's shared half, \<open>grpc-tunnel/src/session.cc\<close>, \<open>session.h\<close> and \<open>net.cc\<close>: frames, one
  session with its table of logical streams, the pump of one socket, and the address helpers.

  \<open>Conn\<close> objects are shared by the table and by a pump thread (\<open>std::shared_ptr\<close>), so they live in a
  store and are named by their index; the index is the pointer.  What gRPC's \<open>Write\<close> and the
  socket calls return is an argument of the operation that makes the call.
\<close>

datatype FrameType = UNKNOWN | REGISTER | REGISTER_ACK | OPEN | DATA | CLOSE | KEEPALIVE

record Frame =
  f_stream_id :: u64
  f_type :: FrameType
  f_data :: string
  f_target :: string
  f_error :: string

definition new_frame :: Frame where
  "new_frame = \<lparr>f_stream_id = 0, f_type = UNKNOWN, f_data = [], f_target = [], f_error = []\<rparr>"

record Conn =
  cn_fd :: int
  cn_closed :: bool
  cn_shut :: bool

text \<open>\<open>cn_shut\<close> says that \<open>shutdown\<close> was called on the socket, which ends a \<open>recv\<close> on it.\<close>

record Session =
  alive :: bool
  conns :: "(u64, nat) smap"
  next_id :: u64
  heap :: "Conn list"
  sent_frames :: "Frame list"

definition new_session :: Session where
  "new_session = \<lparr>alive = True, conns = [], next_id = 1, heap = [], sent_frames = []\<rparr>"

definition Send :: "bool \<Rightarrow> Frame \<Rightarrow> (Session, bool) eff" where
  "Send written f s =
     (if \<not> alive s then (False, s)
      else (written, if written then s\<lparr>sent_frames := sent_frames s @ [f]\<rparr> else s))"

definition SendData :: "bool \<Rightarrow> u64 \<Rightarrow> string \<Rightarrow> (Session, bool) eff" where
  "SendData written i buf s =
     Send written (new_frame\<lparr>f_stream_id := i, f_type := DATA, f_data := buf\<rparr>) s"

definition SendClose :: "bool \<Rightarrow> u64 \<Rightarrow> string \<Rightarrow> (Session, bool) eff" where
  "SendClose written i err s =
     Send written
       (let f = new_frame\<lparr>f_stream_id := i, f_type := CLOSE\<rparr> in if err \<noteq> [] then f\<lparr>f_error := err\<rparr> else f) s"

definition Shutdown :: "Session \<Rightarrow> Session" where
  "Shutdown s = s\<lparr>alive := False\<rparr>"

definition NextStreamId :: "(Session, u64) eff" where
  "NextStreamId s = (next_id s, s\<lparr>next_id := next_id s + 1\<rparr>)"

definition AddConn :: "u64 \<Rightarrow> int \<Rightarrow> (Session, nat) eff" where
  "AddConn i fd s =
     (let ref = length (heap s) in
      (ref, s\<lparr>heap := heap s @ [\<lparr>cn_fd = fd, cn_closed = False, cn_shut = False\<rparr>],
              conns := smap_set i ref (conns s)\<rparr>))"

definition GetConn :: "u64 \<Rightarrow> Session \<Rightarrow> nat option" where
  "GetConn i s = smap_find (conns s) i"

text \<open>Mark a connection closed and shut its socket down.\<close>

definition shut_conn :: "nat \<Rightarrow> Session \<Rightarrow> Session" where
  "shut_conn ref s = s\<lparr>heap := (heap s)[ref := ((heap s) ! ref)\<lparr>cn_closed := True, cn_shut := True\<rparr>]\<rparr>"

definition CloseConn :: "u64 \<Rightarrow> (Session, bool) eff" where
  "CloseConn i s =
     (case smap_find (conns s) i of
        None \<Rightarrow> (False, s)
      | Some ref \<Rightarrow> (True, shut_conn ref (s\<lparr>conns := smap_erase i (conns s)\<rparr>)))"

definition CloseAll :: "Session \<Rightarrow> Session" where
  "CloseAll s = for_each (\<lambda>(_, ref). shut_conn ref) (conns s) (s\<lparr>conns := []\<rparr>)"

definition OpenStreams :: "Session \<Rightarrow> nat" where
  "OpenStreams s = length (conns s)"

text \<open>
  The pump, socket to tunnel.  \<open>reads\<close> are the results of successive \<open>recv\<close> calls with the result of
  the \<open>Write\<close> that follows; the list ends when \<open>recv\<close> does (end of file or error), and an
  interrupted call is \<^term>\<open>None\<close>.  \<open>last_written\<close> is the result of writing the final CLOSE.
\<close>

fun pump_loop :: "u64 \<Rightarrow> (string \<times> bool) option list \<Rightarrow> Session \<Rightarrow> Session" where
  "pump_loop i [] s = s"
| "pump_loop i (None # rs) s = pump_loop i rs s"
| "pump_loop i (Some (buf, written) # rs) s =
     (let (sent, s1) = SendData written i buf s in if \<not> sent then s1 else pump_loop i rs s1)"

definition pump_end :: "u64 \<Rightarrow> nat \<Rightarrow> bool \<Rightarrow> Session \<Rightarrow> Session" where
  "pump_end i ref last_written s =
     (let ours = \<not> cn_closed (heap s ! ref);
          s1 = s\<lparr>heap := (heap s)[ref := ((heap s) ! ref)\<lparr>cn_closed := True\<rparr>]\<rparr>;
          s2 = s1\<lparr>conns := smap_erase i (conns s1)\<rparr>
      in if ours then snd (SendClose last_written i [] s2) else s2)"

definition Pump :: "u64 \<Rightarrow> nat \<Rightarrow> (string \<times> bool) option list \<Rightarrow> bool \<Rightarrow> Session \<Rightarrow> Session" where
  "Pump i ref reads last_written s = pump_end i ref last_written (pump_loop i reads s)"

subsection \<open>Addresses and writes\<close>

text \<open>\<open>atoi\<close> of a number out of range is undefined; it is \<^term>\<open>None\<close> here.\<close>

definition SplitHostPort :: "string \<Rightarrow> (string \<times> int) option" where
  "SplitHostPort addr =
     (case str_rfind CHR '':'' addr of
        None \<Rightarrow> None
      | Some pos \<Rightarrow>
          if pos = 0 \<or> pos + 1 \<ge> length addr then None
          else
            (case atoi (drop (pos + 1) addr) of
               None \<Rightarrow> None
             | Some port \<Rightarrow> if 0 < port then Some (substr 0 pos addr, port) else None))"

text \<open>
  The write loop over the results of successive \<open>send\<close> calls: \<open>Sent n\<close> bytes, \<open>Retry\<close> for an
  interrupted call, \<open>Failed\<close>.  The result says whether all was written, and how much; \<^term>\<open>None\<close> is a
  loop that is still waiting when the results end.
\<close>

datatype send_result = Sent nat | Retry | Failed

fun write_loop :: "nat \<Rightarrow> nat \<Rightarrow> send_result list \<Rightarrow> (bool \<times> nat) option" where
  "write_loop off len [] = (if off < len then None else Some (True, off))"
| "write_loop off len (r # rs) =
     (if \<not> off < len then Some (True, off)
      else
        (case r of
           Sent n \<Rightarrow> if 0 < n then write_loop (off + n) len rs else Some (False, off)
         | Retry \<Rightarrow> write_loop off len rs
         | Failed \<Rightarrow> Some (False, off)))"

definition WriteAll :: "string \<Rightarrow> send_result list \<Rightarrow> (bool \<times> nat) option" where
  "WriteAll buf rs = write_loop 0 (length buf) rs"

text \<open>The flag parser of both programs: \<open>--flag value\<close> or \<open>--flag=value\<close>, the first occurrence counts.\<close>

fun Arg :: "string list \<Rightarrow> string \<Rightarrow> string option \<Rightarrow> string option" where
  "Arg [] flag fallback = fallback"
| "Arg (a # as) flag fallback =
     (if a = flag \<and> as \<noteq> [] then Some (hd as)
      else if prefix (flag @ ''='') a then Some (drop (length flag + 1) a)
      else Arg as flag fallback)"

subsection \<open>The stream table\<close>

definition table_ok :: "Session \<Rightarrow> bool" where
  "table_ok s \<longleftrightarrow> smap_inv (conns s) \<and> (\<forall>(i, ref) \<in> set (conns s). ref < length (heap s))
     \<and> distinct (map snd (conns s))"

lemma Send_conns [simp]: "conns (snd (Send w f s)) = conns s" "heap (snd (Send w f s)) = heap s"
  "alive (snd (Send w f s)) = alive s" "next_id (snd (Send w f s)) = next_id s"
  by (simp_all add: Send_def)

lemma SendClose_frame [simp]: "conns (snd (SendClose w i e s)) = conns s"
  "heap (snd (SendClose w i e s)) = heap s" "alive (snd (SendClose w i e s)) = alive s"
  "next_id (snd (SendClose w i e s)) = next_id s"
  by (simp_all add: SendClose_def)

lemma SendData_frame [simp]: "conns (snd (SendData w i b s)) = conns s"
  "heap (snd (SendData w i b s)) = heap s" "alive (snd (SendData w i b s)) = alive s"
  "next_id (snd (SendData w i b s)) = next_id s"
  by (simp_all add: SendData_def)

lemma shut_conn_frame [simp]: "conns (shut_conn ref s) = conns s" "alive (shut_conn ref s) = alive s"
  "sent_frames (shut_conn ref s) = sent_frames s" "length (heap (shut_conn ref s)) = length (heap s)"
  "next_id (shut_conn ref s) = next_id s"
  by (simp_all add: shut_conn_def)

lemma heap_shut_conn:
  "r < length (heap s) \<Longrightarrow> heap (shut_conn ref s) ! r =
     (if r = ref then ((heap s) ! r)\<lparr>cn_closed := True, cn_shut := True\<rparr> else heap s ! r)"
  by (simp add: shut_conn_def nth_list_update)

lemma for_each_shut_frame [simp]:
  "conns (for_each (\<lambda>(_, ref). shut_conn ref) m s) = conns s"
  "alive (for_each (\<lambda>(_, ref). shut_conn ref) m s) = alive s"
  "sent_frames (for_each (\<lambda>(_, ref). shut_conn ref) m s) = sent_frames s"
  "length (heap (for_each (\<lambda>(_, ref). shut_conn ref) m s)) = length (heap s)"
  by (rule for_each_frame; auto)+

lemma heap_for_each_shut:
  "r < length (heap s) \<Longrightarrow> heap (for_each (\<lambda>(_, ref). shut_conn ref) m s) ! r =
     (if r \<in> snd ` set m then ((heap s) ! r)\<lparr>cn_closed := True, cn_shut := True\<rparr> else heap s ! r)"
proof (induction m arbitrary: s)
  case (Cons e m)
  obtain i ref where e: "e = (i, ref)" by (cases e)
  have "r < length (heap (shut_conn ref s))" using Cons.prems by simp
  from Cons.IH [OF this] Cons.prems show ?case
    by (cases "r = ref"; cases "r \<in> snd ` set m") (simp_all add: e heap_shut_conn)
qed simp

lemma CloseAll_frame [simp]: "conns (CloseAll s) = []" "alive (CloseAll s) = alive s"
  "sent_frames (CloseAll s) = sent_frames s" "length (heap (CloseAll s)) = length (heap s)"
  by (simp_all add: CloseAll_def)

lemma heap_CloseAll:
  "r < length (heap s) \<Longrightarrow> heap (CloseAll s) ! r =
     (if r \<in> snd ` set (conns s) then ((heap s) ! r)\<lparr>cn_closed := True, cn_shut := True\<rparr> else heap s ! r)"
  by (simp add: CloseAll_def heap_for_each_shut)

end
