(* ===== verification/Tunnel_Endpoints.thy ===== *)
theory Tunnel_Endpoints
  imports Tunnel_Session
begin

text \<open>
  The two ends of the tunnel, frame by frame: the server's registry and \<open>Register\<close> handler
  (\<open>grpc-tunnel/src/tunnel_server.cc\<close>) and the client's loop (\<open>grpc-tunnel/src/tunnel_client.cc\<close>).  A
  session is named by a number, its pointer.  Handling one frame makes at most one call of each
  kind, so the results of the calls come as one outcome per frame.  \<open>out\<close> collects the bytes written
  to the sockets, by connection.
\<close>

record outcome =
  o_written :: bool
  o_wrote :: bool
  o_dial :: int

type_synonym socket_log = "(nat \<times> string) list"

subsection \<open>Frames both ends treat alike\<close>

definition data_frame :: "outcome \<Rightarrow> Frame \<Rightarrow> Session \<times> socket_log \<Rightarrow> Session \<times> socket_log" where
  "data_frame r f so =
     (case so of (s, out) \<Rightarrow>
        (case GetConn (f_stream_id f) s of
           None \<Rightarrow> (snd (SendClose (o_written r) (f_stream_id f) [] s), out)
         | Some ref \<Rightarrow>
             if o_wrote r then (s, out @ [(ref, f_data f)])
             else (snd (SendClose (o_written r) (f_stream_id f) ''local write failed''
                         (snd (CloseConn (f_stream_id f) s))), out)))"

definition close_frame :: "Frame \<Rightarrow> Session \<Rightarrow> Session" where
  "close_frame f s = snd (CloseConn (f_stream_id f) s)"

subsection \<open>The server\<close>

type_synonym Registry = "(string, nat) smap"

definition Registry_Add :: "string \<Rightarrow> nat \<Rightarrow> Registry \<Rightarrow> Registry" where
  "Registry_Add target sess reg = smap_set target sess reg"

definition Registry_Remove :: "string \<Rightarrow> nat \<Rightarrow> Registry \<Rightarrow> Registry" where
  "Registry_Remove target sess reg =
     (if smap_find reg target = Some sess then smap_erase target reg else reg)"

definition Registry_Get :: "string \<Rightarrow> Registry \<Rightarrow> nat option" where
  "Registry_Get target reg = smap_find reg target"

record Handler =
  h_registry :: Registry
  h_target :: string
  h_session :: Session
  h_out :: socket_log

definition register_frame :: "nat \<Rightarrow> outcome \<Rightarrow> Frame \<Rightarrow> Handler \<Rightarrow> Handler" where
  "register_frame me r f h =
     (let reg1 = (if h_target h \<noteq> [] \<and> h_target h \<noteq> f_target f
                  then Registry_Remove (h_target h) me (h_registry h) else h_registry h)
      in h\<lparr>h_target := f_target f, h_registry := Registry_Add (f_target f) me reg1,
           h_session := snd (Send (o_written r)
             (new_frame\<lparr>f_type := REGISTER_ACK, f_target := f_target f\<rparr>) (h_session h))\<rparr>)"

definition server_frame :: "nat \<Rightarrow> outcome \<times> Frame \<Rightarrow> Handler \<Rightarrow> Handler" where
  "server_frame me rf h =
     (case rf of (r, f) \<Rightarrow>
        (case f_type f of
           REGISTER \<Rightarrow> register_frame me r f h
         | DATA \<Rightarrow>
             (let (s, out) = data_frame r f (h_session h, h_out h) in h\<lparr>h_session := s, h_out := out\<rparr>)
         | CLOSE \<Rightarrow> h\<lparr>h_session := close_frame f (h_session h)\<rparr>
         | _ \<Rightarrow> h))"

definition server_teardown :: "nat \<Rightarrow> Handler \<Rightarrow> Handler" where
  "server_teardown me h =
     h\<lparr>h_registry := Registry_Remove (h_target h) me (h_registry h),
       h_session := CloseAll (Shutdown (h_session h))\<rparr>"

text \<open>The handler from its call to its return, over the frames it reads.\<close>

definition Register :: "nat \<Rightarrow> (outcome \<times> Frame) list \<Rightarrow> Registry \<Rightarrow> Handler" where
  "Register me frames reg =
     server_teardown me (for_each (server_frame me) frames
       \<lparr>h_registry = reg, h_target = [], h_session = new_session, h_out = []\<rparr>)"

text \<open>
  The forwarder for one accepted socket, on the session the registry gives: \<open>sessions\<close> are the
  sessions by pointer.  \<^term>\<open>None\<close> refuses the socket; the connection is pumped when the OPEN was sent.
\<close>

definition forward_one ::
  "bool \<Rightarrow> int \<Rightarrow> string \<Rightarrow> Registry \<Rightarrow> (nat \<Rightarrow> Session) \<Rightarrow> (nat \<times> Session \<times> (u64 \<times> nat) option) option" where
  "forward_one written fd target reg sessions =
     (case Registry_Get target reg of
        None \<Rightarrow> None
      | Some p \<Rightarrow>
          (let (i, s1) = NextStreamId (sessions p);
               (ref, s2) = AddConn i fd s1;
               (sent, s3) = Send written
                 (new_frame\<lparr>f_stream_id := i, f_type := OPEN, f_target := target\<rparr>) s2
           in if \<not> sent then Some (p, snd (CloseConn i s3), None) else Some (p, s3, Some (i, ref))))"

subsection \<open>The client\<close>

text \<open>\<open>pumps\<close> are the pump threads started, by stream and connection.\<close>

record Client =
  k_session :: Session
  k_out :: socket_log
  k_pumps :: "(u64 \<times> nat) list"
  k_dials :: nat

definition open_frame :: "string \<Rightarrow> outcome \<Rightarrow> Frame \<Rightarrow> Client \<Rightarrow> Client" where
  "open_frame target r f k =
     (let i = f_stream_id f in
      if f_target f \<noteq> [] \<and> f_target f \<noteq> target then
        k\<lparr>k_session := snd (SendClose (o_written r) i ''target mismatch'' (k_session k))\<rparr>
      else if o_dial r < 0 then
        k\<lparr>k_dials := k_dials k + 1,
          k_session := snd (SendClose (o_written r) i ''local dial failed'' (k_session k))\<rparr>
      else
        (let (ref, s) = AddConn i (o_dial r) (k_session k) in
         k\<lparr>k_dials := k_dials k + 1, k_session := s, k_pumps := k_pumps k @ [(i, ref)]\<rparr>))"

definition client_frame :: "string \<Rightarrow> outcome \<times> Frame \<Rightarrow> Client \<Rightarrow> Client" where
  "client_frame target rf k =
     (case rf of (r, f) \<Rightarrow>
        (case f_type f of
           OPEN \<Rightarrow> open_frame target r f k
         | DATA \<Rightarrow>
             (let (s, out) = data_frame r f (k_session k, k_out k) in k\<lparr>k_session := s, k_out := out\<rparr>)
         | CLOSE \<Rightarrow> k\<lparr>k_session := close_frame f (k_session k)\<rparr>
         | _ \<Rightarrow> k))"

definition new_client :: Client where
  "new_client = \<lparr>k_session = new_session, k_out = [], k_pumps = [], k_dials = 0\<rparr>"

text \<open>One attempt: \<open>registered\<close> is the result of writing the REGISTER frame.\<close>

definition RunTunnel :: "string \<Rightarrow> bool \<Rightarrow> (outcome \<times> Frame) list \<Rightarrow> Client" where
  "RunTunnel target registered frames =
     (let (sent, s) = Send registered (new_frame\<lparr>f_type := REGISTER, f_target := target\<rparr>)
                        (k_session new_client);
          k = new_client\<lparr>k_session := s\<rparr> in
      if \<not> sent then k\<lparr>k_session := Shutdown s\<rparr>
      else
        (let k1 = for_each (client_frame target) frames k
         in k1\<lparr>k_session := CloseAll (Shutdown (k_session k1))\<rparr>))"

subsection \<open>The registry after a session\<close>

lemma registry_find_add: "smap_find (Registry_Add t p reg) = (smap_find reg)(t \<mapsto> p)"
  by (simp add: Registry_Add_def smap_find_set)

lemma registry_find_remove:
  "smap_inv reg \<Longrightarrow> smap_find (Registry_Remove t p reg) =
     (if smap_find reg t = Some p then (smap_find reg)(t := None) else smap_find reg)"
  by (simp add: Registry_Remove_def smp.find_erase)

lemma registry_inv:
  "smap_inv reg \<Longrightarrow> smap_inv (Registry_Add t p reg)" "smap_inv reg \<Longrightarrow> smap_inv (Registry_Remove t p reg)"
  by (simp_all add: Registry_Add_def Registry_Remove_def smp.inv_set smp.inv_erase)

text \<open>Only the current name, or the empty name, is bound to the handler's session.\<close>

definition bound_ok :: "nat \<Rightarrow> Handler \<Rightarrow> bool" where
  "bound_ok me h \<longleftrightarrow> smap_inv (h_registry h) \<and>
     (\<forall>t. smap_find (h_registry h) t = Some me \<longrightarrow> t = h_target h \<or> t = [])"

lemma register_frame_bound: "bound_ok me h \<Longrightarrow> bound_ok me (register_frame me r f h)"
  by (auto simp: bound_ok_def register_frame_def registry_inv registry_find_add registry_find_remove
      split: if_splits)

lemma server_frame_bound: "bound_ok me h \<Longrightarrow> bound_ok me (server_frame me rf h)"
proof (cases rf)
  case (Pair r f)
  assume b: "bound_ok me h"
  have "h_registry (server_frame me rf h) = h_registry h \<and> h_target (server_frame me rf h) = h_target h"
    if "f_type f \<noteq> REGISTER"
    using that by (cases "f_type f") (simp_all add: server_frame_def Pair split: prod.split)
  with b show ?thesis
    using register_frame_bound [OF b, of r f]
    by (cases "f_type f = REGISTER") (simp_all add: bound_ok_def server_frame_def Pair)
qed

text \<open>
  Other tunnels' handlers use the same registry while this one runs; each of their operations is
  atomic under the registry's mutex.
\<close>

datatype server_event = Own outcome Frame | OtherAdd string nat | OtherRemove string nat

fun apply_event :: "nat \<Rightarrow> server_event \<Rightarrow> Handler \<Rightarrow> Handler" where
  "apply_event me (Own r f) h = server_frame me (r, f) h"
| "apply_event me (OtherAdd t p) h = h\<lparr>h_registry := Registry_Add t p (h_registry h)\<rparr>"
| "apply_event me (OtherRemove t p) h = h\<lparr>h_registry := Registry_Remove t p (h_registry h)\<rparr>"

fun from_other :: "nat \<Rightarrow> server_event \<Rightarrow> bool" where
  "from_other me (Own r f) = True"
| "from_other me (OtherAdd t p) = (p \<noteq> me)"
| "from_other me (OtherRemove t p) = (p \<noteq> me)"

definition new_handler :: "Registry \<Rightarrow> Handler" where
  "new_handler reg = \<lparr>h_registry = reg, h_target = [], h_session = new_session, h_out = []\<rparr>"

definition Register_among :: "nat \<Rightarrow> server_event list \<Rightarrow> Registry \<Rightarrow> Handler" where
  "Register_among me events reg = server_teardown me (for_each (apply_event me) events (new_handler reg))"

lemma Register_alone: "Register me frames reg = Register_among me (map (\<lambda>(r, f). Own r f) frames) reg"
proof -
  have "for_each (server_frame me) frames h = for_each (apply_event me) (map (\<lambda>(r, f). Own r f) frames) h" for h
    by (induction frames arbitrary: h) auto
  then show ?thesis by (simp add: Register_def Register_among_def new_handler_def)
qed

lemma server_event_bound: "bound_ok me h \<Longrightarrow> from_other me e \<Longrightarrow> bound_ok me (apply_event me e h)"
proof (cases e)
  case (Own r f)
  assume "bound_ok me h"
  with Own show ?thesis using server_frame_bound [of me h "(r, f)"] by simp
qed (auto simp: bound_ok_def registry_inv registry_find_add registry_find_remove split: if_splits)

lemma handler_bound:
  assumes "smap_inv reg" "\<forall>t. smap_find reg t \<noteq> Some me" "list_all (from_other me) events"
  shows "bound_ok me (for_each (apply_event me) events (new_handler reg))"
proof (rule for_each_invariant [where P = "bound_ok me"])
  show "bound_ok me (new_handler reg)" using assms by (simp add: bound_ok_def new_handler_def)
  show "\<And>e h. e \<in> set events \<Longrightarrow> bound_ok me h \<Longrightarrow> bound_ok me (apply_event me e h)"
    using assms(3) by (simp add: list_all_iff server_event_bound)
qed

text \<open>
  C31.  What a tunnel leaves behind: when the server's handler returns, whatever frames it read and
  whatever other tunnels did to the registry meanwhile, its session is shut down with no open
  stream, and the registry has no entry for it under any non-empty name, so a later forwarder is
  never handed a dead session for a name; and the teardown removes no entry of another session, so a
  client that has reconnected under the same name stays registered.
\<close>

theorem register_leaves_nothing:
  assumes "smap_inv reg" and "\<forall>t. Registry_Get t reg \<noteq> Some me" and "list_all (from_other me) events"
  shows "let h = Register_among me events reg in
    \<not> alive (h_session h) \<and> OpenStreams (h_session h) = 0
    \<and> (\<forall>t. Registry_Get t (h_registry h) = Some me \<longrightarrow> t = [])
    \<and> (\<forall>t p. p \<noteq> me \<longrightarrow> Registry_Get t (h_registry (for_each (apply_event me) events (new_handler reg))) = Some p
         \<longrightarrow> Registry_Get t (h_registry h) = Some p)"
proof -
  have "bound_ok me (for_each (apply_event me) events (new_handler reg))"
    using handler_bound assms by (simp add: Registry_Get_def)
  then show ?thesis
    by (auto simp: Register_among_def server_teardown_def Registry_Get_def bound_ok_def OpenStreams_def
        registry_find_remove Shutdown_def Let_def split: if_splits)
qed

definition ok_outcome :: outcome where
  "ok_outcome = \<lparr>o_written = True, o_wrote = True, o_dial = 5\<rparr>"

theorem register_leaves_nothing_witness:
  "Registry_Get ''edge-1'' (h_registry (Register_among 1
     [Own ok_outcome (new_frame\<lparr>f_type := REGISTER, f_target := ''edge-1''\<rparr>), OtherAdd ''edge-1'' 2] [])) = Some 2"
proof -
  let ?ev = "[Own ok_outcome (new_frame\<lparr>f_type := REGISTER, f_target := ''edge-1''\<rparr>), OtherAdd ''edge-1'' 2]"
  have "smap_inv ([] :: Registry)" "\<forall>t. Registry_Get t [] \<noteq> Some 1" "list_all (from_other 1) ?ev"
    by (simp_all add: smap_inv_def Registry_Get_def smap_find_def)
  moreover have "Registry_Get ''edge-1'' (h_registry (for_each (apply_event 1) ?ev (new_handler []))) = Some 2"
    by (simp add: Registry_Get_def registry_find_add)
  ultimately show ?thesis
    using register_leaves_nothing [of "[]" 1 ?ev] unfolding Let_def by (metis n_not_Suc_n One_nat_def Suc_1)
qed

text \<open>
  The one name that survives: a client that registers the empty name and then a real one leaves
  the empty name bound to its session after the tunnel is gone, because the replacement test skips
  empty names; the comment above the test says that such an entry would hand a later forwarder a
  corpse.
\<close>

theorem empty_name_outlives_session:
  "t \<noteq> [] \<Longrightarrow>
   let h = Register me [(r, new_frame\<lparr>f_type := REGISTER\<rparr>), (r, new_frame\<lparr>f_type := REGISTER, f_target := t\<rparr>)] [] in
   Registry_Get [] (h_registry h) = Some me \<and> \<not> alive (h_session h)"
  by (simp add: Register_def server_teardown_def server_frame_def register_frame_def new_frame_def
      Registry_Get_def registry_find_add registry_find_remove registry_inv smp.inv_empty Shutdown_def Let_def)

theorem empty_name_outlives_session_witness:
  "let h = Register 7 [(ok_outcome, new_frame\<lparr>f_type := REGISTER\<rparr>),
      (ok_outcome, new_frame\<lparr>f_type := REGISTER, f_target := ''edge-1''\<rparr>)] [] in
   Registry_Get [] (h_registry h) = Some 7 \<and> \<not> alive (h_session h)"
  by (rule empty_name_outlives_session) simp

subsection \<open>What the client does with a stream\<close>

definition data_for :: "u64 \<Rightarrow> (outcome \<times> Frame) list \<Rightarrow> string list" where
  "data_for i frames = map (\<lambda>(r, f). f_data f) (filter (\<lambda>(r, f). f_type f = DATA \<and> f_stream_id f = i) frames)"

text \<open>Frames that leave stream \<open>i\<close> in place: no OPEN or CLOSE of it, and every write to it succeeds.\<close>

definition undisturbed :: "u64 \<Rightarrow> outcome \<times> Frame \<Rightarrow> bool" where
  "undisturbed i rf \<longleftrightarrow> (case rf of (r, f) \<Rightarrow> f_stream_id f = i \<longrightarrow>
     f_type f \<noteq> OPEN \<and> f_type f \<noteq> CLOSE \<and> (f_type f = DATA \<longrightarrow> o_wrote r))"

definition written_to :: "nat \<Rightarrow> socket_log \<Rightarrow> string list" where
  "written_to ref out = map snd (filter (\<lambda>e. fst e = ref) out)"

lemma CloseConn_other: "smap_inv (conns s) \<Longrightarrow> j \<noteq> i \<Longrightarrow> GetConn i (snd (CloseConn j s)) = GetConn i s"
  by (auto simp: CloseConn_def GetConn_def smp.find_erase split: option.split)

lemma GetConn_SendClose [simp]: "GetConn i (snd (SendClose w j e s)) = GetConn i s"
  by (simp add: GetConn_def)

lemma table_ok_AddConn: "table_ok s \<Longrightarrow> table_ok (snd (AddConn i fd s))"
proof -
  assume t: "table_ok s"
  have sub: "set (smap_set i r m) \<subseteq> insert (i, r) (set m)" for r and m :: "(u64, nat) smap"
    by (induction i r m rule: smap_set.induct) auto
  have dist: "distinct (map snd m) \<Longrightarrow> r \<notin> snd ` set m \<Longrightarrow> distinct (map snd (smap_set i r m))"
    for r and m :: "(u64, nat) smap"
    using sub by (induction i r m rule: smap_set.induct) (auto simp: image_iff, fastforce+)
  have "length (heap s) \<notin> snd ` set (conns s)" using t by (auto simp: table_ok_def)
  with t sub [of "length (heap s)" "conns s"] dist [of "conns s" "length (heap s)"] show ?thesis
    by (fastforce simp: table_ok_def AddConn_def Let_def smp.inv_set)
qed

lemma table_ok_CloseConn: "table_ok s \<Longrightarrow> table_ok (snd (CloseConn i s))"
  by (auto simp: table_ok_def CloseConn_def smap_erase_def smap_inv_filter distinct_map_filter split: option.split)

lemma table_ok_SendClose [simp]: "table_ok (snd (SendClose w i e s)) = table_ok s"
  by (simp add: table_ok_def)

lemma GetConn_distinct:
  "table_ok s \<Longrightarrow> GetConn i s = Some ref \<Longrightarrow> GetConn j s = Some ref \<Longrightarrow> i = j"
  unfolding table_ok_def GetConn_def
  by (metis (no_types, lifting) distinct_map fst_conv inj_onD smap_find_Some_iff snd_conv)

lemma GetConn_AddConn:
  "smap_inv (conns s) \<Longrightarrow> GetConn i (snd (AddConn j fd s)) = (if i = j then Some (length (heap s)) else GetConn i s)"
  by (simp add: GetConn_def AddConn_def Let_def smap_find_set)

text \<open>One frame at the client keeps an open stream open and its bytes in order.\<close>

definition stream_at :: "u64 \<Rightarrow> nat \<Rightarrow> Client \<Rightarrow> bool" where
  "stream_at i ref k \<longleftrightarrow> table_ok (k_session k) \<and> GetConn i (k_session k) = Some ref"

lemma client_frame_stream:
  assumes "stream_at i ref k" "undisturbed i rf"
  shows "stream_at i ref (client_frame target rf k) \<and>
    written_to ref (k_out (client_frame target rf k)) = written_to ref (k_out k) @ data_for i [rf]"
proof -
  obtain r f where rf: "rf = (r, f)" by (cases rf)
  have t: "table_ok (k_session k)" and g: "GetConn i (k_session k) = Some ref"
    and inv: "smap_inv (conns (k_session k))"
    using assms(1) by (auto simp: stream_at_def table_ok_def)
  show ?thesis
  proof (cases "f_stream_id f = i")
    case True
    with assms(2) g t show ?thesis
      by (cases "f_type f")
        (auto simp: undisturbed_def rf client_frame_def data_frame_def stream_at_def written_to_def data_for_def)
  next
    case False
    have "written_to ref (k_out k @ [(ref', b)]) = written_to ref (k_out k)"
      if "GetConn (f_stream_id f) (k_session k) = Some ref'" for ref' b
      using GetConn_distinct [OF t g] that False by (auto simp: written_to_def)
    with False g t inv show ?thesis
      by (cases "f_type f")
        (auto simp: rf client_frame_def data_frame_def close_frame_def open_frame_def stream_at_def data_for_def
          CloseConn_other table_ok_CloseConn table_ok_AddConn GetConn_AddConn case_prod_beta Let_def
          split: option.split)
  qed
qed

lemma client_run_stream:
  "stream_at i ref k \<Longrightarrow> list_all (undisturbed i) frames \<Longrightarrow>
   stream_at i ref (for_each (client_frame target) frames k) \<and>
   written_to ref (k_out (for_each (client_frame target) frames k)) = written_to ref (k_out k) @ data_for i frames"
proof (induction frames arbitrary: k)
  case (Cons rf frames)
  then show ?case
    using client_frame_stream [of i ref k rf target] Cons.IH [of "client_frame target rf k"]
    by (auto simp: data_for_def)
qed (simp add: data_for_def)

lemma client_open_stream:
  assumes "table_ok (k_session k)" and "\<forall>e \<in> set (k_out k). fst e < length (heap (k_session k))"
    and "f_type f = OPEN" "f_target f = target" "0 \<le> o_dial r"
    and "list_all (undisturbed (f_stream_id f)) frames"
  shows "written_to (length (heap (k_session k)))
      (k_out (for_each (client_frame target) ((r, f) # frames) k)) = data_for (f_stream_id f) frames
    \<and> stream_at (f_stream_id f) (length (heap (k_session k))) (for_each (client_frame target) ((r, f) # frames) k)"
proof -
  let ?k = "client_frame target (r, f) k" and ?ref = "length (heap (k_session k))"
  have "stream_at (f_stream_id f) ?ref ?k" and o: "k_out ?k = k_out k"
    using assms(1,3,4,5)
    by (auto simp: stream_at_def client_frame_def open_frame_def table_ok_AddConn GetConn_AddConn
        case_prod_beta Let_def table_ok_def [of "k_session k"])
  moreover have "written_to ?ref (k_out k) = []"
    using assms(2) by (auto simp: written_to_def filter_empty_conv)
  ultimately show ?thesis using client_run_stream [OF _ assms(6)] by simp
qed

text \<open>
  Bytes of a stream arrive whole and in order: once the client has opened a stream, the bytes
  written to its socket are exactly the payloads of the DATA frames for that stream, in the order
  of the frames, for any frames of other streams in between (opens, closes, failed dials and failed
  writes included), and no byte of another stream reaches that socket.
\<close>

theorem client_stream_in_order:
  assumes "table_ok (k_session k)" and "\<forall>e \<in> set (k_out k). fst e < length (heap (k_session k))"
    and "f_type f = OPEN" "f_target f = target" "0 \<le> o_dial r"
    and "list_all (undisturbed (f_stream_id f)) frames"
  shows "written_to (length (heap (k_session k)))
      (k_out (for_each (client_frame target) ((r, f) # frames) k)) = data_for (f_stream_id f) frames"
  using client_open_stream [OF assms] by blast

theorem client_stream_in_order_witness:
  "written_to 0 (k_out (for_each (client_frame ''edge-1'')
     [(ok_outcome, new_frame\<lparr>f_type := OPEN, f_stream_id := 1, f_target := ''edge-1''\<rparr>),
      (ok_outcome, new_frame\<lparr>f_type := DATA, f_stream_id := 1, f_data := ''ab''\<rparr>),
      (ok_outcome, new_frame\<lparr>f_type := OPEN, f_stream_id := 2\<rparr>),
      (ok_outcome, new_frame\<lparr>f_type := DATA, f_stream_id := 2, f_data := ''xx''\<rparr>),
      (ok_outcome, new_frame\<lparr>f_type := DATA, f_stream_id := 1, f_data := ''cd''\<rparr>)] new_client)) = [''ab'', ''cd'']"
  using client_stream_in_order [of new_client "new_frame\<lparr>f_type := OPEN, f_stream_id := 1, f_target := ''edge-1''\<rparr>"
      "''edge-1''" ok_outcome
      "[(ok_outcome, new_frame\<lparr>f_type := DATA, f_stream_id := 1, f_data := ''ab''\<rparr>),
        (ok_outcome, new_frame\<lparr>f_type := OPEN, f_stream_id := 2\<rparr>),
        (ok_outcome, new_frame\<lparr>f_type := DATA, f_stream_id := 2, f_data := ''xx''\<rparr>),
        (ok_outcome, new_frame\<lparr>f_type := DATA, f_stream_id := 1, f_data := ''cd''\<rparr>)]"]
  by (simp add: new_client_def new_session_def table_ok_def smap_inv_def ok_outcome_def undisturbed_def
      data_for_def del: for_each.simps)

end
