(* ===== verification/Tunnel_Threads.thy ===== *)
theory Tunnel_Threads
  imports Tunnel_Endpoints
begin

text \<open>
  The threads of the tunnel server on one session: the \<open>Register\<close> handler, the forwarder, and one
  pump per stream, interleaved at the granularity of the mutexes and atomics of
  \<open>grpc-tunnel/src/session.cc\<close>.  \<open>CloseConn\<close> is two steps (take the entry out of the table, then mark
  and shut the socket), \<open>CloseAll\<close> is the swap of the table and one step per connection taken.
  What the network does (frames that arrive, results of writes, the end of a socket) is arbitrary.
  The counter of stream ids is taken not to pass the end of its 64 bits.

  \<open>handler\<close> is where the \<open>Register\<close> handler is (reading frames, name removed, session shut down, table
  taken, returned), \<open>pending\<close> the connections it has taken out and not shut yet, \<open>registered\<close> whether the
  registry still leads to this session (another session may take the name at any time), \<open>fwd\<close> where
  the forwarder is with one accepted socket, and \<open>pumps\<close> the pump threads by stream and connection.
\<close>

datatype hphase = Serving | Removed | Down | Closing | Returned

datatype fphase = FIdle | FGot | FHas u64 | FAdded u64 nat | FClosing u64 nat | FShut nat

datatype pphase = PRun | PLeft | PExchanged bool | PErased bool | PDone

record Net =
  sess :: Session
  handler :: hphase
  pending :: "nat list"
  registered :: bool
  fwd :: fphase
  pumps :: "(u64 \<times> nat \<times> pphase) list"

definition new_net :: Net where
  "new_net = \<lparr>sess = new_session, handler = Serving, pending = [], registered = False, fwd = FIdle, pumps = []\<rparr>"

definition erase_conn :: "u64 \<Rightarrow> Session \<Rightarrow> Session" where
  "erase_conn i s = s\<lparr>conns := smap_erase i (conns s)\<rparr>"

text \<open>The exchange on the \<open>closed\<close> flag at the end of a pump.\<close>

definition mark_closed :: "nat \<Rightarrow> Session \<Rightarrow> Session" where
  "mark_closed ref s = s\<lparr>heap := (heap s)[ref := ((heap s) ! ref)\<lparr>cn_closed := True\<rparr>]\<rparr>"

inductive net_step :: "Net \<Rightarrow> Net \<Rightarrow> bool" where
  h_register: "handler n = Serving \<Longrightarrow>
    net_step n (n\<lparr>registered := True, sess := snd (Send w (new_frame\<lparr>f_type := REGISTER_ACK, f_target := t\<rparr>) (sess n))\<rparr>)"
| h_replaced: "net_step n (n\<lparr>registered := False\<rparr>)"
| h_send_close: "handler n = Serving \<Longrightarrow> net_step n (n\<lparr>sess := snd (SendClose w i e (sess n))\<rparr>)"
| h_close: "handler n = Serving \<Longrightarrow> pending n = [] \<Longrightarrow> GetConn i (sess n) = Some ref \<Longrightarrow>
    net_step n (n\<lparr>sess := erase_conn i (sess n), pending := [ref]\<rparr>)"
| h_shut: "pending n = ref # rs \<Longrightarrow> net_step n (n\<lparr>sess := shut_conn ref (sess n), pending := rs\<rparr>)"
| h_remove: "handler n = Serving \<Longrightarrow> pending n = [] \<Longrightarrow>
    net_step n (n\<lparr>handler := Removed, registered := False\<rparr>)"
| h_shutdown: "handler n = Removed \<Longrightarrow> net_step n (n\<lparr>handler := Down, sess := Shutdown (sess n)\<rparr>)"
| h_swap: "handler n = Down \<Longrightarrow>
    net_step n (n\<lparr>handler := Closing, sess := (sess n)\<lparr>conns := []\<rparr>, pending := map snd (conns (sess n))\<rparr>)"
| h_return: "handler n = Closing \<Longrightarrow> pending n = [] \<Longrightarrow> net_step n (n\<lparr>handler := Returned\<rparr>)"
| f_get: "fwd n = FIdle \<Longrightarrow> registered n \<Longrightarrow> net_step n (n\<lparr>fwd := FGot\<rparr>)"
| f_next: "fwd n = FGot \<Longrightarrow> unat (next_id (sess n)) < 2 ^ 64 - 1 \<Longrightarrow> NextStreamId (sess n) = (i, s) \<Longrightarrow>
    net_step n (n\<lparr>fwd := FHas i, sess := s\<rparr>)"
| f_add: "fwd n = FHas i \<Longrightarrow> AddConn i fd (sess n) = (ref, s) \<Longrightarrow>
    net_step n (n\<lparr>fwd := FAdded i ref, sess := s\<rparr>)"
| f_open: "fwd n = FAdded i ref \<Longrightarrow>
    Send w (new_frame\<lparr>f_stream_id := i, f_type := OPEN, f_target := t\<rparr>) (sess n) = (sent, s) \<Longrightarrow>
    net_step n (n\<lparr>fwd := (if sent then FIdle else FClosing i ref), sess := s,
      pumps := (if sent then pumps n @ [(i, ref, PRun)] else pumps n)\<rparr>)"
| f_close: "fwd n = FClosing i ref \<Longrightarrow> GetConn i (sess n) = Some ref' \<Longrightarrow>
    net_step n (n\<lparr>fwd := FShut ref', sess := erase_conn i (sess n)\<rparr>)"
| f_gone: "fwd n = FClosing i ref \<Longrightarrow> GetConn i (sess n) = None \<Longrightarrow> net_step n (n\<lparr>fwd := FIdle\<rparr>)"
| f_shut: "fwd n = FShut ref \<Longrightarrow> net_step n (n\<lparr>fwd := FIdle, sess := shut_conn ref (sess n)\<rparr>)"
| p_data: "k < length (pumps n) \<Longrightarrow> pumps n ! k = (i, ref, PRun) \<Longrightarrow> SendData w i b (sess n) = (sent, s) \<Longrightarrow>
    net_step n (n\<lparr>sess := s, pumps := (pumps n)[k := (i, ref, if sent then PRun else PLeft)]\<rparr>)"
| p_end: "k < length (pumps n) \<Longrightarrow> pumps n ! k = (i, ref, PRun) \<Longrightarrow>
    net_step n (n\<lparr>pumps := (pumps n)[k := (i, ref, PLeft)]\<rparr>)"
| p_exchange: "k < length (pumps n) \<Longrightarrow> pumps n ! k = (i, ref, PLeft) \<Longrightarrow>
    net_step n (n\<lparr>pumps := (pumps n)[k := (i, ref, PExchanged (\<not> cn_closed (heap (sess n) ! ref)))],
      sess := mark_closed ref (sess n)\<rparr>)"
| p_erase: "k < length (pumps n) \<Longrightarrow> pumps n ! k = (i, ref, PExchanged ours) \<Longrightarrow>
    net_step n (n\<lparr>pumps := (pumps n)[k := (i, ref, PErased ours)], sess := erase_conn i (sess n)\<rparr>)"
| p_done: "k < length (pumps n) \<Longrightarrow> pumps n ! k = (i, ref, PErased ours) \<Longrightarrow>
    net_step n (n\<lparr>pumps := (pumps n)[k := (i, ref, PDone)],
      sess := (if ours then snd (SendClose w i [] (sess n)) else sess n)\<rparr>)"

inductive net_reach :: "Net \<Rightarrow> bool" where
  init: "net_reach new_net"
| step: "net_reach n \<Longrightarrow> net_step n n' \<Longrightarrow> net_reach n'"

subsection \<open>The steps compose to the operations of the code\<close>

lemma CloseConn_steps:
  "GetConn i s = Some ref \<Longrightarrow> snd (CloseConn i s) = shut_conn ref (erase_conn i s)"
  by (simp add: CloseConn_def GetConn_def erase_conn_def)

lemma CloseAll_steps: "CloseAll s = for_each shut_conn (map snd (conns s)) (s\<lparr>conns := []\<rparr>)"
proof -
  have "for_each (\<lambda>(_, ref). shut_conn ref) m s = for_each shut_conn (map snd m) s" for m :: "(u64 \<times> nat) list" and s
    by (induction m arbitrary: s) auto
  then show ?thesis by (simp add: CloseAll_def)
qed

lemma pump_end_steps:
  "pump_end i ref w s =
     (let ours = \<not> cn_closed (heap s ! ref); s2 = erase_conn i (mark_closed ref s)
      in if ours then snd (SendClose w i [] s2) else s2)"
  by (simp add: pump_end_def erase_conn_def mark_closed_def Let_def)

subsection \<open>The invariant\<close>

text \<open>The streams that have a pump, by id and connection.\<close>

definition streams :: "(u64 \<times> nat \<times> pphase) list \<Rightarrow> (u64 \<times> nat) list" where
  "streams ps = map (\<lambda>(i, r, st). (i, r)) ps"

fun fwd_id :: "fphase \<Rightarrow> u64 option" where
  "fwd_id (FHas i) = Some i"
| "fwd_id (FAdded i r) = Some i"
| "fwd_id (FClosing i r) = Some i"
| "fwd_id _ = None"

fun fwd_ref :: "fphase \<Rightarrow> nat option" where
  "fwd_ref (FAdded i r) = Some r"
| "fwd_ref (FClosing i r) = Some r"
| "fwd_ref (FShut r) = Some r"
| "fwd_ref _ = None"

text \<open>Ids come from the counter and are used once; connection pointers are valid.\<close>

definition ids_ok :: "Net \<Rightarrow> bool" where
  "ids_ok n \<longleftrightarrow> smap_inv (conns (sess n))
     \<and> (\<forall>(i, r) \<in> set (conns (sess n)). unat i < unat (next_id (sess n)) \<and> r < length (heap (sess n)))
     \<and> (\<forall>(i, r) \<in> set (streams (pumps n)). unat i < unat (next_id (sess n)) \<and> r < length (heap (sess n)))
     \<and> (\<forall>i. fwd_id (fwd n) = Some i \<longrightarrow>
          unat i < unat (next_id (sess n)) \<and> i \<notin> fst ` set (streams (pumps n)))
     \<and> (\<forall>i. fwd n = FHas i \<longrightarrow> i \<notin> fst ` set (conns (sess n)))
     \<and> (\<forall>r. fwd_ref (fwd n) = Some r \<longrightarrow> r < length (heap (sess n)))
     \<and> (\<forall>r \<in> set (pending n). r < length (heap (sess n)))
     \<and> distinct (map fst (streams (pumps n)))"

text \<open>Which phase the handler is in decides whether frames may be written and who owns streams.\<close>

definition fwd_owns :: "Net \<Rightarrow> u64 \<Rightarrow> nat \<Rightarrow> bool" where
  "fwd_owns n i r \<longleftrightarrow> fwd n = FAdded i r \<or> fwd n = FClosing i r"

definition phase_ok :: "Net \<Rightarrow> bool" where
  "phase_ok n \<longleftrightarrow> (alive (sess n) \<longleftrightarrow> handler n \<in> {Serving, Removed})
     \<and> (handler n \<in> {Closing, Returned} \<longrightarrow> (\<forall>(i, r) \<in> set (conns (sess n)). fwd_owns n i r))
     \<and> (handler n \<in> {Removed, Down, Returned} \<longrightarrow> pending n = [])"

text \<open>
  A stream whose pump is still reading, or is about to start, is in the table, or its socket is or
  will be shut.
\<close>

definition stream_ok :: "Net \<Rightarrow> u64 \<Rightarrow> nat \<Rightarrow> bool" where
  "stream_ok n i r \<longleftrightarrow>
     (i, r) \<in> set (conns (sess n)) \<or> cn_shut (heap (sess n) ! r) \<or> r \<in> set (pending n)"

definition pumps_ok :: "Net \<Rightarrow> bool" where
  "pumps_ok n \<longleftrightarrow> (\<forall>(i, r, st) \<in> set (pumps n). st = PRun \<longrightarrow> stream_ok n i r)
     \<and> (\<forall>i r. fwd n = FAdded i r \<longrightarrow> stream_ok n i r)"

lemma set_smap_erase: "set (smap_erase i m) = {e \<in> set m. fst e \<noteq> i}"
  by (auto simp: smap_erase_def)

lemma set_smap_set:
  assumes "smap_inv m"
  shows "set (smap_set k v m) = insert (k, v) {e \<in> set m. fst e \<noteq> k}"
proof -
  have "(a, b) \<in> set (smap_set k v m) \<longleftrightarrow> (if a = k then b = v else (a, b) \<in> set m)" for a b
    using smap_find_Some_iff [OF smap_set_inv [OF assms], of k v a b] smap_find_Some_iff [OF assms, of a b]
    by (auto simp: smap_find_set)
  then show ?thesis by (auto split: if_splits)
qed

lemma streams_update [simp]:
  "k < length ps \<Longrightarrow> ps ! k = (i, r, st) \<Longrightarrow> streams (ps[k := (i, r, st')]) = streams ps"
  unfolding streams_def by (metis (no_types, lifting) case_prod_conv list_update_id map_update nth_map)

lemma streams_append [simp]: "streams (ps @ [(i, r, st)]) = streams ps @ [(i, r)]"
  by (simp add: streams_def)

lemma erase_conn_frame [simp]: "heap (erase_conn i s) = heap s" "alive (erase_conn i s) = alive s"
  "next_id (erase_conn i s) = next_id s" "conns (erase_conn i s) = smap_erase i (conns s)"
  "sent_frames (erase_conn i s) = sent_frames s"
  by (simp_all add: erase_conn_def)

lemma mark_closed_frame [simp]: "conns (mark_closed r s) = conns s" "alive (mark_closed r s) = alive s"
  "next_id (mark_closed r s) = next_id s" "length (heap (mark_closed r s)) = length (heap s)"
  "sent_frames (mark_closed r s) = sent_frames s"
  by (simp_all add: mark_closed_def)

lemma cn_shut_mark_closed [simp]: "r < length (heap s) \<Longrightarrow> cn_shut (heap (mark_closed r' s) ! r) = cn_shut (heap s ! r)"
  by (cases "r = r'") (simp_all add: mark_closed_def)

lemma cn_shut_shut_conn:
  "r < length (heap s) \<Longrightarrow> cn_shut (heap (shut_conn r' s) ! r) \<longleftrightarrow> r = r' \<or> cn_shut (heap s ! r)"
  by (simp add: heap_shut_conn)

lemma Shutdown_frame [simp]: "conns (Shutdown s) = conns s" "heap (Shutdown s) = heap s"
  "next_id (Shutdown s) = next_id s" "alive (Shutdown s) = False" "sent_frames (Shutdown s) = sent_frames s"
  by (simp_all add: Shutdown_def)

lemma NextStreamId_frame:
  "NextStreamId s = (i, s') \<Longrightarrow> i = next_id s \<and> s' = s\<lparr>next_id := next_id s + 1\<rparr>"
  by (auto simp: NextStreamId_def)

lemma AddConn_frame:
  "AddConn i fd s = (r, s') \<Longrightarrow> r = length (heap s) \<and> conns s' = smap_set i r (conns s)
     \<and> heap s' = heap s @ [\<lparr>cn_fd = fd, cn_closed = False, cn_shut = False\<rparr>]
     \<and> alive s' = alive s \<and> next_id s' = next_id s \<and> sent_frames s' = sent_frames s"
  by (auto simp: AddConn_def Let_def)

lemma unat_next: "unat (w :: u64) < 2 ^ 64 - 1 \<Longrightarrow> unat (w + 1) = Suc (unat w)"
  using unat_add_lem [of w 1] by simp

lemma ids_ok_step: "net_step n n' \<Longrightarrow> ids_ok n \<Longrightarrow> ids_ok n'"
proof (induction rule: net_step.induct)
  case (h_close n i ref)
  then show ?case
    by (auto simp: ids_ok_def set_smap_erase GetConn_def smap_find_Some_iff smp.inv_erase)
next
  case (h_swap n)
  then show ?case by (auto simp: ids_ok_def smp.inv_empty)
next
  case (f_next n i s)
  then show ?case by (fastforce simp: ids_ok_def unat_next dest!: NextStreamId_frame)
next
  case (f_add n i fd ref s)
  then show ?case by (fastforce simp: ids_ok_def smp.inv_set set_smap_set dest!: AddConn_frame)
next
  case (f_open n i ref w t sent s)
  then have "s = snd (Send w (new_frame\<lparr>f_stream_id := i, f_type := OPEN, f_target := t\<rparr>) (sess n))" by simp
  with f_open show ?case by (auto simp: ids_ok_def)
next
  case (f_close n i ref ref')
  then show ?case
    by (auto simp: ids_ok_def set_smap_erase GetConn_def smap_find_Some_iff smp.inv_erase)
next
  case (p_data k n i ref w b sent s)
  then have "s = snd (SendData w i b (sess n))" by simp
  with p_data show ?case by (simp add: ids_ok_def)
next
  case (p_erase k n i ref ours)
  then show ?case by (auto simp: ids_ok_def set_smap_erase smp.inv_erase)
qed (auto simp: ids_ok_def)

text \<open>The table is a function from ids to connections.\<close>

lemma GetConn_in: "ids_ok n \<Longrightarrow> GetConn i (sess n) = Some r \<longleftrightarrow> (i, r) \<in> set (conns (sess n))"
  by (simp add: ids_ok_def GetConn_def smap_find_Some_iff)

lemma conns_fun: "ids_ok n \<Longrightarrow> (i, r) \<in> set (conns (sess n)) \<Longrightarrow> (i, r') \<in> set (conns (sess n)) \<Longrightarrow> r = r'"
  using GetConn_in [of n i r] GetConn_in [of n i r'] by simp

lemma phase_ok_step: "net_step n n' \<Longrightarrow> ids_ok n \<Longrightarrow> phase_ok n \<Longrightarrow> phase_ok n'"
proof (induction rule: net_step.induct)
  case (f_next n i s)
  then show ?case by (fastforce simp: phase_ok_def fwd_owns_def dest!: NextStreamId_frame)
next
  case (f_add n i fd ref s)
  then show ?case
    by (fastforce simp: phase_ok_def fwd_owns_def ids_ok_def set_smap_set dest!: AddConn_frame)
next
  case (f_open n i ref w t sent s)
  then have "s = snd (Send w (new_frame\<lparr>f_stream_id := i, f_type := OPEN, f_target := t\<rparr>) (sess n))"
    and "sent \<longrightarrow> alive (sess n)" by (auto simp: Send_def split: if_splits)
  with f_open show ?case by (fastforce simp: phase_ok_def fwd_owns_def)
next
  case (f_close n i ref ref')
  then show ?case by (fastforce simp: phase_ok_def fwd_owns_def set_smap_erase)
next
  case (f_gone n i ref)
  then have "smap_find (conns (sess n)) i = None" by (simp add: GetConn_def)
  then have "\<forall>r. (i, r) \<notin> set (conns (sess n))"
    using f_gone.prems(1) by (auto simp: ids_ok_def simp flip: smap_find_Some_iff)
  with f_gone show ?case by (fastforce simp: phase_ok_def fwd_owns_def)
next
  case (p_data k n i ref w b sent s)
  then have "s = snd (SendData w i b (sess n))" by simp
  with p_data show ?case by (fastforce simp: phase_ok_def fwd_owns_def)
qed (fastforce simp: phase_ok_def fwd_owns_def set_smap_erase)+

text \<open>The streams that \<^const>\<open>pumps_ok\<close> speaks of: running pumps and the one about to start.\<close>

definition reading :: "Net \<Rightarrow> u64 \<Rightarrow> nat \<Rightarrow> bool" where
  "reading n i r \<longleftrightarrow> (i, r, PRun) \<in> set (pumps n) \<or> fwd n = FAdded i r"

lemma pumps_ok_reading: "pumps_ok n \<longleftrightarrow> (\<forall>i r. reading n i r \<longrightarrow> stream_ok n i r)"
  by (fastforce simp: pumps_ok_def reading_def)

lemma ids_ok_stream:
  "ids_ok n \<Longrightarrow> (i, r) \<in> set (streams (pumps n)) \<Longrightarrow> r < length (heap (sess n))"
  unfolding ids_ok_def by fast

lemma ids_ok_fwd_id: "ids_ok n \<Longrightarrow> fwd_id (fwd n) = Some i \<Longrightarrow> (i, r) \<notin> set (streams (pumps n))"
  unfolding ids_ok_def by (metis fst_conv image_eqI)

lemma ids_ok_FHas: "ids_ok n \<Longrightarrow> fwd n = FHas i \<Longrightarrow> (i, r) \<notin> set (conns (sess n))"
  unfolding ids_ok_def by (metis fst_conv image_eqI)

lemma ids_ok_fwd_ref: "ids_ok n \<Longrightarrow> fwd_ref (fwd n) = Some r \<Longrightarrow> r < length (heap (sess n))"
  unfolding ids_ok_def by fast

lemma ids_ok_unique:
  assumes "ids_ok n" "k < length (pumps n)" "pumps n ! k = (i, r, st)" "l < length (pumps n)" "pumps n ! l = (i, r', st')"
  shows "k = l"
proof -
  have "distinct (map fst (streams (pumps n)))" using assms(1) unfolding ids_ok_def by blast
  then show ?thesis using assms(2-5) nth_eq_iff_index_eq [of "map fst (streams (pumps n))" k l]
    by (simp add: streams_def)
qed

lemma in_streams: "k < length ps \<Longrightarrow> ps ! k = (i, r, st) \<Longrightarrow> (i, r) \<in> set (streams ps)"
  by (force simp: streams_def in_set_conv_nth)

lemma readingE:
  assumes "reading n i r"
  obtains l where "l < length (pumps n)" "pumps n ! l = (i, r, PRun)" | "fwd n = FAdded i r"
  using assms by (auto simp: reading_def in_set_conv_nth)

lemma reading_ref: "ids_ok n \<Longrightarrow> reading n i r \<Longrightarrow> r < length (heap (sess n))"
  by (elim readingE) (auto intro: ids_ok_stream in_streams ids_ok_fwd_ref)

lemma reading_not_left:
  assumes "ids_ok n" "reading n i r" "k < length (pumps n)" "pumps n ! k = (j, r', st)" "st \<noteq> PRun"
  shows "i \<noteq> j"
  using assms(2)
proof (cases rule: readingE)
  case (1 l)
  then show ?thesis using assms(1,3-5) ids_ok_unique [of n k j r' st l r PRun] by auto
next
  case 2
  then show ?thesis using assms(1,3,4) in_streams ids_ok_fwd_id [of n i r'] by fastforce
qed

lemma reading_not_closing:
  assumes "ids_ok n" "reading n i r" "fwd n = FClosing j r'"
  shows "i \<noteq> j"
  using assms(2)
proof (cases rule: readingE)
  case (1 l)
  then show ?thesis using assms(1,3) in_streams ids_ok_fwd_id [of n j r] by fastforce
qed (use assms in simp)

lemma reading_update:
  assumes "k < length (pumps n)" "pumps n ! k = (j, r', st)" "st' = PRun \<longrightarrow> st = PRun"
    and "reading (n\<lparr>sess := s, pumps := (pumps n)[k := (j, r', st')]\<rparr>) i r"
  shows "reading n i r"
proof -
  have "(i, r, PRun) \<in> set (pumps n)" if "(i, r, PRun) \<in> set ((pumps n)[k := (j, r', st')])"
    using that assms(1-3) set_update_subset_insert [of "pumps n" k "(j, r', st')"] nth_mem [OF assms(1)]
    by fastforce
  with assms(4) show ?thesis by (auto simp: reading_def)
qed

lemma reading_frame:
  "reading (n\<lparr>sess := s\<rparr>) i r = reading n i r" "reading (n\<lparr>pending := q\<rparr>) i r = reading n i r"
  "reading (n\<lparr>handler := h\<rparr>) i r = reading n i r" "reading (n\<lparr>registered := b\<rparr>) i r = reading n i r"
  by (simp_all add: reading_def)

text \<open>
  What a step may do to the streams: whoever reads after it read before it, or is the stream just
  added; and whoever loses its table entry while reading has its socket queued to be shut.
\<close>

lemma pumps_ok_keep:
  assumes "pumps_ok n" "\<And>i r. reading n' i r \<Longrightarrow> reading n i r"
    and "\<And>i r. reading n i r \<Longrightarrow> stream_ok n i r \<Longrightarrow> stream_ok n' i r"
  shows "pumps_ok n'"
  using assms unfolding pumps_ok_reading by blast

lemma pumps_ok_step: "net_step n n' \<Longrightarrow> ids_ok n \<Longrightarrow> phase_ok n \<Longrightarrow> pumps_ok n \<Longrightarrow> pumps_ok n'"
proof (induction rule: net_step.induct)
  case (h_close n i ref)
  show ?case
  proof (rule pumps_ok_keep [OF h_close.prems(3)])
    fix j r assume "stream_ok n j r"
    moreover have "(i, r) \<in> set (conns (sess n)) \<Longrightarrow> r = ref"
      using h_close conns_fun [of n i r ref] by (simp add: GetConn_in)
    ultimately show "stream_ok (n\<lparr>sess := erase_conn i (sess n), pending := [ref]\<rparr>) j r"
      using h_close.hyps(2) by (auto simp: stream_ok_def set_smap_erase)
  qed (simp add: reading_def)
next
  case (h_shut n ref rs)
  show ?case
    by (rule pumps_ok_keep [OF h_shut.prems(3)])
      (use h_shut.hyps reading_ref [OF h_shut.prems(1)] in
        \<open>auto simp: reading_def stream_ok_def cn_shut_shut_conn\<close>)
next
  case (h_swap n)
  then have "pending n = []" by (simp add: phase_ok_def)
  then show ?case
    by (intro pumps_ok_keep [OF h_swap.prems(3)]) (force simp: reading_def stream_ok_def)+
next
  case (f_next n i s)
  show ?case
    by (rule pumps_ok_keep [OF f_next.prems(3)])
      (use f_next.hyps in \<open>auto simp: reading_def stream_ok_def dest!: NextStreamId_frame\<close>)
next
  case (f_add n i fd ref s)
  have "(i, r) \<notin> set (conns (sess n))" for r using ids_ok_FHas f_add.hyps(1) f_add.prems(1) by blast
  moreover have "smap_inv (conns (sess n))" using f_add.prems(1) by (simp add: ids_ok_def)
  ultimately have c: "set (conns s) = insert (i, ref) (set (conns (sess n)))"
    using AddConn_frame [OF f_add.hyps(2)] by (auto simp: set_smap_set)
  have h: "cn_shut (heap s ! r) = cn_shut (heap (sess n) ! r)" if "r < length (heap (sess n))" for r
    using that AddConn_frame [OF f_add.hyps(2)] by (simp add: nth_append)
  show ?case unfolding pumps_ok_reading
  proof (intro allI impI)
    fix j r assume *: "reading (n\<lparr>fwd := FAdded i ref, sess := s\<rparr>) j r"
    then consider "j = i" "r = ref" | "reading n j r" by (auto simp: reading_def)
    then show "stream_ok (n\<lparr>fwd := FAdded i ref, sess := s\<rparr>) j r"
    proof cases
      case 2
      then have "stream_ok n j r" "r < length (heap (sess n))"
        using f_add.prems reading_ref by (auto simp: pumps_ok_reading)
      then show ?thesis using c h by (auto simp: stream_ok_def)
    qed (simp add: stream_ok_def c)
  qed
next
  case (f_open n i ref w t sent s)
  then have s: "s = snd (Send w (new_frame\<lparr>f_stream_id := i, f_type := OPEN, f_target := t\<rparr>) (sess n))" by simp
  show ?case
    by (rule pumps_ok_keep [OF f_open.prems(3)])
      (use f_open.hyps(1) in \<open>auto simp: s reading_def stream_ok_def split: if_splits\<close>)
next
  case (f_close n i ref ref')
  show ?case
    by (rule pumps_ok_keep [OF f_close.prems(3)])
      (use f_close.hyps(1) reading_not_closing [OF f_close.prems(1)] in
        \<open>auto simp: reading_def stream_ok_def set_smap_erase\<close>)
next
  case (f_shut n ref)
  show ?case
    by (rule pumps_ok_keep [OF f_shut.prems(3)])
      (use f_shut.hyps reading_ref [OF f_shut.prems(1)] in
        \<open>auto simp: reading_def stream_ok_def cn_shut_shut_conn\<close>)
next
  case (p_data k n i ref w b sent s)
  then have s: "s = snd (SendData w i b (sess n))" by simp
  show ?case
  proof (rule pumps_ok_keep [OF p_data.prems(3)])
    show "reading n j r" if "reading (n\<lparr>sess := s, pumps := (pumps n)[k := (i, ref, if sent then PRun else PLeft)]\<rparr>) j r" for j r
      using reading_update [OF p_data.hyps(1,2) _ that] by simp
  qed (simp add: s stream_ok_def)
next
  case (p_end k n i ref)
  show ?case
  proof (rule pumps_ok_keep [OF p_end.prems(3)])
    show "reading n j r" if "reading (n\<lparr>pumps := (pumps n)[k := (i, ref, PLeft)]\<rparr>) j r" for j r
      using reading_update [OF p_end.hyps, of PLeft "sess n" j r] that by (simp add: reading_def)
  qed (simp add: stream_ok_def)
next
  case (p_exchange k n i ref)
  show ?case
  proof (rule pumps_ok_keep [OF p_exchange.prems(3)])
    fix j r
    show "reading n j r" if "reading (n\<lparr>pumps := (pumps n)[k := (i, ref, PExchanged (\<not> cn_closed (heap (sess n) ! ref)))],
      sess := mark_closed ref (sess n)\<rparr>) j r"
      using reading_update [OF p_exchange.hyps, of "PExchanged x" "sess n" j r for x] that by (simp add: reading_def)
  qed (use reading_ref [OF p_exchange.prems(1)] in \<open>simp add: stream_ok_def\<close>)
next
  case (p_erase k n i ref ours)
  show ?case
  proof (rule pumps_ok_keep [OF p_erase.prems(3)])
    fix j r
    show "reading n j r" if "reading (n\<lparr>pumps := (pumps n)[k := (i, ref, PErased ours)], sess := erase_conn i (sess n)\<rparr>) j r"
      using reading_update [OF p_erase.hyps, of "PErased ours" "sess n" j r] that by (simp add: reading_def)
  qed (use reading_not_left [OF p_erase.prems(1) _ p_erase.hyps] in
      \<open>fastforce simp: stream_ok_def set_smap_erase\<close>)
next
  case (p_done k n i ref ours w)
  show ?case
  proof (rule pumps_ok_keep [OF p_done.prems(3)])
    fix j r
    show "reading n j r" if "reading (n\<lparr>pumps := (pumps n)[k := (i, ref, PDone)],
      sess := (if ours then snd (SendClose w i [] (sess n)) else sess n)\<rparr>) j r"
      using reading_update [OF p_done.hyps, of PDone "sess n" j r] that by (simp add: reading_def)
  qed (simp add: stream_ok_def)
qed (auto simp: pumps_ok_reading reading_def stream_ok_def)

lemma net_inv: "net_reach n \<Longrightarrow> ids_ok n \<and> phase_ok n \<and> pumps_ok n"
proof (induction rule: net_reach.induct)
  case init
  show ?case
    by (simp add: ids_ok_def phase_ok_def pumps_ok_def new_net_def new_session_def streams_def smp.inv_empty)
next
  case (step n n')
  then show ?case using ids_ok_step phase_ok_step pumps_ok_step by blast
qed

subsection \<open>A fence on writes\<close>

text \<open>
  What a shut-down session promises the threads that still hold it, on either end of the tunnel: over
  the steps of all threads \<open>down\<close> is for good, and a step that starts with it up leaves what has been
  written (\<open>written\<close>) as it is.
\<close>

locale write_fence =
  fixes step :: "'st \<Rightarrow> 'st \<Rightarrow> bool"
    and reach :: "'st \<Rightarrow> bool"
    and down :: "'st \<Rightarrow> bool"
    and written :: "'st \<Rightarrow> 'obs"
  assumes reach_step: "reach x \<Longrightarrow> step x y \<Longrightarrow> reach y"
    and down_step: "reach x \<Longrightarrow> down x \<Longrightarrow> step x y \<Longrightarrow> down y \<and> written y = written x"
begin

lemma fence:
  assumes "step\<^sup>*\<^sup>* x y" "reach x" "down x"
  shows "reach y \<and> down y \<and> written y = written x"
  using assms
proof (induction rule: rtranclp_induct)
  case (step y z)
  then show ?case using reach_step [of y z] down_step [of y z] by simp
qed simp

end

subsection \<open>What holds over every interleaving\<close>

lemma Send_dead: "\<not> alive s \<Longrightarrow> Send w f s = (False, s)"
  by (simp add: Send_def)

lemma SendData_dead: "\<not> alive s \<Longrightarrow> SendData w i b s = (False, s)"
  by (simp add: SendData_def Send_dead)

lemma SendClose_dead: "\<not> alive s \<Longrightarrow> SendClose w i e s = (False, s)"
  by (simp add: SendClose_def Send_dead)

lemmas dead_sends = Send_dead SendData_dead SendClose_dead

lemma dead_step:
  "net_step n n' \<Longrightarrow> \<not> alive (sess n) \<Longrightarrow> phase_ok n \<Longrightarrow>
     \<not> alive (sess n') \<and> sent_frames (sess n') = sent_frames (sess n)"
proof (induction rule: net_step.induct)
  case (f_next n i s)
  then show ?case by (auto dest!: NextStreamId_frame)
next
  case (f_add n i fd ref s)
  then show ?case by (auto dest!: AddConn_frame)
qed (auto simp: dead_sends phase_ok_def)

interpretation net: write_fence net_step net_reach "\<lambda>n. \<not> alive (sess n)" "\<lambda>n. sent_frames (sess n)"
  by unfold_locales (use net_reach.step dead_step net_inv in blast)+

text \<open>
  C24. Once the handler has shut a session down no frame is written on its stream any more, whatever
  the forwarder, the pumps and the handler itself still do and in whatever order: the write that
  would touch a stream that gRPC has already ended cannot happen.
\<close>

theorem no_frame_after_shutdown:
  assumes "net_reach n" "handler n \<in> {Down, Closing, Returned}" "net_step\<^sup>*\<^sup>* n n'"
  shows "sent_frames (sess n') = sent_frames (sess n)"
  using net.fence [OF assms(3,1)] net_inv [OF assms(1)] assms(2) by (auto simp: phase_ok_def)

text \<open>A run with one forwarded connection, up to the return of the handler.\<close>

definition ex_open :: Net where
  "ex_open = new_net\<lparr>registered := True, sess := (sess new_net)\<lparr>next_id := 2, conns := [(1, 0)],
     heap := [\<lparr>cn_fd = 7, cn_closed = False, cn_shut = False\<rparr>],
     sent_frames := [new_frame\<lparr>f_type := REGISTER_ACK, f_target := ''ssh''\<rparr>,
       new_frame\<lparr>f_stream_id := 1, f_type := OPEN, f_target := ''ssh''\<rparr>]\<rparr>, pumps := [(1, 0, PRun)]\<rparr>"

definition ex_returned :: Net where
  "ex_returned = ex_open\<lparr>handler := Returned, registered := False,
     sess := (sess ex_open)\<lparr>conns := [], alive := False, heap := [\<lparr>cn_fd = 7, cn_closed = True, cn_shut = True\<rparr>]\<rparr>\<rparr>"

definition ex_down :: Net where
  "ex_down = ex_open\<lparr>handler := Down, registered := False, sess := (sess ex_open)\<lparr>alive := False\<rparr>\<rparr>"

lemma reach_step: "net_reach n \<Longrightarrow> net_step n n'' \<Longrightarrow> n'' = n' \<Longrightarrow> net_reach n'"
  by (auto intro: net_reach.step)

lemmas ex_defs = new_net_def new_session_def new_frame_def Send_def NextStreamId_def AddConn_def
  ex_open_def ex_down_def ex_returned_def Shutdown_def shut_conn_def

text \<open>Before the connection of \<open>ex_open\<close> is made, and just after.\<close>

definition ex_has :: Net where
  "ex_has = new_net\<lparr>registered := True, fwd := FHas 1, sess := (sess new_net)\<lparr>next_id := 2,
     sent_frames := [new_frame\<lparr>f_type := REGISTER_ACK, f_target := ''ssh''\<rparr>]\<rparr>\<rparr>"

definition ex_added :: Net where
  "ex_added = ex_has\<lparr>fwd := FAdded 1 0, sess := (sess ex_has)\<lparr>conns := [(1, 0)],
     heap := [\<lparr>cn_fd = 7, cn_closed = False, cn_shut = False\<rparr>]\<rparr>\<rparr>"

lemma reach_ex_has: "net_reach ex_has"
proof -
  define s1 where "s1 = snd (Send True (new_frame\<lparr>f_type := REGISTER_ACK, f_target := ''ssh''\<rparr>) new_session)"
  define n1 where "n1 = new_net\<lparr>registered := True, sess := s1\<rparr>"
  have "net_reach n1"
    by (rule reach_step [OF net_reach.init net_step.h_register [of new_net True "''ssh''"]])
      (simp_all add: n1_def s1_def new_net_def)
  then have "net_reach (n1\<lparr>fwd := FGot\<rparr>)"
    by (rule reach_step [OF _ net_step.f_get]) (simp_all add: n1_def new_net_def)
  then show ?thesis
    by (rule reach_step [OF _ net_step.f_next [of _ 1 "sess ex_has"]])
      (simp_all add: n1_def s1_def ex_has_def ex_defs)
qed

lemma step_ex_added: "net_step ex_has ex_added"
  using net_step.f_add [of ex_has 1 7 0 "sess ex_added"] by (simp add: ex_has_def ex_added_def ex_defs)

lemma step_ex_open: "net_step ex_added ex_open"
  using net_step.f_open [of ex_added 1 0 True "''ssh''" True "sess ex_open"] by (simp add: ex_has_def ex_added_def ex_defs)

lemma reach_ex_open: "net_reach ex_open"
  by (rule net_reach.step [OF net_reach.step [OF reach_ex_has step_ex_added] step_ex_open])

lemma reach_ex_down: "net_reach ex_down"
proof -
  have "net_reach (ex_open\<lparr>handler := Removed, registered := False\<rparr>)"
    by (rule net_reach.step [OF reach_ex_open net_step.h_remove]) (simp_all add: ex_defs)
  then show ?thesis by (rule reach_step [OF _ net_step.h_shutdown]) (simp_all add: ex_defs)
qed

lemma ex_down_left: "net_step ex_down (ex_down\<lparr>pumps := [(1, 0, PLeft)]\<rparr>)"
  using net_step.p_data [of 0 ex_down 1 0 True "''x''" False "sess ex_down"]
  by (simp add: ex_defs SendData_def)

lemma reach_ex_returned: "net_reach ex_returned"
proof -
  define n1 where "n1 = ex_down\<lparr>handler := Closing, sess := (sess ex_down)\<lparr>conns := []\<rparr>, pending := [0]\<rparr>"
  have "net_reach n1"
    by (rule reach_step [OF reach_ex_down net_step.h_swap]) (simp_all add: n1_def ex_defs)
  then have "net_reach (ex_returned\<lparr>handler := Closing\<rparr>)"
    by (rule reach_step [OF _ net_step.h_shut [of _ 0 "[]"]]) (simp_all add: n1_def ex_defs)
  then show ?thesis by (rule reach_step [OF _ net_step.h_return]) (simp_all add: ex_defs)
qed

theorem no_frame_after_shutdown_witness:
  "net_reach ex_down \<and> handler ex_down = Down \<and> net_step\<^sup>*\<^sup>* ex_down (ex_down\<lparr>pumps := [(1, 0, PLeft)]\<rparr>)
   \<and> length (sent_frames (sess (ex_down\<lparr>pumps := [(1, 0, PLeft)]\<rparr>))) = 2"
proof -
  have "net_step\<^sup>*\<^sup>* ex_down (ex_down\<lparr>pumps := [(1, 0, PLeft)]\<rparr>)" using ex_down_left by (rule r_into_rtranclp)
  with no_frame_after_shutdown [OF reach_ex_down] reach_ex_down show ?thesis by (simp add: ex_defs)
qed

text \<open>
  C11. When the handler of a session has returned, every connection whose pump is still reading has had
  its socket shut, so each of those pumps wakes up and ends; and unless the forwarder is holding a
  stream it has not announced yet, the table of streams is empty.  No interleaving of the forwarder's
  \<open>AddConn\<close> with the handler's \<open>CloseAll\<close> lets a pump block forever on a socket nobody will close.
\<close>

theorem teardown_reaches_every_pump:
  assumes "net_reach n" "handler n = Returned"
  shows "(\<forall>i r. (i, r, PRun) \<in> set (pumps n) \<longrightarrow> cn_shut (heap (sess n) ! r))
    \<and> (fwd_id (fwd n) = None \<longrightarrow> conns (sess n) = [])"
proof -
  have inv: "ids_ok n" "phase_ok n" "pumps_ok n" using net_inv [OF assms(1)] by auto
  have p: "pending n = []" and own: "\<And>i r. (i, r) \<in> set (conns (sess n)) \<Longrightarrow> fwd_owns n i r"
    using inv(2) assms(2) by (auto simp: phase_ok_def)
  have "cn_shut (heap (sess n) ! r)" if "(i, r, PRun) \<in> set (pumps n)" for i r
  proof -
    have "stream_ok n i r" using inv(3) that by (auto simp: pumps_ok_def)
    moreover have "(i, r) \<in> set (streams (pumps n))" using that by (force simp: streams_def)
    then have "fwd_id (fwd n) \<noteq> Some i" using ids_ok_fwd_id [OF inv(1)] by blast
    then have "(i, r) \<notin> set (conns (sess n))" using own [of i r] by (auto simp: fwd_owns_def)
    ultimately show ?thesis using p by (simp add: stream_ok_def)
  qed
  moreover have "conns (sess n) = []" if "fwd_id (fwd n) = None"
    using own that by (cases "conns (sess n)") (force simp: fwd_owns_def)+
  ultimately show ?thesis by blast
qed

theorem teardown_reaches_every_pump_witness:
  "net_reach ex_returned \<and> handler ex_returned = Returned \<and> (1, 0, PRun) \<in> set (pumps ex_returned)
   \<and> cn_shut (heap (sess ex_returned) ! 0) \<and> conns (sess ex_returned) = []"
  using teardown_reaches_every_pump [OF reach_ex_returned] reach_ex_returned
  by (simp add: ex_defs)

end
