(* ===== verification/Tunnel_Back.thy ===== *)
theory Tunnel_Back
  imports Tunnel_Threads
begin

text \<open>
  The way back through the tunnel: frames of the client reach the server's \<open>Register\<close> handler
  (\<open>grpc-tunnel/src/tunnel_server.cc\<close>), which writes their payload to the sockets of its streams, while
  the forwarder and the pumps go on as in theory \<open>Tunnel_Threads\<close>.  Looking the connection up, writing
  to it and closing it after a failed write are separate steps, so a pump may take the stream out of
  the table in between.  \<open>bk_in\<close> are the frames not read yet, \<open>bk_read\<close> those read, \<open>bk_out r\<close> the bytes
  the socket of connection \<open>r\<close> has taken; which frames arrive is arbitrary.  The handler takes a frame
  when it is done with the one before, the shutting of a socket included (\<open>pending\<close>).  \<open>b_net\<close> lets all
  steps of \<open>net_step\<close> happen, so that the sends and closes of a handler are possible without a frame
  too: these are runs the code does not have, and what is shown here holds for them as well.
\<close>

text \<open>Between frames; with a connection and bytes to write; the write failed; the stream is closed.\<close>

datatype bphase = BIdle | BGot u64 nat string | BFailed u64 | BTell u64

record Back =
  bk_net :: Net
  bk_in :: "Frame list"
  bk_read :: "Frame list"
  bk_out :: "nat \<Rightarrow> string"
  bk_phase :: bphase

definition new_back :: "Frame list \<Rightarrow> Back" where
  "new_back fs = \<lparr>bk_net = new_net, bk_in = fs, bk_read = [], bk_out = (\<lambda>_. []), bk_phase = BIdle\<rparr>"

text \<open>The handler's \<open>Read\<close> returns the frame \<open>f\<close>.\<close>

definition takes :: "Back \<Rightarrow> Frame \<Rightarrow> Frame list \<Rightarrow> bool" where
  "takes b f fs \<longleftrightarrow>
     bk_phase b = BIdle \<and> handler (bk_net b) = Serving \<and> pending (bk_net b) = [] \<and> bk_in b = f # fs"

inductive back_step :: "Back \<Rightarrow> Back \<Rightarrow> bool" where
  b_net: "net_step (bk_net b) n \<Longrightarrow> bk_phase b \<noteq> BIdle \<longrightarrow> handler n = handler (bk_net b) \<Longrightarrow>
    back_step b (b\<lparr>bk_net := n\<rparr>)"
| b_get: "takes b f fs \<Longrightarrow> f_type f = DATA \<Longrightarrow> GetConn (f_stream_id f) (sess (bk_net b)) = Some r \<Longrightarrow>
    back_step b (b\<lparr>bk_in := fs, bk_read := bk_read b @ [f], bk_phase := BGot (f_stream_id f) r (f_data f)\<rparr>)"
| b_gone: "takes b f fs \<Longrightarrow> f_type f = DATA \<Longrightarrow> GetConn (f_stream_id f) (sess (bk_net b)) = None \<Longrightarrow>
    back_step b (b\<lparr>bk_in := fs, bk_read := bk_read b @ [f],
      bk_net := (bk_net b)\<lparr>sess := snd (SendClose w (f_stream_id f) [] (sess (bk_net b)))\<rparr>\<rparr>)"
| b_register: "takes b f fs \<Longrightarrow> f_type f = REGISTER \<Longrightarrow>
    back_step b (b\<lparr>bk_in := fs, bk_read := bk_read b @ [f], bk_net := (bk_net b)\<lparr>registered := True,
      sess := snd (Send w (new_frame\<lparr>f_type := REGISTER_ACK, f_target := f_target f\<rparr>) (sess (bk_net b)))\<rparr>\<rparr>)"
| b_close: "takes b f fs \<Longrightarrow> f_type f = CLOSE \<Longrightarrow> GetConn (f_stream_id f) (sess (bk_net b)) = Some r \<Longrightarrow>
    back_step b (b\<lparr>bk_in := fs, bk_read := bk_read b @ [f],
      bk_net := (bk_net b)\<lparr>sess := erase_conn (f_stream_id f) (sess (bk_net b)), pending := [r]\<rparr>\<rparr>)"
| b_closed: "takes b f fs \<Longrightarrow> f_type f = CLOSE \<Longrightarrow> GetConn (f_stream_id f) (sess (bk_net b)) = None \<Longrightarrow>
    back_step b (b\<lparr>bk_in := fs, bk_read := bk_read b @ [f]\<rparr>)"
| b_other: "takes b f fs \<Longrightarrow> f_type f \<notin> {DATA, REGISTER, CLOSE} \<Longrightarrow>
    back_step b (b\<lparr>bk_in := fs, bk_read := bk_read b @ [f]\<rparr>)"
| b_wrote: "bk_phase b = BGot i r d \<Longrightarrow>
    back_step b (b\<lparr>bk_out := (bk_out b)(r := bk_out b r @ d), bk_phase := BIdle\<rparr>)"
| b_failed: "bk_phase b = BGot i r d \<Longrightarrow> k < length d \<Longrightarrow>
    back_step b (b\<lparr>bk_out := (bk_out b)(r := bk_out b r @ take k d), bk_phase := BFailed i\<rparr>)"
| b_drop: "bk_phase b = BFailed i \<Longrightarrow> handler (bk_net b) = Serving \<Longrightarrow> pending (bk_net b) = [] \<Longrightarrow>
    GetConn i (sess (bk_net b)) = Some r \<Longrightarrow>
    back_step b (b\<lparr>bk_net := (bk_net b)\<lparr>sess := erase_conn i (sess (bk_net b)), pending := [r]\<rparr>, bk_phase := BTell i\<rparr>)"
| b_dropped: "bk_phase b = BFailed i \<Longrightarrow> GetConn i (sess (bk_net b)) = None \<Longrightarrow>
    back_step b (b\<lparr>bk_phase := BTell i\<rparr>)"
| b_tell: "bk_phase b = BTell i \<Longrightarrow> handler (bk_net b) = Serving \<Longrightarrow> pending (bk_net b) = [] \<Longrightarrow>
    back_step b (b\<lparr>bk_net := (bk_net b)\<lparr>sess := snd (SendClose w i ''local write failed'' (sess (bk_net b)))\<rparr>,
      bk_phase := BIdle\<rparr>)"

inductive back_reach :: "Frame list \<Rightarrow> Back \<Rightarrow> bool" for fs where
  init: "back_reach fs (new_back fs)"
| step: "back_reach fs b \<Longrightarrow> back_step b b' \<Longrightarrow> back_reach fs b'"

definition bytes_for :: "u64 \<Rightarrow> Frame list \<Rightarrow> string" where
  "bytes_for i fs = concat (map f_data (filter (\<lambda>f. f_type f = DATA \<and> f_stream_id f = i) fs))"

lemma bytes_for_snoc:
  "bytes_for i (fs @ [f]) = bytes_for i fs @ (if f_type f = DATA \<and> f_stream_id f = i then f_data f else [])"
  by (simp add: bytes_for_def)

subsection \<open>Whose connection it is\<close>

text \<open>\<open>ow r\<close> is the stream the connection \<open>r\<close> was made for; ids are not used twice.\<close>

definition owners :: "(nat \<Rightarrow> u64) \<Rightarrow> Net \<Rightarrow> bool" where
  "owners ow n \<longleftrightarrow>
     inj_on ow {..<length (heap (sess n))}
     \<and> (\<forall>i r. GetConn i (sess n) = Some r \<longrightarrow> r < length (heap (sess n)) \<and> ow r = i)
     \<and> (\<forall>r < length (heap (sess n)). unat (ow r) < unat (next_id (sess n)))
     \<and> (\<forall>i. fwd n = FHas i \<longrightarrow> i \<notin> ow ` {..<length (heap (sess n))})"

text \<open>What a step leaves of the table: old connections stay with their streams or lose them.\<close>

definition table_step :: "Net \<Rightarrow> Net \<Rightarrow> bool" where
  "table_step n n' \<longleftrightarrow> length (heap (sess n)) \<le> length (heap (sess n'))
     \<and> (\<forall>i r. GetConn i (sess n') = Some r \<longrightarrow> r < length (heap (sess n)) \<longrightarrow> GetConn i (sess n) = Some r)"

lemma find_erase_Some: "smap_inv m \<Longrightarrow> smap_find (smap_erase j m) i = Some r \<Longrightarrow> smap_find m i = Some r"
  by (auto simp: smp.find_erase split: if_splits)

lemma same_table:
  assumes "owners ow n" "conns (sess n') = conns (sess n)" "length (heap (sess n')) = length (heap (sess n))"
    "next_id (sess n') = next_id (sess n)" "\<forall>i. fwd n' = FHas i \<longrightarrow> fwd n = FHas i"
  shows "\<exists>ow'. owners ow' n' \<and> (\<forall>r < length (heap (sess n)). ow' r = ow r) \<and> table_step n n'"
proof -
  have "owners ow n' \<and> table_step n n'" using assms by (auto simp: owners_def table_step_def GetConn_def)
  then show ?thesis by blast
qed

lemma erased_table:
  assumes "owners ow n" "smap_inv (conns (sess n))" "conns (sess n') = smap_erase j (conns (sess n)) \<or> conns (sess n') = []"
    "length (heap (sess n')) = length (heap (sess n))"
    "next_id (sess n') = next_id (sess n)" "\<forall>i. fwd n' = FHas i \<longrightarrow> fwd n = FHas i"
  shows "\<exists>ow'. owners ow' n' \<and> (\<forall>r < length (heap (sess n)). ow' r = ow r) \<and> table_step n n'"
proof -
  have sub: "GetConn i (sess n) = Some r" if "GetConn i (sess n') = Some r" for i r
    using that assms(2,3) find_erase_Some [of "conns (sess n)" j i r] by (auto simp: GetConn_def smap_find_def)
  have "owners ow n' \<and> table_step n n'" using assms(1,4-6) by (auto simp: owners_def table_step_def dest: sub)
  then show ?thesis by blast
qed

lemma owners_step:
  assumes "net_step n n'" "ids_ok n" "owners ow n"
  shows "\<exists>ow'. owners ow' n' \<and> (\<forall>r < length (heap (sess n)). ow' r = ow r) \<and> table_step n n'"
  using assms
proof (induction rule: net_step.induct)
  case (f_next n i s)
  then have "owners ow (n\<lparr>fwd := FHas i, sess := s\<rparr>) \<and> table_step n (n\<lparr>fwd := FHas i, sess := s\<rparr>)"
    by (fastforce simp: owners_def table_step_def GetConn_def unat_next dest!: NextStreamId_frame)
  then show ?case by blast
next
  case (f_add n i fd ref s)
  then have s: "ref = length (heap (sess n))" "conns s = smap_set i ref (conns (sess n))"
    "length (heap s) = Suc (length (heap (sess n)))" "next_id s = next_id (sess n)" "unat i < unat (next_id (sess n))"
    "i \<notin> ow ` {..<length (heap (sess n))}"
    by (auto simp: ids_ok_def owners_def dest!: AddConn_frame)
  let ?ow = "ow(ref := i)"
  have "inj_on ?ow {..<length (heap s)}"
    using f_add.prems(2) s(1,3,6) by (auto simp: owners_def inj_on_def less_Suc_eq)
  then have "owners ?ow (n\<lparr>fwd := FAdded i ref, sess := s\<rparr>)"
    using f_add.prems(2) s by (fastforce simp: owners_def GetConn_def smap_find_set less_Suc_eq split: if_splits)
  moreover have "table_step n (n\<lparr>fwd := FAdded i ref, sess := s\<rparr>)"
    using s by (auto simp: table_step_def GetConn_def smap_find_set split: if_splits)
  moreover have "\<forall>r < length (heap (sess n)). ?ow r = ow r" using s(1) by simp
  ultimately show ?case by blast
next
  case (h_close n i ref)
  then show ?case by (intro erased_table [where j = i]) (auto simp: ids_ok_def)
next
  case (h_swap n)
  then show ?case by (intro erased_table [where j = 0]) (auto simp: ids_ok_def)
next
  case (f_open n i ref w t sent s)
  then have "s = snd (Send w (new_frame\<lparr>f_stream_id := i, f_type := OPEN, f_target := t\<rparr>) (sess n))" by simp
  with f_open show ?case by (intro same_table) auto
next
  case (f_close n i ref ref')
  then show ?case by (intro erased_table [where j = i]) (auto simp: ids_ok_def)
next
  case (p_data k n i ref w d sent s)
  then have "s = snd (SendData w i d (sess n))" by simp
  with p_data show ?case by (intro same_table) auto
next
  case (p_erase k n i ref ours)
  then show ?case by (intro erased_table [where j = i]) (auto simp: ids_ok_def)
qed (rule same_table, auto)+

subsection \<open>What the sockets take\<close>

text \<open>
  The bytes a connection has taken are a stretch of its stream's bytes: up to the last one read, while
  the stream is in the table and the handler is not busy with it; the bytes in the handler's hand come
  next.  \<open>base r\<close> are the bytes of the stream that were read before the connection was made.
\<close>

definition busy :: "Back \<Rightarrow> u64 \<Rightarrow> nat \<Rightarrow> bool" where
  "busy b i r \<longleftrightarrow> (\<exists>d. bk_phase b = BGot i r d) \<or> bk_phase b = BFailed i"

definition live :: "Back \<Rightarrow> u64 \<Rightarrow> nat \<Rightarrow> bool" where
  "live b i r \<longleftrightarrow> GetConn i (sess (bk_net b)) = Some r \<and> \<not> busy b i r"

definition stretch :: "Back \<Rightarrow> string \<Rightarrow> u64 \<Rightarrow> nat \<Rightarrow> bool" where
  "stretch b p i r \<longleftrightarrow>
     (\<exists>post. bytes_for i (bk_read b) = p @ bk_out b r @ post
        \<and> (\<forall>d. bk_phase b = BGot i r d \<longrightarrow> post = d) \<and> (live b i r \<longrightarrow> post = []))"

definition back_ok :: "(nat \<Rightarrow> u64) \<Rightarrow> (nat \<Rightarrow> string) \<Rightarrow> Back \<Rightarrow> bool" where
  "back_ok ow base b \<longleftrightarrow> owners ow (bk_net b)
     \<and> (\<forall>r < length (heap (sess (bk_net b))). stretch b (base r) (ow r) r)
     \<and> (\<forall>r \<ge> length (heap (sess (bk_net b))). bk_out b r = [])
     \<and> (\<forall>i r d. bk_phase b = BGot i r d \<longrightarrow> r < length (heap (sess (bk_net b))) \<and> ow r = i)"

text \<open>What is known of connections later agrees with what was known, and new ones start at their beginning.\<close>

definition extends ::
  "(nat \<Rightarrow> u64) \<Rightarrow> (nat \<Rightarrow> string) \<Rightarrow> Back \<Rightarrow> (nat \<Rightarrow> u64) \<Rightarrow> (nat \<Rightarrow> string) \<Rightarrow> Back \<Rightarrow> bool" where
  "extends ow base b ow' base' b' \<longleftrightarrow>
     length (heap (sess (bk_net b))) \<le> length (heap (sess (bk_net b')))
     \<and> (\<forall>r < length (heap (sess (bk_net b))). ow' r = ow r \<and> base' r = base r)
     \<and> (\<forall>r. length (heap (sess (bk_net b))) \<le> r \<longrightarrow> base' r = bytes_for (ow' r) (bk_read b'))"

lemma stretchI:
  "bytes_for i (bk_read b) = p @ bk_out b r @ post \<Longrightarrow> (\<And>d. bk_phase b = BGot i r d \<Longrightarrow> post = d) \<Longrightarrow>
     (live b i r \<Longrightarrow> post = []) \<Longrightarrow> stretch b p i r"
  unfolding stretch_def by blast

lemma stretch_keep:
  assumes "stretch b p i r" "bytes_for i (bk_read b') = bytes_for i (bk_read b)" "bk_out b' r = bk_out b r"
    and "\<And>d. bk_phase b' = BGot i r d \<Longrightarrow> bk_phase b = BGot i r d" "live b' i r \<Longrightarrow> live b i r"
  shows "stretch b' p i r"
  using assms unfolding stretch_def by metis

lemma live_net: "live (b\<lparr>bk_net := n\<rparr>) i r \<Longrightarrow> table_step (bk_net b) n \<Longrightarrow> r < length (heap (sess (bk_net b))) \<Longrightarrow> live b i r"
  by (simp add: live_def busy_def table_step_def)

lemma back_ok_net:
  assumes "back_ok ow base b" "net_step (bk_net b) n" "ids_ok (bk_net b)"
  shows "\<exists>ow' base'. back_ok ow' base' (b\<lparr>bk_net := n\<rparr>) \<and> extends ow base b ow' base' (b\<lparr>bk_net := n\<rparr>)"
proof -
  let ?h = "length (heap (sess (bk_net b)))"
  have o: "owners ow (bk_net b)" using assms(1) by (simp add: back_ok_def)
  obtain ow' where ow': "owners ow' n" "\<forall>r < ?h. ow' r = ow r" "table_step (bk_net b) n"
    using owners_step [OF assms(2,3) o] by blast
  define base' where "base' r = (if r < ?h then base r else bytes_for (ow' r) (bk_read b))" for r
  have "stretch (b\<lparr>bk_net := n\<rparr>) (base' r) (ow' r) r" if "r < length (heap (sess n))" for r
  proof (cases "r < ?h")
    case True
    then have "stretch b (base r) (ow' r) r" using assms(1) ow'(2) by (simp add: back_ok_def)
    then have "stretch b (base' r) (ow' r) r" using True by (simp add: base'_def)
    then show ?thesis by (rule stretch_keep) (use live_net [OF _ ow'(3) True] in simp_all)
  next
    case False
    then have "bk_out b r = []" "\<forall>i d. bk_phase b \<noteq> BGot i r d" using assms(1) by (auto simp: back_ok_def)
    with False show ?thesis by (intro stretchI [where post = "[]"]) (simp_all add: base'_def)
  qed
  with assms(1) ow' have "back_ok ow' base' (b\<lparr>bk_net := n\<rparr>)" unfolding back_ok_def by (auto simp: table_step_def)
  moreover have "extends ow base b ow' base' (b\<lparr>bk_net := n\<rparr>)"
    using ow'(2,3) by (simp add: extends_def table_step_def base'_def)
  ultimately show ?thesis by blast
qed

text \<open>A step of the handler changes what is known of one connection \<open>r\<close>, and leaves the others alone.\<close>

definition others_kept :: "(nat \<Rightarrow> u64) \<Rightarrow> nat \<Rightarrow> Back \<Rightarrow> Back \<Rightarrow> bool" where
  "others_kept ow r b b' \<longleftrightarrow>
     (\<forall>q. q < length (heap (sess (bk_net b))) \<longrightarrow> q \<noteq> r \<longrightarrow>
        bytes_for (ow q) (bk_read b') = bytes_for (ow q) (bk_read b)
        \<and> (\<forall>d. bk_phase b' = BGot (ow q) q d \<longrightarrow> bk_phase b = BGot (ow q) q d)
        \<and> (live b' (ow q) q \<longrightarrow> live b (ow q) q))
     \<and> (\<forall>q. q \<noteq> r \<longrightarrow> bk_out b' q = bk_out b q)"

lemma back_ok_one:
  assumes "back_ok ow base b" "bk_net b' = bk_net b" "r < length (heap (sess (bk_net b)))"
    and "stretch b' (base r) (ow r) r" "others_kept ow r b b'"
    and "\<And>i q d. bk_phase b' = BGot i q d \<Longrightarrow> q = r \<and> i = ow r"
  shows "back_ok ow base b'"
proof -
  have "stretch b' (base q) (ow q) q" if q: "q < length (heap (sess (bk_net b)))" for q
  proof (cases "q = r")
    case False
    have "stretch b (base q) (ow q) q" using assms(1) q by (simp add: back_ok_def)
    then show ?thesis by (rule stretch_keep) (use assms(5) q False in \<open>simp_all add: others_kept_def\<close>)
  qed (use assms(4) in simp)
  moreover have "bk_out b' q = []" if "length (heap (sess (bk_net b))) \<le> q" for q
    using assms(1,3,5) that by (auto simp: back_ok_def others_kept_def)
  ultimately show ?thesis using assms(1-3,6) unfolding back_ok_def assms(2) by blast
qed

lemma back_ok_phase:
  assumes "back_ok ow base b" "bk_phase b = BGot i r d"
  shows "r < length (heap (sess (bk_net b)))" "ow r = i" "bytes_for i (bk_read b) = base r @ bk_out b r @ d"
  using assms by (auto simp: back_ok_def stretch_def)

lemma ok_get:
  assumes "back_ok ow base b" "bk_phase b = BIdle" "f_type f = DATA" "GetConn (f_stream_id f) (sess (bk_net b)) = Some r"
  shows "back_ok ow base (b\<lparr>bk_in := fs, bk_read := bk_read b @ [f], bk_phase := BGot (f_stream_id f) r (f_data f)\<rparr>)"
    (is "back_ok ow base ?b")
proof -
  have r: "ow r = f_stream_id f" "r < length (heap (sess (bk_net b)))" using assms(1,4) by (auto simp: back_ok_def owners_def)
  have "stretch b (base r) (ow r) r" "live b (ow r) r" using assms r by (auto simp: back_ok_def live_def busy_def)
  then have "bytes_for (ow r) (bk_read b) = base r @ bk_out b r" by (auto simp: stretch_def)
  then have "stretch ?b (base r) (ow r) r"
    by (intro stretchI [where post = "f_data f"]) (simp_all add: bytes_for_snoc assms(3) r(1) live_def busy_def)
  moreover have "f_stream_id f \<noteq> ow q" if "q < length (heap (sess (bk_net b)))" "q \<noteq> r" for q
    using assms(1) r that by (auto simp: back_ok_def owners_def inj_on_def)
  then have "others_kept ow r b ?b" by (simp add: others_kept_def bytes_for_snoc live_def busy_def assms(2))
  ultimately show ?thesis using r by (intro back_ok_one [OF assms(1), of _ r]) simp_all
qed

text \<open>A frame that no connection takes.\<close>

lemma ok_skip:
  assumes "back_ok ow base b" "bk_phase b = BIdle" "f_type f = DATA \<Longrightarrow> GetConn (f_stream_id f) (sess (bk_net b)) = None"
  shows "back_ok ow base (b\<lparr>bk_in := fs, bk_read := bk_read b @ [f]\<rparr>)" (is "back_ok ow base ?b")
proof -
  have "stretch ?b (base q) (ow q) q" if q: "q < length (heap (sess (bk_net b)))" for q
  proof -
    have "stretch b (base q) (ow q) q" using assms(1) q by (simp add: back_ok_def)
    then obtain post where s: "bytes_for (ow q) (bk_read b) = base q @ bk_out b q @ post" "live b (ow q) q \<longrightarrow> post = []"
      by (auto simp: stretch_def)
    let ?more = "if f_type f = DATA \<and> f_stream_id f = ow q then f_data f else []"
    have "live ?b (ow q) q \<Longrightarrow> post @ ?more = []" using s(2) assms(3) by (auto simp: live_def busy_def)
    then show ?thesis
      using s(1) by (intro stretchI [where post = "post @ ?more"]) (simp_all add: bytes_for_snoc assms(2))
  qed
  then show ?thesis using assms(1,2) by (simp add: back_ok_def)
qed

lemma ok_wrote:
  assumes "back_ok ow base b" "bk_phase b = BGot i r d"
  shows "back_ok ow base (b\<lparr>bk_out := (bk_out b)(r := bk_out b r @ d), bk_phase := BIdle\<rparr>)" (is "back_ok ow base ?b")
proof -
  have "stretch ?b (base r) (ow r) r"
    using back_ok_phase [OF assms] by (intro stretchI [where post = "[]"]) simp_all
  moreover have "others_kept ow r b ?b" using assms(2) by (auto simp: others_kept_def live_def busy_def)
  ultimately show ?thesis using back_ok_phase(1,2) [OF assms] by (intro back_ok_one [OF assms(1), of _ r]) simp_all
qed

lemma ok_failed:
  assumes "back_ok ow base b" "bk_phase b = BGot i r d"
  shows "back_ok ow base (b\<lparr>bk_out := (bk_out b)(r := bk_out b r @ take k d), bk_phase := BFailed i\<rparr>)" (is "back_ok ow base ?b")
proof -
  have "stretch ?b (base r) (ow r) r"
    using back_ok_phase [OF assms] by (intro stretchI [where post = "drop k d"]) (simp_all add: live_def busy_def)
  moreover have "others_kept ow r b ?b" using assms(2) by (auto simp: others_kept_def live_def busy_def)
  ultimately show ?thesis using back_ok_phase(1,2) [OF assms] by (intro back_ok_one [OF assms(1), of _ r]) simp_all
qed

text \<open>The failed stream is out of the table, so it makes no difference any more.\<close>

lemma ok_closed:
  assumes "back_ok ow base b" "bk_phase b = BFailed i" "GetConn i (sess (bk_net b)) = None"
  shows "back_ok ow base (b\<lparr>bk_phase := BTell i\<rparr>)" (is "back_ok ow base ?b")
proof -
  have "stretch ?b (base q) (ow q) q" if q: "q < length (heap (sess (bk_net b)))" for q
  proof (rule stretch_keep)
    show "stretch b (base q) (ow q) q" using assms(1) q by (simp add: back_ok_def)
    show "live ?b (ow q) q \<Longrightarrow> live b (ow q) q" using assms(2,3) by (auto simp: live_def busy_def)
  qed simp_all
  then show ?thesis using assms(1) by (simp add: back_ok_def)
qed

text \<open>A frame whose handling is a step of \<open>net_step\<close>, and the end of a failed write.\<close>

lemma ok_take:
  assumes "back_ok ow base b" "net_reach (bk_net b)" "takes b f fs" "net_step (bk_net b) n"
    and "f_type f = DATA \<Longrightarrow> GetConn (f_stream_id f) (sess (bk_net b)) = None"
  shows "net_reach n \<and> (\<exists>ow' base'. back_ok ow' base' (b\<lparr>bk_in := fs, bk_read := bk_read b @ [f], bk_net := n\<rparr>)
    \<and> extends ow base b ow' base' (b\<lparr>bk_in := fs, bk_read := bk_read b @ [f], bk_net := n\<rparr>))"
proof -
  let ?b = "b\<lparr>bk_in := fs, bk_read := bk_read b @ [f]\<rparr>"
  have "back_ok ow base ?b" using assms by (intro ok_skip) (auto simp: takes_def)
  moreover have "net_step (bk_net ?b) n" "ids_ok (bk_net ?b)" using assms(4) net_inv [OF assms(2)] by simp_all
  ultimately obtain ow' base' where "back_ok ow' base' (?b\<lparr>bk_net := n\<rparr>)" "extends ow base ?b ow' base' (?b\<lparr>bk_net := n\<rparr>)"
    using back_ok_net by blast
  moreover from this(2) have "extends ow base b ow' base' (?b\<lparr>bk_net := n\<rparr>)" by (simp add: extends_def)
  ultimately show ?thesis using net_reach.step [OF assms(2,4)] by auto
qed

lemma ok_tell:
  assumes "back_ok ow base b" "bk_phase b = BTell i"
  shows "back_ok ow base (b\<lparr>bk_phase := BIdle\<rparr>)"
proof -
  have "stretch (b\<lparr>bk_phase := BIdle\<rparr>) (base q) (ow q) q" if "q < length (heap (sess (bk_net b)))" for q
    using assms that by (auto simp: back_ok_def live_def busy_def elim!: stretch_keep)
  then show ?thesis using assms(1) by (simp add: back_ok_def)
qed

lemma ok_drop:
  assumes "back_ok ow base b" "net_reach (bk_net b)" "bk_phase b = BFailed i"
    and "net_step (bk_net b) ((bk_net b)\<lparr>sess := erase_conn i (sess (bk_net b)), pending := [r]\<rparr>)" (is "net_step _ ?n")
  shows "net_reach ?n \<and> (\<exists>ow' base'. back_ok ow' base' (b\<lparr>bk_net := ?n, bk_phase := BTell i\<rparr>)
    \<and> extends ow base b ow' base' (b\<lparr>bk_net := ?n, bk_phase := BTell i\<rparr>))"
proof -
  obtain ow' base' where "back_ok ow' base' (b\<lparr>bk_net := ?n\<rparr>)" and e: "extends ow base b ow' base' (b\<lparr>bk_net := ?n\<rparr>)"
    using back_ok_net [OF assms(1,4)] net_inv [OF assms(2)] by blast
  moreover have "smap_inv (conns (sess (bk_net b)))" using net_inv [OF assms(2)] by (simp add: ids_ok_def)
  ultimately have "back_ok ow' base' (b\<lparr>bk_net := ?n, bk_phase := BTell i\<rparr>)"
    using ok_closed [of ow' base' "b\<lparr>bk_net := ?n\<rparr>" i] assms(3) by (simp add: GetConn_def smp.find_erase erase_conn_def)
  moreover have "extends ow base b ow' base' (b\<lparr>bk_net := ?n, bk_phase := BTell i\<rparr>)" using e by (simp add: extends_def)
  ultimately show ?thesis using net_reach.step [OF assms(2,4)] by auto
qed

text \<open>A step that leaves the table alone.\<close>

lemma extends_same:
  "bk_net b' = bk_net b \<Longrightarrow> back_ok ow base b' \<Longrightarrow> net_reach (bk_net b) \<Longrightarrow>
     net_reach (bk_net b') \<and> (\<exists>ow' base'. back_ok ow' base' b' \<and> extends ow base b ow' base' b')"
  by (rule conjI, simp, rule exI [of _ ow],
      rule exI [of _ "\<lambda>r. if r < length (heap (sess (bk_net b))) then base r else bytes_for (ow r) (bk_read b')"])
    (simp add: back_ok_def extends_def)

lemma back_ok_step:
  assumes "back_step b b'" "net_reach (bk_net b)" "back_ok ow base b"
  shows "net_reach (bk_net b') \<and> (\<exists>ow' base'. back_ok ow' base' b' \<and> extends ow base b ow' base' b')"
  using assms
proof (induction rule: back_step.induct)
  case (b_net b n)
  then show ?case using back_ok_net [of ow base b n] net_inv [of "bk_net b"] net_reach.step [of "bk_net b" n] by auto
next
  case (b_get b f fs r)
  then have "back_ok ow base (b\<lparr>bk_in := fs, bk_read := bk_read b @ [f], bk_phase := BGot (f_stream_id f) r (f_data f)\<rparr>)"
    by (intro ok_get) (auto simp: takes_def)
  with b_get.prems(1) show ?case by (intro extends_same) simp_all
next
  case (b_gone b f fs w)
  from ok_take [OF b_gone.prems(2,1) b_gone.hyps(1) net_step.h_send_close] b_gone.hyps show ?case by (simp add: takes_def)
next
  case (b_register b f fs w)
  from ok_take [OF b_register.prems(2,1) b_register.hyps(1) net_step.h_register] b_register.hyps
  show ?case by (simp add: takes_def)
next
  case (b_close b f fs r)
  from ok_take [OF b_close.prems(2,1) b_close.hyps(1) net_step.h_close [OF _ _ b_close.hyps(3)]] b_close.hyps
  show ?case by (simp add: takes_def)
next
  case (b_closed b f fs)
  then have "back_ok ow base (b\<lparr>bk_in := fs, bk_read := bk_read b @ [f]\<rparr>)" by (intro ok_skip) (auto simp: takes_def)
  with b_closed.prems(1) show ?case by (intro extends_same) simp_all
next
  case (b_other b f fs)
  then have "back_ok ow base (b\<lparr>bk_in := fs, bk_read := bk_read b @ [f]\<rparr>)" by (intro ok_skip) (auto simp: takes_def)
  with b_other.prems(1) show ?case by (intro extends_same) simp_all
next
  case (b_wrote b i r d)
  with ok_wrote [OF b_wrote.prems(2) b_wrote.hyps] show ?case by (intro extends_same) simp_all
next
  case (b_failed b i r d k)
  with ok_failed [OF b_failed.prems(2) b_failed.hyps(1), of k] show ?case by (intro extends_same) simp_all
next
  case (b_drop b i r)
  from ok_drop [OF b_drop.prems(2,1) b_drop.hyps(1) net_step.h_close [OF b_drop.hyps(2-4)]] show ?case by simp
next
  case (b_dropped b i)
  with ok_closed [OF b_dropped.prems(2) b_dropped.hyps] show ?case by (intro extends_same) simp_all
next
  case (b_tell b i w)
  let ?n = "(bk_net b)\<lparr>sess := snd (SendClose w i ''local write failed'' (sess (bk_net b)))\<rparr>"
  have st: "net_step (bk_net b) ?n" using b_tell.hyps(2) by (rule net_step.h_send_close)
  from back_ok_net [OF b_tell.prems(2) st] net_inv [OF b_tell.prems(1)] obtain ow' base'
    where "back_ok ow' base' (b\<lparr>bk_net := ?n\<rparr>)" and "extends ow base b ow' base' (b\<lparr>bk_net := ?n\<rparr>)" by blast
  moreover from this(2) have "extends ow base b ow' base' (b\<lparr>bk_net := ?n, bk_phase := BIdle\<rparr>)" by (simp add: extends_def)
  ultimately show ?case using ok_tell [of ow' base' "b\<lparr>bk_net := ?n\<rparr>" i] b_tell.hyps(1) net_reach.step [OF b_tell.prems(1) st] by auto
qed

lemma back_ok_new: "back_ok ow base (new_back fs)"
  by (simp add: back_ok_def new_back_def owners_def new_net_def new_session_def GetConn_def smap_find_def)

lemma back_inv: "back_reach fs b \<Longrightarrow> net_reach (bk_net b) \<and> (\<exists>ow base. back_ok ow base b) \<and> bk_read b @ bk_in b = fs"
proof (induction rule: back_reach.induct)
  case init
  have "net_reach new_net" by (rule net_reach.init)
  then show ?case using back_ok_new [of undefined undefined fs] by (auto simp: new_back_def)
next
  case (step b b')
  moreover have "bk_read b' @ bk_in b' = bk_read b @ bk_in b" using step.hyps(2) by (cases rule: back_step.cases) (auto simp: takes_def)
  ultimately show ?case using back_ok_step [of b b'] by blast
qed

text \<open>What was known of a connection stays known along a run.\<close>

lemma read_grows: "back_step b b' \<Longrightarrow> prefix (bk_read b) (bk_read b')"
  by (cases rule: back_step.cases) auto

lemma back_ok_steps:
  assumes "back_step\<^sup>*\<^sup>* b b'" "net_reach (bk_net b)" "back_ok ow base b"
  shows "\<exists>ow' base'. net_reach (bk_net b') \<and> back_ok ow' base' b' \<and> prefix (bk_read b) (bk_read b')
    \<and> length (heap (sess (bk_net b))) \<le> length (heap (sess (bk_net b')))
    \<and> (\<forall>r < length (heap (sess (bk_net b))). ow' r = ow r \<and> base' r = base r)"
  using assms(1)
proof (induction rule: rtranclp_induct)
  case base
  then show ?case using assms(2,3) by blast
next
  case (step y z)
  then obtain ow1 base1 where 1: "net_reach (bk_net y)" "back_ok ow1 base1 y" "prefix (bk_read b) (bk_read y)"
    "length (heap (sess (bk_net b))) \<le> length (heap (sess (bk_net y)))"
    "\<forall>r < length (heap (sess (bk_net b))). ow1 r = ow r \<and> base1 r = base r" by blast
  from back_ok_step [OF step.hyps(2) 1(1,2)] obtain ow2 base2 where 2: "net_reach (bk_net z)" "back_ok ow2 base2 z"
    "extends ow1 base1 y ow2 base2 z" by blast
  from prefix_order.order_trans [OF 1(3) read_grows [OF step.hyps(2)]] have "prefix (bk_read b) (bk_read z)" .
  with 1 2 show ?case by (intro exI [of _ ow2] exI [of _ base2]) (auto simp: extends_def)
qed

lemma bytes_for_since:
  "prefix fs gs \<Longrightarrow> bytes_for i gs = bytes_for i fs @ bytes_for i (drop (length fs) gs)"
  by (auto simp: prefix_def bytes_for_def)

text \<open>
  C7.  The way back keeps streams apart and whole, over every interleaving of the handler, the forwarder
  and the pumps and for every sequence of frames a client may send.  Take any connection \<open>r\<close>, from the
  step in which it was made (from \<open>b0\<close> to \<open>b1\<close>) for its stream \<open>i\<close>, to any later moment: the bytes
  its socket has taken are the first bytes of stream \<open>i\<close> among the frames read since it was made; while
  the stream is in the table and the handler is between frames they are all of these bytes, so
  nothing is missing or late, at the beginning or at the end; while the handler holds a payload for it,
  all but that payload; and it is never in the table for another stream.
\<close>

theorem sockets_take_their_stream:
  assumes "back_reach fs b0" "back_step b0 b1" "length (heap (sess (bk_net b0))) \<le> r"
    and "GetConn i (sess (bk_net b1)) = Some r" "back_step\<^sup>*\<^sup>* b1 b"
  shows "let since = bytes_for i (drop (length (bk_read b1)) (bk_read b)) in
    prefix (bk_out b r) since
    \<and> (GetConn i (sess (bk_net b)) = Some r \<and> bk_phase b = BIdle \<longrightarrow> bk_out b r = since)
    \<and> (\<forall>d. bk_phase b = BGot i r d \<longrightarrow> bk_out b r @ d = since)
    \<and> (\<forall>j. GetConn j (sess (bk_net b)) = Some r \<longrightarrow> j = i)"
proof -
  obtain ow0 base0 where 0: "net_reach (bk_net b0)" "back_ok ow0 base0 b0" using back_inv [OF assms(1)] by blast
  from back_ok_step [OF assms(2) 0] obtain ow1 base1 where 1: "net_reach (bk_net b1)" "back_ok ow1 base1 b1"
    "extends ow0 base0 b0 ow1 base1 b1" by blast
  have i: "ow1 r = i" "r < length (heap (sess (bk_net b1)))" using 1(2) assms(4) by (auto simp: back_ok_def owners_def)
  then have base: "base1 r = bytes_for i (bk_read b1)" using 1(3) assms(3) by (simp add: extends_def)
  from back_ok_steps [OF assms(5) 1(1,2)] obtain ow' base' where 2: "back_ok ow' base' b" "prefix (bk_read b1) (bk_read b)"
    "length (heap (sess (bk_net b1))) \<le> length (heap (sess (bk_net b)))"
    "ow' r = i" "base' r = bytes_for i (bk_read b1)" using i base by metis
  have "r < length (heap (sess (bk_net b)))" using i(2) 2(3) by simp
  with 2(1) have "stretch b (base' r) (ow' r) r" by (simp add: back_ok_def)
  then have "stretch b (bytes_for i (bk_read b1)) i r" by (simp only: 2(4,5))
  then obtain post where p: "bytes_for i (bk_read b) = bytes_for i (bk_read b1) @ bk_out b r @ post"
    "\<forall>d. bk_phase b = BGot i r d \<longrightarrow> post = d" "live b i r \<longrightarrow> post = []" by (auto simp: stretch_def)
  then have since: "bytes_for i (drop (length (bk_read b1)) (bk_read b)) = bk_out b r @ post"
    using bytes_for_since [OF 2(2), of i] by simp
  have "\<forall>j. GetConn j (sess (bk_net b)) = Some r \<longrightarrow> j = i" using 2(1,4) by (auto simp: back_ok_def owners_def)
  with p(2,3) since show ?thesis by (simp add: live_def busy_def)
qed

text \<open>A client answers on the stream that the server has opened.\<close>

definition ex_answer :: Frame where
  "ex_answer = new_frame\<lparr>f_stream_id := 1, f_type := DATA, f_data := ''hi''\<rparr>"

definition ex_back :: Back where
  "ex_back = \<lparr>bk_net = ex_open, bk_in = [], bk_read = [ex_answer], bk_out = (\<lambda>_. [])(0 := ''hi''), bk_phase = BIdle\<rparr>"

lemma back_reach_net: "net_reach n \<Longrightarrow> back_reach fs ((new_back fs)\<lparr>bk_net := n\<rparr>)"
proof (induction rule: net_reach.induct)
  case init
  then show ?case using back_reach.init [of fs] by (simp add: new_back_def)
next
  case (step n n')
  from back_reach.step [OF step.IH back_step.b_net [of _ n']] step.hyps(2) show ?case by (simp add: new_back_def)
qed

lemma steps_ex_back: "back_step\<^sup>*\<^sup>* ((new_back [ex_answer])\<lparr>bk_net := ex_added\<rparr>) ex_back"
proof -
  let ?b = "(new_back [ex_answer])\<lparr>bk_net := ex_open\<rparr>"
  let ?g = "?b\<lparr>bk_in := [], bk_read := bk_read ?b @ [ex_answer], bk_phase := BGot 1 0 ''hi''\<rparr>"
  have "back_step ((new_back [ex_answer])\<lparr>bk_net := ex_added\<rparr>) ?b"
    using b_net [of "(new_back [ex_answer])\<lparr>bk_net := ex_added\<rparr>" ex_open] step_ex_open by (simp add: new_back_def)
  moreover have "back_step ?b ?g"
    using b_get [of ?b ex_answer "[]" 0]
    by (simp add: takes_def new_back_def ex_answer_def new_frame_def ex_defs GetConn_def smap_find_def)
  moreover have "back_step ?g ex_back"
    using b_wrote [of ?g 1 0 "''hi''"] by (simp add: new_back_def ex_back_def)
  ultimately show ?thesis by simp
qed

theorem sockets_take_their_stream_witness:
  "bk_out ex_back 0 = bytes_for 1 [ex_answer] \<and> bk_out ex_back 0 = ''hi''"
proof -
  let ?b0 = "(new_back [ex_answer])\<lparr>bk_net := ex_has\<rparr>" and ?b1 = "(new_back [ex_answer])\<lparr>bk_net := ex_added\<rparr>"
  have r: "back_reach [ex_answer] ?b0" by (rule back_reach_net [OF reach_ex_has])
  have s: "back_step ?b0 ?b1" using b_net [of ?b0 ex_added] step_ex_added by (simp add: new_back_def)
  have "GetConn 1 (sess (bk_net ?b1)) = Some 0" "length (heap (sess (bk_net ?b0))) \<le> 0"
    "GetConn 1 (sess (bk_net ex_back)) = Some 0"
    by (simp_all add: ex_back_def ex_added_def ex_has_def ex_defs GetConn_def smap_find_def)
  with sockets_take_their_stream [OF r s _ _ steps_ex_back, of 0 1] show ?thesis
    by (simp add: ex_back_def new_back_def Let_def)
qed

end
