(* ===== verification/Tunnel_Wire.thy ===== *)
theory Tunnel_Wire
  imports Tunnel_Threads
begin

text \<open>
  What the server's threads put on the tunnel and what the client makes of it: the protocol rules of
  \<open>grpc-tunnel/SPEC.md\<close> on stream ids and on the order of frames, over every interleaving of the
  server's threads (\<open>Tunnel_Threads\<close>), and the composition of the two ends (\<open>Tunnel_Endpoints\<close>).
\<close>

subsection \<open>The order of the server's frames\<close>

definition opens :: "Frame list \<Rightarrow> u64 list" where
  "opens fs = map f_stream_id (filter (\<lambda>f. f_type f = OPEN) fs)"

text \<open>No id is opened twice, and DATA is sent only for an id already opened (\<open>ids\<close> so far).\<close>

fun frames_ok :: "u64 list \<Rightarrow> Frame list \<Rightarrow> bool" where
  "frames_ok ids [] = True"
| "frames_ok ids (f # fs) =
     (if f_type f = OPEN then f_stream_id f \<notin> set ids \<and> frames_ok (f_stream_id f # ids) fs
      else (f_type f = DATA \<longrightarrow> f_stream_id f \<in> set ids) \<and> frames_ok ids fs)"

lemma opens_simps [simp]:
  "opens [] = []" "opens (fs @ gs) = opens fs @ opens gs"
  "opens (f # fs) = (if f_type f = OPEN then f_stream_id f # opens fs else opens fs)"
  by (simp_all add: opens_def)

lemma frames_ok_append:
  "frames_ok ids (fs @ gs) \<longleftrightarrow> frames_ok ids fs \<and> frames_ok (rev (opens fs) @ ids) gs"
  by (induction ids fs rule: frames_ok.induct) auto

text \<open>
  The invariant: frames in order, opened ids increasing from 1 and below the counter, every pump's
  stream opened, and an id the forwarder is about to open above all opened ones.
\<close>

definition opened_ok :: "Net \<Rightarrow> bool" where
  "opened_ok n \<longleftrightarrow>
     (let fs = sent_frames (sess n) in
      frames_ok [] fs \<and> sorted_wrt (<) (map unat (opens fs))
      \<and> 0 < unat (next_id (sess n))
      \<and> (\<forall>i \<in> set (opens fs). 0 < unat i \<and> unat i < unat (next_id (sess n)))
      \<and> (\<forall>(i, r) \<in> set (streams (pumps n)). i \<in> set (opens fs))
      \<and> (\<forall>i. fwd_id (fwd n) = Some i \<longrightarrow> 0 < unat i \<and> (\<forall>j \<in> set (opens fs). unat j < unat i)))"

text \<open>A frame that is neither OPEN nor DATA changes nothing of this.\<close>

definition neutral :: "Frame \<Rightarrow> bool" where
  "neutral f \<longleftrightarrow> f_type f \<noteq> OPEN \<and> f_type f \<noteq> DATA"

lemma sent_Send: "sent_frames (snd (Send w f s)) = (if alive s \<and> w then sent_frames s @ [f] else sent_frames s)"
  "fst (Send w f s) = (alive s \<and> w)"
  by (simp_all add: Send_def)

lemma Send_cases:
  "Send w f s = (sent, s') \<Longrightarrow> sent = (alive s \<and> w) \<and> s' = (if sent then s\<lparr>sent_frames := sent_frames s @ [f]\<rparr> else s)"
  by (auto simp: Send_def split: if_splits)

lemma opened_ok_neutral:
  assumes "opened_ok n" "neutral f" "sess n' = snd (Send w f (sess n))"
    and "streams (pumps n') = streams (pumps n)" "fwd n' = fwd n"
  shows "opened_ok n'"
  using assms
  by (auto simp: opened_ok_def Let_def neutral_def sent_Send frames_ok_append)

lemma neutral_frames:
  "neutral (new_frame\<lparr>f_type := REGISTER_ACK, f_target := t\<rparr>)"
  "neutral (let f = new_frame\<lparr>f_stream_id := i, f_type := CLOSE\<rparr> in if e \<noteq> [] then f\<lparr>f_error := e\<rparr> else f)"
  by (simp_all add: neutral_def Let_def)

text \<open>A step that sends nothing and leaves the counter, the pumps' streams and the forwarder's id.\<close>

lemma opened_ok_frame:
  assumes "opened_ok n" "sent_frames (sess n') = sent_frames (sess n)" "next_id (sess n') = next_id (sess n)"
    and "streams (pumps n') = streams (pumps n)" "fwd_id (fwd n') = None \<or> fwd_id (fwd n') = fwd_id (fwd n)"
  shows "opened_ok n'"
  using assms by (auto simp: opened_ok_def Let_def)

lemma opened_ok_step: "net_step n n' \<Longrightarrow> ids_ok n \<Longrightarrow> opened_ok n \<Longrightarrow> opened_ok n'"
proof (induction rule: net_step.induct)
  case (h_register n w t)
  show ?case by (rule opened_ok_neutral [OF h_register.prems(2) neutral_frames(1)]) simp_all
next
  case (h_send_close n w i e)
  show ?case by (rule opened_ok_neutral [OF h_send_close.prems(2) neutral_frames(2)]) (simp_all add: SendClose_def)
next
  case (f_next n i s)
  then show ?case by (fastforce simp: opened_ok_def unat_next Let_def dest!: NextStreamId_frame)
next
  case (f_add n i fd ref s)
  then show ?case using AddConn_frame [OF f_add.hyps(2)] by (intro opened_ok_frame [OF f_add.prems(2)]) simp_all
next
  case (f_open n i ref w t sent s)
  let ?f = "new_frame\<lparr>f_stream_id := i, f_type := OPEN, f_target := t\<rparr>"
  have "unat i < unat (next_id (sess n))" using f_open.hyps(1) f_open.prems(1) by (simp add: ids_ok_def)
  then show ?case
    using f_open.hyps(1) f_open.prems Send_cases [OF f_open.hyps(2)]
    by (auto simp: opened_ok_def Let_def frames_ok_append sorted_wrt_append)
next
  case (p_data k n i ref w b sent s)
  let ?f = "new_frame\<lparr>f_stream_id := i, f_type := DATA, f_data := b\<rparr>"
  have "(i, ref) \<in> set (streams (pumps n))" using p_data.hyps(1,2) by (force simp: streams_def in_set_conv_nth)
  then show ?case
    using p_data.hyps(1,2) p_data.prems Send_cases [OF p_data.hyps(3) [unfolded SendData_def]]
    by (auto simp: opened_ok_def Let_def frames_ok_append)
next
  case (p_done k n i ref ours w)
  show ?case
  proof (cases ours)
    case True
    show ?thesis
      by (rule opened_ok_neutral [OF p_done.prems(2) neutral_frames(2) [of i "[]"], where w = w])
        (use p_done.hyps True in \<open>simp_all add: SendClose_def\<close>)
  qed (use p_done in \<open>auto intro: opened_ok_frame\<close>)
qed (auto intro: opened_ok_frame)

lemma opened_inv: "net_reach n \<Longrightarrow> opened_ok n"
proof (induction rule: net_reach.induct)
  case init
  show ?case by (simp add: opened_ok_def new_net_def new_session_def streams_def)
next
  case (step n n')
  then show ?case using opened_ok_step net_inv by blast
qed

text \<open>
  C23.  The protocol rules on stream ids hold over every interleaving of the server's threads: the
  ids of the OPEN frames on the tunnel are positive and strictly increasing, so none is used twice
  and 0 stays reserved, and every DATA frame comes after the OPEN frame of its stream.
\<close>

theorem server_frames_in_order:
  assumes "net_reach n"
  shows "let fs = sent_frames (sess n) in
    sorted_wrt (<) (opens fs) \<and> 0 \<notin> set (opens fs)
    \<and> (\<forall>k < length fs. f_type (fs ! k) = DATA \<longrightarrow>
         (\<exists>j < k. f_type (fs ! j) = OPEN \<and> f_stream_id (fs ! j) = f_stream_id (fs ! k)))"
proof -
  let ?fs = "sent_frames (sess n)"
  have ok: "frames_ok [] ?fs" and srt: "sorted_wrt (<) (map unat (opens ?fs))"
    and pos: "\<forall>i \<in> set (opens ?fs). 0 < unat i"
    using opened_inv [OF assms] by (simp_all add: opened_ok_def Let_def)
  have "\<exists>j < k. f_type (?fs ! j) = OPEN \<and> f_stream_id (?fs ! j) = f_stream_id (?fs ! k)"
    if k: "k < length ?fs" "f_type (?fs ! k) = DATA" for k
  proof -
    have "frames_ok [] (take k ?fs @ ?fs ! k # drop (Suc k) ?fs)" using ok k(1) by (simp add: id_take_nth_drop [symmetric])
    then have "f_stream_id (?fs ! k) \<in> set (opens (take k ?fs))" using k(2) by (simp add: frames_ok_append)
    then show ?thesis using k(1) by (auto simp: opens_def in_set_conv_nth)
  qed
  moreover have "sorted_wrt (<) (opens ?fs)"
    using srt unfolding sorted_wrt_map by (rule sorted_wrt_mono_rel [rotated]) (simp add: word_less_nat_alt)
  moreover have "0 \<notin> set (opens ?fs)" using pos by force
  ultimately show ?thesis by (simp add: Let_def)
qed

subsection \<open>Both ends\<close>

definition client_ok :: "Client \<Rightarrow> bool" where
  "client_ok k \<longleftrightarrow> table_ok (k_session k) \<and> (\<forall>e \<in> set (k_out k). fst e < length (heap (k_session k)))"

lemma client_ok_new: "client_ok new_client"
  by (simp add: client_ok_def new_client_def new_session_def table_ok_def smp.inv_empty)

lemma client_ok_frame:
  assumes "client_ok k"
  shows "client_ok (client_frame target rf k)"
proof -
  obtain r f where rf: "rf = (r, f)" by (cases rf)
  have ref: "ref < length (heap (k_session k))" if "GetConn (f_stream_id f) (k_session k) = Some ref" for ref
    using assms that by (auto simp: client_ok_def table_ok_def GetConn_def smap_find_Some_iff)
  have h: "length (heap (snd (CloseConn i s))) = length (heap s)" for i s
    by (simp add: CloseConn_def split: option.split)
  have a: "length (heap (snd (AddConn i fd s))) = Suc (length (heap s))" for i fd s
    by (simp add: AddConn_def Let_def)
  show ?thesis
    using assms ref
    by (cases "f_type f")
      (auto simp: client_ok_def rf client_frame_def data_frame_def close_frame_def open_frame_def h a
        table_ok_CloseConn table_ok_AddConn case_prod_beta Let_def intro: less_SucI split: option.split)
qed

lemma client_ok_run: "client_ok (for_each (client_frame target) rfs new_client)"
  by (rule for_each_invariant [where P = client_ok]) (simp_all add: client_ok_new client_ok_frame)

lemma open_splits:
  assumes "frames_ok [] fs" "i \<in> set (opens fs)"
  obtains pre f post where "fs = pre @ f # post" "f_type f = OPEN" "f_stream_id f = i"
    "\<forall>g \<in> set pre. f_type g = DATA \<longrightarrow> f_stream_id g \<noteq> i"
    "\<forall>g \<in> set post. f_type g = OPEN \<longrightarrow> f_stream_id g \<noteq> i"
proof -
  from assms(2) obtain f where "f \<in> set fs" "f_type f = OPEN" "f_stream_id f = i" by (auto simp: opens_def)
  then obtain pre post where fs: "fs = pre @ f # post" by (metis split_list)
  have ok: "frames_ok [] pre" "i \<notin> set (opens pre)" "frames_ok (i # rev (opens pre)) post"
    using assms(1) \<open>f_type f = OPEN\<close> \<open>f_stream_id f = i\<close> by (simp_all add: fs frames_ok_append)
  have in_pre: "f_stream_id g \<in> set ids \<union> set (opens gs)"
    if "frames_ok ids gs" "g \<in> set gs" "f_type g = DATA" for ids gs g
    using that by (induction ids gs rule: frames_ok.induct) (auto split: if_splits)
  have in_post: "f_stream_id g \<notin> set ids"
    if "frames_ok ids gs" "g \<in> set gs" "f_type g = OPEN" for ids gs g
    using that by (induction ids gs rule: frames_ok.induct) (auto split: if_splits)
  have "\<forall>g \<in> set pre. f_type g = DATA \<longrightarrow> f_stream_id g \<noteq> i" using in_pre [OF ok(1)] ok(2) by auto
  moreover have "\<forall>g \<in> set post. f_type g = OPEN \<longrightarrow> f_stream_id g \<noteq> i" using in_post [OF ok(3)] by auto
  ultimately show ?thesis using that fs \<open>f_type f = OPEN\<close> \<open>f_stream_id f = i\<close> by blast
qed

text \<open>The client reads the server's frames; \<open>rs\<close> are the outcomes of its local calls, all successful.\<close>

definition all_good :: "outcome list \<Rightarrow> bool" where
  "all_good rs \<longleftrightarrow> (\<forall>r \<in> set rs. o_wrote r \<and> 0 \<le> o_dial r)"

text \<open>
  C4.  End to end through the tunnel: take any state the server's threads can reach, and let a
  client that registered the name read the frames on the tunnel, its dials and local writes
  succeeding.  For every stream the server has opened and not closed, the client holds a socket
  for it, and the bytes written to that socket are the payloads the server's pump put on the
  tunnel for that stream, all of them, in order and unmixed with other streams, however the
  server's threads interleaved.
\<close>

theorem tunnel_delivers:
  assumes "net_reach n" "i \<in> set (opens (sent_frames (sess n)))"
    and "\<forall>f \<in> set (sent_frames (sess n)). (f_type f = OPEN \<longrightarrow> f_target f = target)
      \<and> (f_type f = CLOSE \<longrightarrow> f_stream_id f \<noteq> i)"
    and "length rs = length (sent_frames (sess n))" "all_good rs"
  shows "\<exists>ref. written_to ref (k_out (for_each (client_frame target) (zip rs (sent_frames (sess n))) new_client))
        = map f_data (filter (\<lambda>f. f_type f = DATA \<and> f_stream_id f = i) (sent_frames (sess n)))
    \<and> GetConn i (k_session (for_each (client_frame target) (zip rs (sent_frames (sess n))) new_client)) = Some ref"
proof -
  have "frames_ok [] (sent_frames (sess n))" using opened_inv [OF assms(1)] by (simp add: opened_ok_def Let_def)
  then obtain pre f post where fs: "sent_frames (sess n) = pre @ f # post" and f: "f_type f = OPEN" "f_stream_id f = i"
    and pre: "\<forall>g \<in> set pre. f_type g = DATA \<longrightarrow> f_stream_id g \<noteq> i"
    and post: "\<forall>g \<in> set post. f_type g = OPEN \<longrightarrow> f_stream_id g \<noteq> i"
    using assms(2) by (rule open_splits)
  from assms(4) obtain rpre r rpost where rs: "rs = rpre @ r # rpost" and len: "length rpre = length pre" "length rpost = length post"
    unfolding fs by (metis append_eq_conv_conj id_take_nth_drop length_append length_Cons length_drop length_take
        less_add_Suc1 min.absorb4 add_diff_cancel_left' diff_Suc_Suc diff_Suc_1 add_Suc_right)
  let ?k = "for_each (client_frame target) (zip rpre pre) new_client"
  have und: "list_all (undisturbed i) (zip rpost post)"
    using assms(3,5) post len by (auto simp: list_all_iff undisturbed_def fs rs all_good_def dest: set_zip_leftD set_zip_rightD)
  have good: "0 \<le> o_dial r" "f_target f = target" using assms(3,5) f by (auto simp: fs rs all_good_def)
  have k: "client_ok ?k" by (rule client_ok_run)
  have dat: "data_for i (zip rpost post) = map f_data (filter (\<lambda>f. f_type f = DATA \<and> f_stream_id f = i) (pre @ f # post))"
  proof -
    have "data_for i (zip rpost post) = map f_data (filter (\<lambda>f. f_type f = DATA \<and> f_stream_id f = i) post)"
      using len(2) by (induction rpost post rule: list_induct2) (auto simp: data_for_def)
    moreover have "filter (\<lambda>f. f_type f = DATA \<and> f_stream_id f = i) pre = []"
      using pre by (auto simp: filter_empty_conv)
    ultimately show ?thesis using f by simp
  qed
  have z: "zip rs (pre @ f # post) = zip rpre pre @ (r, f) # zip rpost post" using len by (simp add: rs)
  have "written_to (length (heap (k_session ?k))) (k_out (for_each (client_frame target) ((r, f) # zip rpost post) ?k))
      = data_for (f_stream_id f) (zip rpost post)
    \<and> stream_at (f_stream_id f) (length (heap (k_session ?k))) (for_each (client_frame target) ((r, f) # zip rpost post) ?k)"
    using k good und f by (intro client_open_stream) (auto simp: client_ok_def)
  then show ?thesis unfolding fs z f(2) dat stream_at_def for_each_append by blast
qed

text \<open>A run of the server in which the pump of stream 1 sends two pieces.\<close>

definition ex_sent :: Net where
  "ex_sent = ex_open\<lparr>sess := snd (SendData True 1 ''cd'' (snd (SendData True 1 ''ab'' (sess ex_open))))\<rparr>"

lemma reach_ex_sent: "net_reach ex_sent"
proof -
  have "net_reach (ex_open\<lparr>sess := snd (SendData True 1 ''ab'' (sess ex_open))\<rparr>)"
    by (rule reach_step [OF reach_ex_open net_step.p_data [of 0 _ 1 0 True "''ab''" True]])
      (simp_all add: ex_defs SendData_def)
  then show ?thesis
    by (rule reach_step [OF _ net_step.p_data [of 0 _ 1 0 True "''cd''" True]])
      (simp_all add: ex_sent_def ex_defs SendData_def)
qed

lemma ex_sent_frames: "sent_frames (sess ex_sent) =
    [new_frame\<lparr>f_type := REGISTER_ACK, f_target := ''ssh''\<rparr>,
     new_frame\<lparr>f_stream_id := 1, f_type := OPEN, f_target := ''ssh''\<rparr>,
     new_frame\<lparr>f_stream_id := 1, f_type := DATA, f_data := ''ab''\<rparr>,
     new_frame\<lparr>f_stream_id := 1, f_type := DATA, f_data := ''cd''\<rparr>]"
  by (simp add: ex_sent_def ex_defs SendData_def)

theorem server_frames_in_order_witness:
  "let fs = sent_frames (sess ex_sent) in length fs = 4 \<and> sorted_wrt (<) (opens fs) \<and> f_type (fs ! 3) = DATA
    \<and> (\<exists>j < 3. f_type (fs ! j) = OPEN \<and> f_stream_id (fs ! j) = f_stream_id (fs ! 3))"
proof -
  have "length (sent_frames (sess ex_sent)) = 4" "f_type (sent_frames (sess ex_sent) ! 3) = DATA"
    by (simp_all add: ex_sent_frames)
  with server_frames_in_order [OF reach_ex_sent] show ?thesis by (simp add: Let_def)
qed

theorem tunnel_delivers_witness:
  "\<exists>ref. written_to ref (k_out (for_each (client_frame ''ssh'')
     (zip (replicate 4 ok_outcome) (sent_frames (sess ex_sent))) new_client)) = [''ab'', ''cd'']"
proof -
  have "1 \<in> set (opens (sent_frames (sess ex_sent)))"
    "\<forall>f \<in> set (sent_frames (sess ex_sent)). (f_type f = OPEN \<longrightarrow> f_target f = ''ssh'')
      \<and> (f_type f = CLOSE \<longrightarrow> f_stream_id f \<noteq> 1)"
    "length (replicate 4 ok_outcome) = length (sent_frames (sess ex_sent))" "all_good (replicate 4 ok_outcome)"
    by (simp_all add: ex_sent_frames all_good_def ok_outcome_def)
  from tunnel_delivers [OF reach_ex_sent this] show ?thesis by (auto simp: ex_sent_frames simp del: for_each.simps)
qed

text \<open>
  A stream closed by the peer may still send: there is a reachable state in which the handler
  has applied the peer's CLOSE of stream 1 (the stream is out of the table, its socket is shut and
  marked closed) and the stream's pump, which had read some bytes before, sends one more DATA frame
  for it.
\<close>

theorem data_after_peer_close:
  "\<exists>n n'. net_reach n \<and> GetConn 1 (sess n) = None \<and> cn_closed (heap (sess n) ! 0) \<and> cn_shut (heap (sess n) ! 0)
     \<and> (1, 0, PRun) \<in> set (pumps n) \<and> net_step n n'
     \<and> sent_frames (sess n') = sent_frames (sess n) @ [new_frame\<lparr>f_stream_id := 1, f_type := DATA, f_data := b\<rparr>]"
proof -
  let ?n = "ex_open\<lparr>sess := shut_conn 0 (erase_conn 1 (sess ex_open))\<rparr>"
  have "net_reach (ex_open\<lparr>sess := erase_conn 1 (sess ex_open), pending := [0]\<rparr>)"
    by (rule net_reach.step [OF reach_ex_open net_step.h_close])
      (simp_all add: ex_defs GetConn_def smap_find_def)
  then have "net_reach ?n"
    by (rule reach_step [OF _ net_step.h_shut [of _ 0 "[]"]]) (simp_all add: ex_defs)
  moreover have "net_step ?n (?n\<lparr>sess := snd (SendData True 1 b (sess ?n)), pumps := (pumps ?n)[0 := (1, 0, PRun)]\<rparr>)"
    using net_step.p_data [of 0 ?n 1 0 True b True "snd (SendData True 1 b (sess ?n))"]
    by (simp add: ex_defs SendData_def erase_conn_def)
  moreover have "GetConn 1 (sess ?n) = None \<and> cn_closed (heap (sess ?n) ! 0) \<and> cn_shut (heap (sess ?n) ! 0)
      \<and> (1, 0, PRun) \<in> set (pumps ?n)
      \<and> sent_frames (snd (SendData True 1 b (sess ?n)))
        = sent_frames (sess ?n) @ [new_frame\<lparr>f_stream_id := 1, f_type := DATA, f_data := b\<rparr>]"
    by (simp add: ex_defs GetConn_def smap_find_def smap_erase_def SendData_def erase_conn_def)
  moreover define n' where "n' = ?n\<lparr>sess := snd (SendData True 1 b (sess ?n)), pumps := (pumps ?n)[0 := (1, 0, PRun)]\<rparr>"
  then have "sess n' = snd (SendData True 1 b (sess ?n))" by simp
  ultimately show ?thesis unfolding n'_def [symmetric] by (intro exI [of _ ?n] exI [of _ n']) simp
qed

end
