(* ===== verification/Client_Threads.thy ===== *)
theory Client_Threads
  imports Tunnel_Threads
begin

text \<open>
  The threads of the tunnel client during one attempt (\<open>RunTunnel\<close> and \<open>Keepalive\<close> in
  \<open>grpc-tunnel/src/tunnel_client.cc\<close>): the reader that handles frames and then takes everything
  down, the keepalive thread with its mutex, condition variable and flag, and one pump per stream.
  The steps are the critical sections and blocking points of the code; what arrives and what the
  writes return is arbitrary.  Creating the session, the REGISTER frame and starting the keepalive
  thread come before the initial state.

  \<open>c_main\<close> is where the reader is: reading frames; a connection added whose pump is not started yet;
  \<open>Finish\<close> returned; session shut down; table taken; at the destructor of \<open>Keepalive\<close>; holding its
  mutex; joining; returned.  \<open>c_ka\<close> is where the keepalive thread is: not started; at the head of the
  loop, holding the mutex; in \<open>wait_for\<close>; woken, holding the mutex; about to send, holding the mutex;
  ended.  \<open>c_late\<close> records that some thread has called \<open>Write\<close> on a stream whose \<open>Finish\<close> had returned.
\<close>

datatype mphase = MReading | MAdded u64 nat | MFinished | MDown | MClosing | MStop | MLocked | MJoin | MReturned

datatype kphase = KStart | KCheck | KWait | KWoken | KSend | KDone

datatype owner = ByMain | ByKeepalive

record Cli =
  c_sess :: Session
  c_main :: mphase
  c_pending :: "nat list"
  c_pumps :: "(u64 \<times> nat \<times> pphase) list"
  c_ka :: kphase
  c_mu :: "owner option"
  c_stop :: bool
  c_finished :: bool
  c_late :: bool

definition new_cli :: "string \<Rightarrow> Cli" where
  "new_cli target =
     \<lparr>c_sess = snd (Send True (new_frame\<lparr>f_type := REGISTER, f_target := target\<rparr>) new_session),
      c_main = MReading, c_pending = [], c_pumps = [], c_ka = KStart, c_mu = None, c_stop = False,
      c_finished = False, c_late = False\<rparr>"

text \<open>A call of \<open>Send\<close>: it reaches \<open>Write\<close> when the session is alive.\<close>

definition send_frame :: "bool \<Rightarrow> Frame \<Rightarrow> (Cli, bool) eff" where
  "send_frame w f c =
     (let (sent, s) = Send w f (c_sess c)
      in (sent, c\<lparr>c_sess := s, c_late := (c_late c \<or> (alive (c_sess c) \<and> c_finished c))\<rparr>))"

definition close_of :: "u64 \<Rightarrow> string \<Rightarrow> Frame" where
  "close_of i e = (let f = new_frame\<lparr>f_stream_id := i, f_type := CLOSE\<rparr> in if e \<noteq> [] then f\<lparr>f_error := e\<rparr> else f)"

inductive main_step :: "Cli \<Rightarrow> Cli \<Rightarrow> bool" where
  m_send_close: "c_main c = MReading \<Longrightarrow> send_frame w (close_of i e) c = (sent, c') \<Longrightarrow> main_step c c'"
| m_add: "c_main c = MReading \<Longrightarrow> c_pending c = [] \<Longrightarrow> AddConn i fd (c_sess c) = (ref, s) \<Longrightarrow>
    main_step c (c\<lparr>c_main := MAdded i ref, c_sess := s\<rparr>)"
| m_spawn: "c_main c = MAdded i ref \<Longrightarrow>
    main_step c (c\<lparr>c_main := MReading, c_pumps := c_pumps c @ [(i, ref, PRun)]\<rparr>)"
| m_close: "c_main c = MReading \<Longrightarrow> c_pending c = [] \<Longrightarrow> GetConn i (c_sess c) = Some ref \<Longrightarrow>
    main_step c (c\<lparr>c_sess := erase_conn i (c_sess c), c_pending := [ref]\<rparr>)"
| m_shut: "c_pending c = ref # rs \<Longrightarrow> main_step c (c\<lparr>c_sess := shut_conn ref (c_sess c), c_pending := rs\<rparr>)"
| m_finish: "c_main c = MReading \<Longrightarrow> c_pending c = [] \<Longrightarrow>
    main_step c (c\<lparr>c_main := MFinished, c_finished := True\<rparr>)"
| m_shutdown: "c_main c = MFinished \<Longrightarrow> main_step c (c\<lparr>c_main := MDown, c_sess := Shutdown (c_sess c)\<rparr>)"
| m_swap: "c_main c = MDown \<Longrightarrow>
    main_step c (c\<lparr>c_main := MClosing, c_sess := (c_sess c)\<lparr>conns := []\<rparr>,
      c_pending := map snd (conns (c_sess c))\<rparr>)"
| m_closed: "c_main c = MClosing \<Longrightarrow> c_pending c = [] \<Longrightarrow> main_step c (c\<lparr>c_main := MStop\<rparr>)"
| m_lock: "c_main c = MStop \<Longrightarrow> c_mu c = None \<Longrightarrow> main_step c (c\<lparr>c_main := MLocked, c_mu := Some ByMain\<rparr>)"
| m_stop: "c_main c = MLocked \<Longrightarrow> main_step c (c\<lparr>c_main := MJoin, c_stop := True, c_mu := None\<rparr>)"
| m_join: "c_main c = MJoin \<Longrightarrow> c_ka c = KDone \<Longrightarrow> main_step c (c\<lparr>c_main := MReturned\<rparr>)"

inductive ka_step :: "Cli \<Rightarrow> Cli \<Rightarrow> bool" where
  k_start: "c_ka c = KStart \<Longrightarrow> c_mu c = None \<Longrightarrow> ka_step c (c\<lparr>c_ka := KCheck, c_mu := Some ByKeepalive\<rparr>)"
| k_exit: "c_ka c = KCheck \<Longrightarrow> c_stop c \<Longrightarrow> ka_step c (c\<lparr>c_ka := KDone, c_mu := None\<rparr>)"
| k_wait: "c_ka c = KCheck \<Longrightarrow> \<not> c_stop c \<Longrightarrow> ka_step c (c\<lparr>c_ka := KWait, c_mu := None\<rparr>)"
| k_wake: "c_ka c = KWait \<Longrightarrow> c_mu c = None \<Longrightarrow> ka_step c (c\<lparr>c_ka := KWoken, c_mu := Some ByKeepalive\<rparr>)"
| k_stopped: "c_ka c = KWoken \<Longrightarrow> c_stop c \<Longrightarrow> ka_step c (c\<lparr>c_ka := KDone, c_mu := None\<rparr>)"
| k_timeout: "c_ka c = KWoken \<Longrightarrow> \<not> c_stop c \<Longrightarrow> ka_step c (c\<lparr>c_ka := KSend\<rparr>)"
| k_send: "c_ka c = KSend \<Longrightarrow> send_frame w (new_frame\<lparr>f_type := KEEPALIVE\<rparr>) c = (sent, c') \<Longrightarrow>
    ka_step c (if sent then c'\<lparr>c_ka := KCheck\<rparr> else c'\<lparr>c_ka := KDone, c_mu := None\<rparr>)"

text \<open>The condition variable may wake the thread for nothing; it then waits again.\<close>

inductive spurious :: "Cli \<Rightarrow> Cli \<Rightarrow> bool" where
  k_again: "c_ka c = KWoken \<Longrightarrow> \<not> c_stop c \<Longrightarrow> spurious c (c\<lparr>c_ka := KWait, c_mu := None\<rparr>)"

inductive pump_step :: "Cli \<Rightarrow> Cli \<Rightarrow> bool" where
  q_data: "k < length (c_pumps c) \<Longrightarrow> c_pumps c ! k = (i, ref, PRun) \<Longrightarrow>
    send_frame w (new_frame\<lparr>f_stream_id := i, f_type := DATA, f_data := b\<rparr>) c = (sent, c') \<Longrightarrow>
    pump_step c (c'\<lparr>c_pumps := (c_pumps c)[k := (i, ref, if sent then PRun else PLeft)]\<rparr>)"
| q_end: "k < length (c_pumps c) \<Longrightarrow> c_pumps c ! k = (i, ref, PRun) \<Longrightarrow>
    pump_step c (c\<lparr>c_pumps := (c_pumps c)[k := (i, ref, PLeft)]\<rparr>)"
| q_exchange: "k < length (c_pumps c) \<Longrightarrow> c_pumps c ! k = (i, ref, PLeft) \<Longrightarrow>
    pump_step c (c\<lparr>c_pumps := (c_pumps c)[k := (i, ref, PExchanged (\<not> cn_closed (heap (c_sess c) ! ref)))],
      c_sess := mark_closed ref (c_sess c)\<rparr>)"
| q_erase: "k < length (c_pumps c) \<Longrightarrow> c_pumps c ! k = (i, ref, PExchanged ours) \<Longrightarrow>
    pump_step c (c\<lparr>c_pumps := (c_pumps c)[k := (i, ref, PErased ours)], c_sess := erase_conn i (c_sess c)\<rparr>)"
| q_done: "k < length (c_pumps c) \<Longrightarrow> c_pumps c ! k = (i, ref, PErased ours) \<Longrightarrow>
    (if ours then send_frame w (close_of i []) c else (False, c)) = (sent, c') \<Longrightarrow>
    pump_step c (c'\<lparr>c_pumps := (c_pumps c)[k := (i, ref, PDone)]\<rparr>)"

definition cli_step :: "Cli \<Rightarrow> Cli \<Rightarrow> bool" where
  "cli_step c c' \<longleftrightarrow> main_step c c' \<or> ka_step c c' \<or> spurious c c' \<or> pump_step c c'"

inductive cli_reach :: "string \<Rightarrow> Cli \<Rightarrow> bool" for target where
  init: "cli_reach target (new_cli target)"
| step: "cli_reach target c \<Longrightarrow> cli_step c c' \<Longrightarrow> cli_reach target c'"

subsection \<open>Who holds what\<close>

fun fenced :: "mphase \<Rightarrow> bool" where
  "fenced MReading = False"
| "fenced (MAdded i r) = False"
| "fenced MFinished = False"
| "fenced _ = True"

definition cli_ok :: "Cli \<Rightarrow> bool" where
  "cli_ok c \<longleftrightarrow> (c_mu c = Some ByKeepalive \<longleftrightarrow> c_ka c \<in> {KCheck, KWoken, KSend})
     \<and> (c_mu c = Some ByMain \<longleftrightarrow> c_main c = MLocked)
     \<and> (c_stop c \<longleftrightarrow> c_main c \<in> {MJoin, MReturned})
     \<and> (alive (c_sess c) \<longleftrightarrow> \<not> fenced (c_main c))
     \<and> (c_main c \<notin> {MReading, MClosing} \<longrightarrow> c_pending c = [])
     \<and> (c_main c = MReturned \<longrightarrow> c_ka c = KDone)"

lemma send_frame_sel:
  assumes "send_frame w f c = (sent, c')"
  shows "c_main c' = c_main c" "c_pending c' = c_pending c" "c_pumps c' = c_pumps c" "c_ka c' = c_ka c"
    "c_mu c' = c_mu c" "c_stop c' = c_stop c" "c_finished c' = c_finished c"
    "alive (c_sess c') = alive (c_sess c)" "conns (c_sess c') = conns (c_sess c)"
    "heap (c_sess c') = heap (c_sess c)" "sent \<longrightarrow> alive (c_sess c)"
    "\<not> alive (c_sess c) \<longrightarrow> c' = c"
  using assms by (auto simp: send_frame_def Send_def split: if_splits prod.splits)

lemma main_step_ok: "main_step c c' \<Longrightarrow> cli_ok c \<Longrightarrow> cli_ok c'"
proof (induction rule: main_step.induct)
  case (m_send_close c w i e sent c')
  then show ?case using send_frame_sel [OF m_send_close.hyps(2)] by (simp add: cli_ok_def)
next
  case (m_add c i fd ref s)
  then show ?case using AddConn_frame [OF m_add.hyps(3)] by (simp add: cli_ok_def)
qed (auto simp: cli_ok_def)

lemma ka_step_ok: "ka_step c c' \<Longrightarrow> cli_ok c \<Longrightarrow> cli_ok c'"
proof (induction rule: ka_step.induct)
  case (k_send c w sent c')
  then show ?case using send_frame_sel [OF k_send.hyps(2)] by (auto simp: cli_ok_def)
qed (auto simp: cli_ok_def)

lemma spurious_ok: "spurious c c' \<Longrightarrow> cli_ok c \<Longrightarrow> cli_ok c'"
  by (induction rule: spurious.induct) (auto simp: cli_ok_def)

lemma pump_step_frame:
  assumes "pump_step c c'"
  shows "c_main c' = c_main c \<and> c_pending c' = c_pending c \<and> c_ka c' = c_ka c \<and> c_mu c' = c_mu c
    \<and> c_stop c' = c_stop c \<and> alive (c_sess c') = alive (c_sess c)
    \<and> length (conns (c_sess c')) \<le> length (conns (c_sess c))"
  using assms
proof (induction rule: pump_step.induct)
  case (q_data k c i ref w b sent c')
  then show ?case using send_frame_sel(1-9) [OF q_data.hyps(3)] by simp
next
  case (q_done k c i ref ours w sent c')
  show ?case
  proof (cases ours)
    case True
    with q_done.hyps(3) have "send_frame w (close_of i []) c = (sent, c')" by simp
    from send_frame_sel(1-9) [OF this] show ?thesis by simp
  qed (use q_done.hyps(3) in simp)
qed (simp_all add: smap_erase_def)

lemma cli_inv: "cli_reach target c \<Longrightarrow> cli_ok c"
proof (induction rule: cli_reach.induct)
  case init
  show ?case by (auto simp: cli_ok_def new_cli_def new_session_def Send_def)
next
  case (step c c')
  then consider "main_step c c'" | "ka_step c c'" | "spurious c c'" | "pump_step c c'"
    by (auto simp: cli_step_def)
  then show ?case
  proof cases
    case 4
    with step.IH show ?thesis using pump_step_frame [OF 4] by (simp add: cli_ok_def)
  qed (use step.IH main_step_ok ka_step_ok spurious_ok in blast)+
qed

subsection \<open>The fence\<close>

lemma send_frame_dead: "\<not> alive (c_sess c) \<Longrightarrow> send_frame w f c = (False, c)"
  by (simp add: send_frame_def Send_dead)

definition written_by_client :: "Cli \<Rightarrow> Frame list \<times> bool" where
  "written_by_client c = (sent_frames (c_sess c), c_late c)"

definition quiet :: "Cli \<Rightarrow> Cli \<Rightarrow> bool" where
  "quiet c c' \<longleftrightarrow> \<not> alive (c_sess c') \<and> written_by_client c' = written_by_client c"

lemma fenced_main: "main_step c c' \<Longrightarrow> \<not> alive (c_sess c) \<Longrightarrow> cli_ok c \<Longrightarrow> quiet c c'"
proof (induction rule: main_step.induct)
  case (m_add c i fd ref s)
  then show ?case by (simp add: cli_ok_def)
qed (auto simp: quiet_def written_by_client_def send_frame_dead cli_ok_def)

lemma fenced_step:
  assumes "cli_step c c'" "\<not> alive (c_sess c)" "cli_ok c"
  shows "quiet c c'"
proof -
  have "ka_step c c' \<Longrightarrow> \<not> alive (c_sess c) \<Longrightarrow> quiet c c'"
    by (induction rule: ka_step.induct) (auto simp: quiet_def written_by_client_def send_frame_dead)
  moreover have "spurious c c' \<Longrightarrow> \<not> alive (c_sess c) \<Longrightarrow> quiet c c'"
    by (induction rule: spurious.induct) (simp add: quiet_def written_by_client_def)
  moreover have "pump_step c c' \<Longrightarrow> \<not> alive (c_sess c) \<Longrightarrow> quiet c c'"
    by (induction rule: pump_step.induct) (auto simp: quiet_def written_by_client_def send_frame_dead split: if_splits)
  ultimately show ?thesis using assms fenced_main by (auto simp: cli_step_def)
qed

interpretation cli: write_fence cli_step "cli_reach target" "\<lambda>c. \<not> alive (c_sess c)" written_by_client
  by unfold_locales (use cli_reach.step fenced_step cli_inv in \<open>auto simp: quiet_def\<close>)

text \<open>
  C25.  After the reader has shut the session down, no thread of the client calls \<open>Write\<close> on the
  stream again, whatever the pumps and the keepalive thread still do and in whatever order; and when
  the attempt has returned the keepalive thread has ended, so neither the stream nor the mutex that
  are then destroyed is touched any more.
\<close>

theorem client_fence:
  assumes "cli_reach target c" "fenced (c_main c)" "cli_step\<^sup>*\<^sup>* c c'"
  shows "sent_frames (c_sess c') = sent_frames (c_sess c) \<and> c_late c' = c_late c
    \<and> (c_main c' = MReturned \<longrightarrow> c_ka c' = KDone \<and> c_mu c' = None)"
proof -
  have "cli_reach target c' \<and> written_by_client c' = written_by_client c"
    using cli.fence [OF assms(3,1)] cli_inv [OF assms(1)] assms(2) by (simp add: cli_ok_def)
  moreover from this have "cli_ok c'" by (blast intro: cli_inv)
  then have "c_main c' = MReturned \<longrightarrow> c_ka c' = KDone \<and> c_mu c' = None"
    by (cases "c_mu c'"; cases "the (c_mu c')") (auto simp: cli_ok_def)
  ultimately show ?thesis by (simp add: written_by_client_def)
qed

subsection \<open>The join ends\<close>

text \<open>An upper bound on the steps the reader and the keepalive thread still take, once fenced.\<close>

fun main_rank :: "mphase \<Rightarrow> nat \<Rightarrow> nat \<Rightarrow> nat" where
  "main_rank MDown open_streams to_shut = 5 + open_streams"
| "main_rank MClosing open_streams to_shut = 4 + to_shut"
| "main_rank MStop open_streams to_shut = 3"
| "main_rank MLocked open_streams to_shut = 2"
| "main_rank MJoin open_streams to_shut = 1"
| "main_rank _ open_streams to_shut = 0"

fun ka_rank :: "kphase \<Rightarrow> nat" where
  "ka_rank KStart = 5"
| "ka_rank KCheck = 4"
| "ka_rank KWait = 3"
| "ka_rank KWoken = 2"
| "ka_rank KSend = 1"
| "ka_rank KDone = 0"

definition teardown_rank :: "Cli \<Rightarrow> nat" where
  "teardown_rank c = main_rank (c_main c) (OpenStreams (c_sess c)) (length (c_pending c)) + ka_rank (c_ka c)"

lemma main_step_rank:
  "main_step c c' \<Longrightarrow> cli_ok c \<Longrightarrow> fenced (c_main c) \<Longrightarrow> teardown_rank c' < teardown_rank c"
proof (induction rule: main_step.induct)
  case (m_shut c ref rs)
  then have "c_main c = MClosing" by (cases "c_main c") (auto simp: cli_ok_def)
  with m_shut show ?case by (simp add: teardown_rank_def)
qed (auto simp: teardown_rank_def OpenStreams_def)

lemma ka_step_rank:
  "ka_step c c' \<Longrightarrow> cli_ok c \<Longrightarrow> fenced (c_main c) \<Longrightarrow> teardown_rank c' < teardown_rank c"
proof (induction rule: ka_step.induct)
  case (k_send c w sent c')
  then have "\<not> alive (c_sess c)" by (simp add: cli_ok_def)
  then have "\<not> sent" "c' = c" using k_send.hyps(2) send_frame_dead by auto
  with k_send.hyps(1) show ?case by (simp add: teardown_rank_def)
qed (auto simp: teardown_rank_def)

lemma pump_step_rank: "pump_step c c' \<Longrightarrow> teardown_rank c' \<le> teardown_rank c"
  using pump_step_frame [of c c'] by (cases "c_main c") (auto simp: teardown_rank_def OpenStreams_def)

lemma ka_progress:
  assumes "cli_ok c" "c_mu c \<noteq> Some ByMain" "c_ka c \<noteq> KDone"
  shows "\<exists>c'. ka_step c c'"
proof (cases "c_ka c")
  case KStart
  with assms(1,2) have "c_mu c = None" by (cases "c_mu c"; cases "the (c_mu c)") (auto simp: cli_ok_def)
  with KStart show ?thesis by (blast intro: k_start)
next
  case KWait
  with assms(1,2) have "c_mu c = None" by (cases "c_mu c"; cases "the (c_mu c)") (auto simp: cli_ok_def)
  with KWait show ?thesis by (blast intro: k_wake)
next
  case KCheck
  then show ?thesis by (cases "c_stop c") (blast intro: k_exit k_wait)+
next
  case KWoken
  then show ?thesis by (cases "c_stop c") (blast intro: k_stopped k_timeout)+
next
  case KSend
  obtain sent c' where "send_frame False (new_frame\<lparr>f_type := KEEPALIVE\<rparr>) c = (sent, c')" by fastforce
  with KSend show ?thesis by (blast intro: k_send)
qed (use assms(3) in simp)

lemma teardown_progress:
  assumes "cli_ok c" "fenced (c_main c)" "c_main c \<noteq> MReturned"
  shows "\<exists>c'. main_step c c' \<or> ka_step c c'"
proof (cases "c_main c")
  case MClosing
  then show ?thesis by (cases "c_pending c") (blast intro: m_closed m_shut)+
next
  case MStop
  show ?thesis
  proof (cases "c_mu c = None")
    case False
    then have "c_mu c \<noteq> Some ByMain" "c_ka c \<noteq> KDone"
      using MStop assms(1) by (cases "the (c_mu c)"; auto simp: cli_ok_def)+
    then show ?thesis using ka_progress [OF assms(1)] by blast
  qed (use MStop m_lock in blast)
next
  case MJoin
  then have "c_mu c \<noteq> Some ByMain" using assms(1) by (simp add: cli_ok_def)
  with MJoin show ?thesis using ka_progress [OF assms(1)] m_join by blast
qed (use assms m_swap m_stop in auto)

text \<open>The reader's and the keepalive thread's own steps, and any steps of the pumps between them.\<close>

definition own_step :: "Cli \<Rightarrow> Cli \<Rightarrow> bool" where
  "own_step c c' \<longleftrightarrow> (\<exists>d. pump_step\<^sup>*\<^sup>* c d \<and> (main_step d c' \<or> ka_step d c'))"

lemma pump_steps_keep:
  "pump_step\<^sup>*\<^sup>* c d \<Longrightarrow> cli_reach target c \<Longrightarrow>
     cli_reach target d \<and> teardown_rank d \<le> teardown_rank c \<and> c_main d = c_main c"
proof (induction rule: rtranclp_induct)
  case (step d e)
  then have "cli_reach target e" by (auto intro: cli_reach.step simp: cli_step_def)
  with step show ?case using pump_step_rank [OF step.hyps(2)] pump_step_frame [OF step.hyps(2)] by auto
qed simp

lemma main_stays_fenced: "main_step c c' \<Longrightarrow> cli_ok c \<Longrightarrow> fenced (c_main c) \<Longrightarrow> fenced (c_main c')"
  by (induction rule: main_step.induct) (auto dest: send_frame_sel)

lemma ka_keeps_main: "ka_step c c' \<Longrightarrow> c_main c' = c_main c"
  by (induction rule: ka_step.induct) (auto dest: send_frame_sel)

lemma own_step_rank:
  assumes "own_step c c'" "cli_reach target c" "fenced (c_main c)"
  shows "cli_reach target c' \<and> fenced (c_main c') \<and> teardown_rank c' < teardown_rank c"
proof -
  from assms(1) obtain d where p: "pump_step\<^sup>*\<^sup>* c d" and s: "main_step d c' \<or> ka_step d c'"
    by (auto simp: own_step_def)
  from pump_steps_keep [OF p assms(2)] have d: "cli_reach target d" "teardown_rank d \<le> teardown_rank c" "c_main d = c_main c"
    by auto
  have ok: "cli_ok d" using d(1) by (rule cli_inv)
  have "teardown_rank c' < teardown_rank d" "fenced (c_main c')"
    using s ok assms(3) d(3) main_step_rank [of d c'] ka_step_rank [of d c'] main_stays_fenced [of d c'] ka_keeps_main [of d c']
    by auto
  moreover have "cli_reach target c'" using s d(1) by (auto intro: cli_reach.step simp: cli_step_def)
  ultimately show ?thesis using d(2) by simp
qed

text \<open>
  C12.  Tearing an attempt down always ends: once the session is shut down, the reader and the
  keepalive thread take at most \<open>teardown_rank\<close> steps between them, whatever the pumps do meanwhile
  and apart from wake-ups of the condition variable for nothing; and as long as the attempt has not
  returned one of the two can take a step.  So the lock in the destructor of \<open>Keepalive\<close> and the
  join cannot deadlock, also when the keepalive thread is in the middle of a send.
\<close>

theorem client_teardown_ends:
  assumes "cli_reach target c" "fenced (c_main c)" "(own_step ^^ k) c c'"
  shows "k \<le> teardown_rank c \<and> (c_main c' = MReturned \<or> (\<exists>c''. own_step c' c''))"
proof -
  have "cli_reach target c' \<and> fenced (c_main c') \<and> teardown_rank c' + k \<le> teardown_rank c"
    using assms(3)
  proof (induction k arbitrary: c')
    case 0
    then show ?case using assms(1,2) by simp
  next
    case (Suc k)
    then obtain d where "(own_step ^^ k) c d" "own_step d c'" by auto
    with Suc.IH [of d] own_step_rank [of d c' target] show ?case by fastforce
  qed
  moreover from this have "c_main c' \<noteq> MReturned \<Longrightarrow> \<exists>c''. own_step c' c''"
    using teardown_progress [of c'] cli_inv by (auto simp: own_step_def)
  ultimately show ?thesis by auto
qed

subsection \<open>Runs\<close>

lemma cli_reach_main: "cli_reach target c \<Longrightarrow> main_step c c' \<Longrightarrow> cli_reach target c'"
  and cli_reach_ka: "cli_reach target c \<Longrightarrow> ka_step c c' \<Longrightarrow> cli_reach target c'"
  by (auto intro: cli_reach.step simp: cli_step_def)

text \<open>An attempt with no stream that the server ends at once, shut down, and then returned.\<close>

definition ex_fenced :: Cli where
  "ex_fenced = (new_cli ''edge-1'')\<lparr>c_main := MDown, c_finished := True, c_sess := Shutdown (c_sess (new_cli ''edge-1''))\<rparr>"

lemma reach_ex_fenced: "cli_reach ''edge-1'' ex_fenced"
proof -
  let ?c = "(new_cli ''edge-1'')\<lparr>c_main := MFinished, c_finished := True\<rparr>"
  have "cli_reach ''edge-1'' ?c"
    by (rule cli_reach_main [OF cli_reach.init m_finish]) (simp_all add: new_cli_def)
  moreover have "main_step ?c ex_fenced"
    using m_shutdown [of ?c] by (simp add: ex_fenced_def new_cli_def)
  ultimately show ?thesis by (rule cli_reach_main)
qed

lemma ex_fenced_step: "ka_step ex_fenced (ex_fenced\<lparr>c_ka := KCheck, c_mu := Some ByKeepalive\<rparr>)"
  by (rule k_start) (simp_all add: ex_fenced_def new_cli_def)

theorem client_fence_witness:
  "let c' = ex_fenced\<lparr>c_ka := KCheck, c_mu := Some ByKeepalive\<rparr> in
   cli_reach ''edge-1'' ex_fenced \<and> cli_step\<^sup>*\<^sup>* ex_fenced c' \<and> length (sent_frames (c_sess c')) = 1"
proof -
  let ?c' = "ex_fenced\<lparr>c_ka := KCheck, c_mu := Some ByKeepalive\<rparr>"
  have "cli_step ex_fenced ?c'" using ex_fenced_step by (simp add: cli_step_def)
  then have r: "cli_step\<^sup>*\<^sup>* ex_fenced ?c'" by (rule r_into_rtranclp)
  have "sent_frames (c_sess ?c') = sent_frames (c_sess ex_fenced)"
    using client_fence [OF reach_ex_fenced _ r] by (simp add: ex_fenced_def)
  moreover have "length (sent_frames (c_sess ex_fenced)) = 1"
    by (simp add: ex_fenced_def new_cli_def new_session_def Send_def)
  ultimately show ?thesis using r reach_ex_fenced by (simp add: Let_def)
qed

theorem client_teardown_ends_witness:
  "1 \<le> teardown_rank ex_fenced \<and> teardown_rank ex_fenced = 10
   \<and> (\<exists>c''. own_step (ex_fenced\<lparr>c_ka := KCheck, c_mu := Some ByKeepalive\<rparr>) c'')"
proof -
  let ?c' = "ex_fenced\<lparr>c_ka := KCheck, c_mu := Some ByKeepalive\<rparr>"
  have "own_step ex_fenced ?c'" using ex_fenced_step by (auto simp: own_step_def)
  then have "(own_step ^^ 1) ex_fenced ?c'" by (simp add: eq_OO)
  from client_teardown_ends [OF reach_ex_fenced _ this]
  have "1 \<le> teardown_rank ex_fenced \<and> (c_main ?c' = MReturned \<or> (\<exists>c''. own_step ?c' c''))"
    by (simp add: ex_fenced_def)
  moreover have "c_main ?c' \<noteq> MReturned" "teardown_rank ex_fenced = 10"
    by (simp_all add: ex_fenced_def new_cli_def teardown_rank_def new_session_def Send_def OpenStreams_def)
  ultimately show ?thesis by simp
qed

text \<open>
  C33.  The fence comes too late for \<open>Finish\<close>: the reader waits for the final status before it shuts
  the session down, so an attempt can reach a state in which the keepalive thread has written a
  frame on a stream whose \<open>Finish\<close> had already returned.
\<close>

theorem write_after_finish:
  "\<exists>c. cli_reach target c \<and> c_finished c \<and> c_late c
     \<and> last (sent_frames (c_sess c)) = new_frame\<lparr>f_type := KEEPALIVE\<rparr>"
proof -
  let ?c = "new_cli target" and ?f = "new_frame\<lparr>f_type := KEEPALIVE\<rparr>"
  let ?k = "\<lambda>p m. ?c\<lparr>c_ka := p, c_mu := m\<rparr>"
  let ?s = "?c\<lparr>c_ka := KSend, c_mu := Some ByKeepalive\<rparr>"
  let ?d = "?s\<lparr>c_main := MFinished, c_finished := True\<rparr>"
  have "cli_reach target (?k KCheck (Some ByKeepalive))"
    by (rule cli_reach_ka [OF cli_reach.init k_start]) (simp_all add: new_cli_def)
  moreover have "ka_step (?k KCheck (Some ByKeepalive)) (?k KWait None)"
    using k_wait [of "?k KCheck (Some ByKeepalive)"] by (simp add: new_cli_def)
  ultimately have "cli_reach target (?k KWait None)" by (rule cli_reach_ka)
  moreover have "ka_step (?k KWait None) (?k KWoken (Some ByKeepalive))"
    using k_wake [of "?k KWait None"] by (simp add: new_cli_def)
  ultimately have "cli_reach target (?k KWoken (Some ByKeepalive))" by (rule cli_reach_ka)
  moreover have "ka_step (?k KWoken (Some ByKeepalive)) ?s"
    using k_timeout [of "?k KWoken (Some ByKeepalive)"] by (simp add: new_cli_def)
  ultimately have "cli_reach target ?s" by (rule cli_reach_ka)
  then have d: "cli_reach target ?d"
    by (rule cli_reach_main [OF _ m_finish]) (simp_all add: new_cli_def)
  obtain sent c' where s: "send_frame True ?f ?d = (sent, c')" by fastforce
  then have sent: "sent" "c_finished c'" "c_late c'" "last (sent_frames (c_sess c')) = ?f"
    by (auto simp: send_frame_def new_cli_def new_session_def Send_def)
  have "ka_step ?d (c'\<lparr>c_ka := KCheck\<rparr>)" using k_send [OF _ s] sent(1) by simp
  with d have "cli_reach target (c'\<lparr>c_ka := KCheck\<rparr>)" by (rule cli_reach_ka)
  with sent show ?thesis by (intro exI [of _ "c'\<lparr>c_ka := KCheck\<rparr>"]) simp
qed

end
