(* ===== verification/Tunnel_Duplex.thy ===== *)
theory Tunnel_Duplex
  imports Tunnel_Back Tunnel_Wire Client_Threads
begin

text \<open>
  Both ends of the tunnel at once: the threads of the server (\<open>Tunnel_Back\<close>) and of the client
  (\<open>Client_Threads\<close>) interleaved, with the two streams of frames between them.  What the client writes
  goes to the end of the frames the server has not read (\<open>bk_in\<close>); \<open>dx_got\<close> is how many of the server's
  frames the client has read.  The client makes a connection only for an OPEN frame it reads
  (\<open>grpc-tunnel/src/tunnel_client.cc\<close>, the OPEN branch of \<open>RunTunnel\<close>); everything else it does on a frame,
  and refusing an OPEN, is a step of \<open>cli_step\<close>, which may happen at any time.
\<close>

record Duplex =
  dx_back :: Back
  dx_cli :: Cli
  dx_got :: nat

abbreviation dx_net :: "Duplex \<Rightarrow> Net" where
  "dx_net d \<equiv> bk_net (dx_back d)"

abbreviation dx_down :: "Duplex \<Rightarrow> Frame list" where
  "dx_down d \<equiv> sent_frames (sess (dx_net d))"

abbreviation dx_up :: "Duplex \<Rightarrow> Frame list" where
  "dx_up d \<equiv> sent_frames (c_sess (dx_cli d))"

definition new_duplex :: "string \<Rightarrow> Duplex" where
  "new_duplex target =
     \<lparr>dx_back = new_back (sent_frames (c_sess (new_cli target))), dx_cli = new_cli target, dx_got = 0\<rparr>"

text \<open>The frames a step of the client has written.\<close>

definition new_frames :: "Cli \<Rightarrow> Cli \<Rightarrow> Frame list" where
  "new_frames c c' = drop (length (sent_frames (c_sess c))) (sent_frames (c_sess c'))"

inductive duplex_step :: "Duplex \<Rightarrow> Duplex \<Rightarrow> bool" where
  d_server: "back_step (dx_back d) b \<Longrightarrow> duplex_step d (d\<lparr>dx_back := b\<rparr>)"
| d_client: "cli_step (dx_cli d) c \<Longrightarrow> \<forall>i r. c_main c = MAdded i r \<longrightarrow> c_main (dx_cli d) = MAdded i r \<Longrightarrow>
    duplex_step d (d\<lparr>dx_cli := c, dx_back := (dx_back d)\<lparr>bk_in := bk_in (dx_back d) @ new_frames (dx_cli d) c\<rparr>\<rparr>)"
| d_read: "dx_got d < length (dx_down d) \<Longrightarrow> duplex_step d (d\<lparr>dx_got := dx_got d + 1\<rparr>)"
| d_open: "dx_got d < length (dx_down d) \<Longrightarrow> dx_down d ! dx_got d = f \<Longrightarrow> f_type f = OPEN \<Longrightarrow>
    c_main (dx_cli d) = MReading \<Longrightarrow> c_pending (dx_cli d) = [] \<Longrightarrow>
    AddConn (f_stream_id f) fd (c_sess (dx_cli d)) = (ref, s) \<Longrightarrow>
    duplex_step d (d\<lparr>dx_cli := (dx_cli d)\<lparr>c_main := MAdded (f_stream_id f) ref, c_sess := s\<rparr>, dx_got := dx_got d + 1\<rparr>)"

inductive duplex_reach :: "string \<Rightarrow> Duplex \<Rightarrow> bool" for target where
  init: "duplex_reach target (new_duplex target)"
| step: "duplex_reach target d \<Longrightarrow> duplex_step d d' \<Longrightarrow> duplex_reach target d'"

subsection \<open>The client speaks of streams it was told of\<close>

definition data_ids :: "Frame list \<Rightarrow> u64 set" where
  "data_ids fs = f_stream_id ` {f \<in> set fs. f_type f = DATA}"

definition cli_ids :: "Cli \<Rightarrow> u64 set" where
  "cli_ids c = fst ` set (c_pumps c) \<union> {i. \<exists>r. c_main c = MAdded i r} \<union> data_ids (sent_frames (c_sess c))"

lemma data_ids_append [simp]: "data_ids (fs @ gs) = data_ids fs \<union> data_ids gs"
  by (auto simp: data_ids_def)

lemma data_ids_single [simp]: "data_ids [f] = (if f_type f = DATA then {f_stream_id f} else {})" "data_ids [] = {}"
  by (auto simp: data_ids_def)

lemma close_of_type [simp]: "f_type (close_of i e) = CLOSE"
  by (simp add: close_of_def Let_def)

lemma send_frame_sent:
  assumes "send_frame w f c = (sent, c')"
  obtains fs where "sent_frames (c_sess c') = sent_frames (c_sess c) @ fs" "data_ids fs \<subseteq> data_ids [f]"
proof -
  have "sent_frames (c_sess c') = sent_frames (c_sess c) @ (if sent then [f] else [])"
    using assms by (auto simp: send_frame_def Send_def split: if_splits prod.splits)
  then show ?thesis by (rule that) auto
qed

lemma pump_ids: "k < length ps \<Longrightarrow> ps ! k = (i, ref, st) \<Longrightarrow> i \<in> fst ` set ps"
  by (metis fst_conv image_eqI nth_mem)

lemma pumps_update_ids:
  assumes "k < length ps" "ps ! k = (i, ref, st)"
  shows "fst ` set (ps[k := (i, ref, st')]) \<subseteq> fst ` set ps"
proof -
  have "fst ` set (ps[k := (i, ref, st')]) \<subseteq> fst ` insert (i, ref, st') (set ps)"
    by (rule image_mono, rule set_update_subset_insert)
  then show ?thesis using pump_ids [OF assms] by auto
qed

text \<open>A step that writes nothing, and one that writes a frame.\<close>

definition keeps_ids :: "Cli \<Rightarrow> Cli \<Rightarrow> bool" where
  "keeps_ids c c' \<longleftrightarrow> cli_ids c' \<subseteq> cli_ids c \<and> prefix (sent_frames (c_sess c)) (sent_frames (c_sess c'))"

lemma keeps_quiet:
  assumes "fst ` set (c_pumps c') \<subseteq> fst ` set (c_pumps c)" "c_main c' = c_main c \<or> (\<forall>i r. c_main c' \<noteq> MAdded i r)"
    "sent_frames (c_sess c') = sent_frames (c_sess c)"
  shows "keeps_ids c c'"
proof -
  have "{i. \<exists>r. c_main c' = MAdded i r} \<subseteq> {i. \<exists>r. c_main c = MAdded i r}" using assms(2) by (elim disjE) simp_all
  with assms(1,3) show ?thesis unfolding keeps_ids_def cli_ids_def by auto
qed

lemma keeps_send:
  assumes "send_frame w f c = (sent, c0)" "f_type f = DATA \<longrightarrow> f_stream_id f \<in> fst ` set (c_pumps c)"
    and "fst ` set (c_pumps c') \<subseteq> fst ` set (c_pumps c)" "c_main c' = c_main c" "c_sess c' = c_sess c0"
  shows "keeps_ids c c'"
proof -
  obtain fs where "sent_frames (c_sess c0) = sent_frames (c_sess c) @ fs" "data_ids fs \<subseteq> data_ids [f]"
    by (rule send_frame_sent [OF assms(1)])
  moreover have "data_ids [f] \<subseteq> fst ` set (c_pumps c)" using assms(2) by auto
  ultimately show ?thesis using assms(3) unfolding keeps_ids_def cli_ids_def assms(4,5) by auto
qed

lemma main_step_ids: "main_step c c' \<Longrightarrow> keeps_ids c c' \<or> (\<exists>i r. c_main c' = MAdded i r \<and> c_main c = MReading)"
proof (induction rule: main_step.induct)
  case (m_send_close c w i e sent c')
  have "keeps_ids c c'"
    using send_frame_sel(1,3) [OF m_send_close.hyps(2)] by (intro keeps_send [OF m_send_close.hyps(2)]) simp_all
  then show ?case ..
next
  case (m_spawn c i ref)
  then have "i \<in> {i. \<exists>r. c_main c = MAdded i r}" by simp
  then have "keeps_ids c (c\<lparr>c_main := MReading, c_pumps := c_pumps c @ [(i, ref, PRun)]\<rparr>)"
    by (simp add: keeps_ids_def cli_ids_def) blast
  then show ?case ..
qed (simp, (rule disjI1, rule keeps_quiet, simp, simp, simp)+)

lemma ka_step_ids: "ka_step c c' \<Longrightarrow> keeps_ids c c'"
proof (induction rule: ka_step.induct)
  case (k_send c w sent c')
  show ?case using send_frame_sel(1,3) [OF k_send.hyps(2)] by (intro keeps_send [OF k_send.hyps(2)]) simp_all
qed (rule keeps_quiet, simp_all)+

lemma pump_step_ids: "pump_step c c' \<Longrightarrow> keeps_ids c c'"
proof (induction rule: pump_step.induct)
  case (q_data k c i ref w b sent c')
  then show ?case
    using send_frame_sel [OF q_data.hyps(3)] pump_ids [OF q_data.hyps(1,2)] pumps_update_ids [OF q_data.hyps(1,2)]
    by (intro keeps_send [OF q_data.hyps(3)]) simp_all
next
  case (q_end k c i ref)
  then show ?case by (intro keeps_quiet) (simp_all add: pumps_update_ids)
next
  case (q_exchange k c i ref)
  then show ?case by (intro keeps_quiet) (simp_all add: pumps_update_ids)
next
  case (q_erase k c i ref ours)
  then show ?case by (intro keeps_quiet) (simp_all add: pumps_update_ids)
next
  case (q_done k c i ref ours w sent c')
  show ?case
  proof (cases ours)
    case True
    then have sf: "send_frame w (close_of i []) c = (sent, c')" using q_done.hyps(3) by simp
    show ?thesis
      using send_frame_sel [OF sf] pumps_update_ids [OF q_done.hyps(1,2)] by (intro keeps_send [OF sf]) simp_all
  next
    case False
    then show ?thesis using q_done.hyps pumps_update_ids [OF q_done.hyps(1,2)] by (intro keeps_quiet) simp_all
  qed
qed

lemma cli_step_ids:
  assumes "cli_step c c'" "\<forall>i r. c_main c' = MAdded i r \<longrightarrow> c_main c = MAdded i r"
  shows "keeps_ids c c'"
proof -
  have "spurious c c' \<Longrightarrow> keeps_ids c c'" by (induction rule: spurious.induct) (rule keeps_quiet, simp_all)
  moreover have "main_step c c' \<Longrightarrow> keeps_ids c c'" using assms(2) main_step_ids [of c c'] by fastforce
  ultimately show ?thesis using assms(1) ka_step_ids pump_step_ids unfolding cli_step_def by blast
qed

subsection \<open>The server has a connection for every stream it announces\<close>

definition owned :: "(nat \<Rightarrow> u64) \<Rightarrow> Net \<Rightarrow> bool" where
  "owned ow n \<longleftrightarrow>
     set (opens (sent_frames (sess n))) \<subseteq> ow ` {..<length (heap (sess n))}
     \<and> (\<forall>i r. fwd n = FAdded i r \<longrightarrow> r < length (heap (sess n)) \<and> ow r = i)"

lemma owned_quiet:
  assumes "owned ow n" "opens (sent_frames (sess n')) = opens (sent_frames (sess n))"
    and "length (heap (sess n)) \<le> length (heap (sess n'))" "\<forall>r < length (heap (sess n)). ow' r = ow r"
    and "\<forall>i r. fwd n' = FAdded i r \<longrightarrow> fwd n = FAdded i r"
  shows "owned ow' n'"
proof -
  have "ow ` {..<length (heap (sess n))} = ow' ` {..<length (heap (sess n))}" using assms(4) by (intro image_cong) simp_all
  also have "\<dots> \<subseteq> ow' ` {..<length (heap (sess n'))}" using assms(3) by (intro image_mono) simp
  finally have "ow ` {..<length (heap (sess n))} \<subseteq> ow' ` {..<length (heap (sess n'))}" .
  with assms show ?thesis unfolding owned_def by fastforce
qed

lemma opens_Send: "f_type f \<noteq> OPEN \<Longrightarrow> opens (sent_frames (snd (Send w f s))) = opens (sent_frames s)"
  by (simp add: sent_Send)

lemma opens_SendClose [simp]: "opens (sent_frames (snd (SendClose w i e s))) = opens (sent_frames s)"
  by (simp add: SendClose_def opens_Send Let_def)

lemma owned_step:
  assumes "net_step n n'" "owned ow n" "owners ow' n'"
    and "length (heap (sess n)) \<le> length (heap (sess n'))" "\<forall>r < length (heap (sess n)). ow' r = ow r"
  shows "owned ow' n'"
  using assms
proof (induction rule: net_step.induct)
  case (h_register n w t)
  then show ?case by (intro owned_quiet [OF h_register.prems(1)]) (simp_all add: opens_Send)
next
  case (f_next n i s)
  then show ?case by (intro owned_quiet [OF f_next.prems(1)]) (auto dest!: NextStreamId_frame)
next
  case (f_add n i fd ref s)
  let ?n = "n\<lparr>fwd := FAdded i ref, sess := s\<rparr>"
  have s: "ref = length (heap (sess n))" "conns s = smap_set i ref (conns (sess n))" "length (heap s) = Suc (length (heap (sess n)))"
    "sent_frames s = sent_frames (sess n)" using AddConn_frame [OF f_add.hyps(2)] by simp_all
  have "GetConn i (sess ?n) = Some ref" by (simp add: GetConn_def s smap_find_set)
  then have "ow' ref = i" using f_add.prems(2) unfolding owners_def by blast
  moreover have "owned ow' (?n\<lparr>fwd := fwd n\<rparr>)"
    using f_add.prems by (intro owned_quiet [OF f_add.prems(1)]) (simp_all add: s)
  ultimately show ?case using s by (simp add: owned_def)
next
  case (f_open n i ref w t sent s)
  let ?f = "new_frame\<lparr>f_stream_id := i, f_type := OPEN, f_target := t\<rparr>"
  have s: "s = snd (Send w ?f (sess n))" "sent = fst (Send w ?f (sess n))" using f_open.hyps(2) by simp_all
  have h: "length (heap s) = length (heap (sess n))" using f_open.prems(3) by (simp add: s Send_def)
  have "ref < length (heap (sess n))" "ow ref = i" using f_open.hyps(1) f_open.prems(1) by (simp_all add: owned_def)
  then have "i \<in> ow' ` {..<length (heap s)}" using f_open.prems(4) h by (auto intro: image_eqI [of _ _ ref])
  moreover have "ow ` {..<length (heap (sess n))} = ow' ` {..<length (heap s)}"
    using f_open.prems(4) h by (intro image_cong) simp_all
  moreover have "set (opens (sent_frames s)) \<subseteq> insert i (set (opens (sent_frames (sess n))))" by (auto simp: s sent_Send)
  ultimately show ?case using f_open.prems(1) by (auto simp: owned_def)
next
  case (p_data k n i ref w b sent s)
  then have "s = snd (SendData w i b (sess n))" by simp
  with p_data show ?case by (intro owned_quiet [OF p_data.prems(1)]) (simp_all add: SendData_def opens_Send)
qed (rule owned_quiet, assumption, auto)+

lemma net_step_sent:
  assumes "net_step n n'"
  shows "prefix (sent_frames (sess n)) (sent_frames (sess n'))"
  using assms
proof (induction rule: net_step.induct)
  case (f_add n i fd ref s)
  then show ?case by (auto dest!: AddConn_frame)
qed (auto simp: SendClose_def SendData_def sent_Send Let_def dest!: NextStreamId_frame Send_cases)

lemma opens_prefix: "prefix fs gs \<Longrightarrow> set (opens fs) \<subseteq> set (opens gs)"
  by (auto simp: prefix_def)

lemma back_step_net: "back_step b b' \<Longrightarrow> bk_net b' = bk_net b \<or> net_step (bk_net b) (bk_net b')"
  by (induction rule: back_step.induct) (auto simp: takes_def intro: net_step.intros)

subsection \<open>Both ends\<close>

definition duplex_ok :: "(nat \<Rightarrow> u64) \<Rightarrow> (nat \<Rightarrow> string) \<Rightarrow> Duplex \<Rightarrow> bool" where
  "duplex_ok ow base d \<longleftrightarrow> net_reach (dx_net d) \<and> back_ok ow base (dx_back d) \<and> owned ow (dx_net d)
     \<and> (\<forall>r < length (heap (sess (dx_net d))). base r = [])
     \<and> bk_read (dx_back d) @ bk_in (dx_back d) = dx_up d
     \<and> cli_ids (dx_cli d) \<subseteq> set (opens (dx_down d))"

lemma bytes_for_absent: "i \<notin> data_ids fs \<Longrightarrow> bytes_for i fs = []"
  by (auto simp: bytes_for_def data_ids_def filter_empty_conv)

lemma bytes_for_append: "bytes_for i (fs @ gs) = bytes_for i fs @ bytes_for i gs"
  by (simp add: bytes_for_def)

lemma server_step_ok:
  assumes "duplex_ok ow base d" "back_step (dx_back d) b"
  shows "\<exists>ow' base'. duplex_ok ow' base' (d\<lparr>dx_back := b\<rparr>)"
proof -
  let ?h = "length (heap (sess (dx_net d)))"
  have reach: "net_reach (dx_net d)" and bok: "back_ok ow base (dx_back d)" and own: "owned ow (dx_net d)"
    and cids: "cli_ids (dx_cli d) \<subseteq> set (opens (dx_down d))"
    using assms(1) by (simp_all add: duplex_ok_def)
  obtain ow' base' where ok': "net_reach (bk_net b)" "back_ok ow' base' b" and ex: "extends ow base (dx_back d) ow' base' b"
    using back_ok_step [OF assms(2) reach bok] by blast
  have io: "bk_read b @ bk_in b = bk_read (dx_back d) @ bk_in (dx_back d)"
    using assms(2) by (cases rule: back_step.cases) (auto simp: takes_def)
  have own': "owned ow' (bk_net b)"
    using back_step_net [OF assms(2)]
  proof
    assume "bk_net b = dx_net d"
    then show ?thesis using ex by (intro owned_quiet [OF own]) (simp_all add: extends_def)
  next
    assume "net_step (dx_net d) (bk_net b)"
    then show ?thesis using ok'(2) ex by (intro owned_step [OF _ own]) (simp_all add: back_ok_def extends_def)
  qed
  have down: "set (opens (dx_down d)) \<subseteq> set (opens (sent_frames (sess (bk_net b))))"
    using back_step_net [OF assms(2)] net_step_sent opens_prefix by fastforce
  have "base' r = []" if r: "r < length (heap (sess (bk_net b)))" for r
  proof (cases "r < ?h")
    case True
    then show ?thesis using assms(1) ex by (simp add: duplex_ok_def extends_def)
  next
    case False
    have "ow' r \<notin> ow ` {..<?h}"
    proof
      assume "ow' r \<in> ow ` {..<?h}"
      then obtain q where "q < ?h" "ow' q = ow' r" using ex by (auto simp: extends_def)
      moreover have "inj_on ow' {..<length (heap (sess (bk_net b)))}" using ok'(2) by (simp add: back_ok_def owners_def)
      ultimately show False using r False by (auto simp: inj_on_def)
    qed
    moreover have "data_ids (bk_read b) \<subseteq> cli_ids (dx_cli d)"
    proof -
      have "data_ids (bk_read b @ bk_in b) \<subseteq> cli_ids (dx_cli d)"
        using assms(1) unfolding io by (auto simp: duplex_ok_def cli_ids_def)
      then show ?thesis by simp
    qed
    ultimately have "bytes_for (ow' r) (bk_read b) = []"
      using cids own by (intro bytes_for_absent) (auto simp: owned_def)
    then show ?thesis using ex False by (simp add: extends_def)
  qed
  with ok' own' io down assms(1) show ?thesis by (intro exI [of _ ow'] exI [of _ base']) (auto simp: duplex_ok_def)
qed

lemma client_frames_ok:
  assumes "duplex_ok ow base d" "cli_ids c \<subseteq> set (opens (dx_down d))" "sent_frames (c_sess c) = dx_up d @ fs"
  shows "duplex_ok ow base (d\<lparr>dx_cli := c, dx_back := (dx_back d)\<lparr>bk_in := bk_in (dx_back d) @ fs\<rparr>\<rparr>)"
  using assms by (auto simp: duplex_ok_def back_ok_def stretch_def live_def busy_def)

lemma duplex_inv: "duplex_reach target d \<Longrightarrow> \<exists>ow base. duplex_ok ow base d"
proof (induction rule: duplex_reach.induct)
  case init
  have "duplex_ok (\<lambda>_. 0) (\<lambda>_. []) (new_duplex target)"
    using net_reach.init back_ok_new
    by (auto simp: duplex_ok_def new_duplex_def new_back_def owned_def new_net_def new_session_def new_cli_def Send_def
        cli_ids_def data_ids_def new_frame_def)
  then show ?case by blast
next
  case (step d d')
  then obtain ow base where ok: "duplex_ok ow base d" by blast
  from step.hyps(2) show ?case
  proof (cases rule: duplex_step.cases)
    case (d_server b)
    with server_step_ok [OF ok] show ?thesis by simp
  next
    case (d_client c)
    have k: "keeps_ids (dx_cli d) c" using cli_step_ids d_client(2,3) by blast
    then have "sent_frames (c_sess c) = dx_up d @ new_frames (dx_cli d) c"
      by (auto simp: keeps_ids_def new_frames_def prefix_def)
    then have "duplex_ok ow base d'"
      using k ok unfolding d_client(1) by (intro client_frames_ok) (auto simp: keeps_ids_def duplex_ok_def)
    then show ?thesis by blast
  next
    case d_read
    with ok show ?thesis by (intro exI [of _ ow] exI [of _ base]) (simp add: duplex_ok_def)
  next
    case (d_open f fd ref s)
    let ?c = "(dx_cli d)\<lparr>c_main := MAdded (f_stream_id f) ref, c_sess := s\<rparr>"
    have "f \<in> set (dx_down d)" using d_open(2,3) by auto
    then have "f_stream_id f \<in> set (opens (dx_down d))" using d_open(4) by (force simp: opens_def)
    moreover have s: "sent_frames s = dx_up d" using AddConn_frame [OF d_open(7)] by simp
    ultimately have "cli_ids ?c \<subseteq> set (opens (dx_down d))" using ok by (auto simp: duplex_ok_def cli_ids_def)
    from client_frames_ok [OF ok this, of "[]"] s have "duplex_ok ow base (d\<lparr>dx_cli := ?c\<rparr>)" by simp
    with d_open(1) show ?thesis by (intro exI [of _ ow] exI [of _ base]) (simp add: duplex_ok_def)
  qed
qed

text \<open>
  C6.  End to end from the client to the server, over every interleaving of all threads of both ends:
  each connection of the server belongs to one stream and different connections to different
  streams; what the socket of a connection has taken is a prefix of the payloads the client has
  written for that stream, from the first byte on; while the stream is open and the handler is
  between frames, that prefix and the payloads still under way are all of them; and the client has
  written data only for streams the server has opened.
\<close>

theorem duplex_delivers:
  assumes "duplex_reach target d"
  shows "\<exists>ow. inj_on ow {..<length (heap (sess (dx_net d)))}
    \<and> (\<forall>i r. GetConn i (sess (dx_net d)) = Some r \<longrightarrow> ow r = i)
    \<and> (\<forall>r < length (heap (sess (dx_net d))). prefix (bk_out (dx_back d) r) (bytes_for (ow r) (dx_up d))
        \<and> (GetConn (ow r) (sess (dx_net d)) = Some r \<and> bk_phase (dx_back d) = BIdle \<longrightarrow>
             bk_out (dx_back d) r @ bytes_for (ow r) (bk_in (dx_back d)) = bytes_for (ow r) (dx_up d)))
    \<and> data_ids (dx_up d) \<subseteq> set (opens (dx_down d))"
proof -
  obtain ow base where ok: "duplex_ok ow base d" using duplex_inv [OF assms] by blast
  then have up: "bk_read (dx_back d) @ bk_in (dx_back d) = dx_up d" by (simp add: duplex_ok_def)
  have "prefix (bk_out (dx_back d) r) (bytes_for (ow r) (dx_up d))
      \<and> (GetConn (ow r) (sess (dx_net d)) = Some r \<and> bk_phase (dx_back d) = BIdle \<longrightarrow>
           bk_out (dx_back d) r @ bytes_for (ow r) (bk_in (dx_back d)) = bytes_for (ow r) (dx_up d))"
    if r: "r < length (heap (sess (dx_net d)))" for r
  proof -
    have "stretch (dx_back d) [] (ow r) r" using ok r by (auto simp: duplex_ok_def back_ok_def)
    then obtain post where "bytes_for (ow r) (bk_read (dx_back d)) = bk_out (dx_back d) r @ post"
      "live (dx_back d) (ow r) r \<longrightarrow> post = []" by (auto simp: stretch_def)
    then show ?thesis by (auto simp: up [symmetric] bytes_for_append live_def busy_def)
  qed
  moreover have "data_ids (dx_up d) \<subseteq> set (opens (dx_down d))" using ok by (auto simp: duplex_ok_def cli_ids_def)
  ultimately show ?thesis using ok by (intro exI [of _ ow]) (auto simp: duplex_ok_def back_ok_def owners_def)
qed

subsection \<open>A stream in use\<close>

text \<open>The server has opened stream 1; the client reads the OPEN frame, and its pump answers.\<close>

definition ex_reg :: Frame where
  "ex_reg = new_frame\<lparr>f_type := REGISTER, f_target := ''ssh''\<rparr>"

definition ex_cli :: "Frame list \<Rightarrow> mphase \<Rightarrow> (u64 \<times> nat \<times> pphase) list \<Rightarrow> Cli" where
  "ex_cli fs m ps = (new_cli ''ssh'')\<lparr>c_main := m, c_pumps := ps,
     c_sess := (c_sess (new_cli ''ssh''))\<lparr>conns := [(1, 0)], heap := [\<lparr>cn_fd = 5, cn_closed = False, cn_shut = False\<rparr>],
       sent_frames := fs\<rparr>\<rparr>"

definition ex_duplex :: "Frame list \<Rightarrow> Cli \<Rightarrow> nat \<Rightarrow> Duplex" where
  "ex_duplex fs c k = \<lparr>dx_back = (new_back fs)\<lparr>bk_net := ex_open\<rparr>, dx_cli = c, dx_got = k\<rparr>"

definition ex_end :: Duplex where
  "ex_end = (ex_duplex [] (ex_cli [ex_reg, ex_answer] MReading [(1, 0, PRun)]) 2)
     \<lparr>dx_back := \<lparr>bk_net = ex_open, bk_in = [], bk_read = [ex_reg, ex_answer], bk_out = (\<lambda>_. [])(0 := ''hi''), bk_phase = BIdle\<rparr>\<rparr>"

lemmas dx_defs = ex_duplex_def ex_cli_def ex_reg_def ex_answer_def ex_end_def new_back_def new_cli_def new_session_def
  Send_def new_frame_def

lemma reach_dstep: "duplex_reach t d \<Longrightarrow> duplex_step d d1 \<Longrightarrow> d1 = d' \<Longrightarrow> duplex_reach t d'"
  by (auto intro: duplex_reach.step)

lemma reach_dserver: "duplex_reach t d \<Longrightarrow> back_step (dx_back d) b \<Longrightarrow> d\<lparr>dx_back := b\<rparr> = d' \<Longrightarrow> duplex_reach t d'"
  by (auto intro: duplex_reach.step duplex_step.d_server)

lemma reach_dclient:
  "duplex_reach t d \<Longrightarrow> main_step c c' \<or> pump_step c c' \<Longrightarrow> dx_cli d = c \<Longrightarrow>
     \<forall>i r. c_main c' = MAdded i r \<longrightarrow> c_main c = MAdded i r \<Longrightarrow>
     d\<lparr>dx_cli := c', dx_back := (dx_back d)\<lparr>bk_in := bk_in (dx_back d) @ new_frames c c'\<rparr>\<rparr> = d' \<Longrightarrow> duplex_reach t d'"
  using duplex_reach.step [OF _ duplex_step.d_client, of t d c'] by (auto simp: cli_step_def)

lemma reach_dnet: "net_reach n \<Longrightarrow> duplex_reach t ((new_duplex t)\<lparr>dx_back := (dx_back (new_duplex t))\<lparr>bk_net := n\<rparr>\<rparr>)"
proof (induction rule: net_reach.induct)
  case init
  then show ?case using duplex_reach.init [of t] by (simp add: new_duplex_def new_back_def)
next
  case (step n n')
  show ?case
    by (rule reach_dserver [OF step.IH back_step.b_net [of _ n']]) (use step.hyps(2) in \<open>simp_all add: new_duplex_def new_back_def\<close>)
qed

lemma reach_ex_end: "duplex_reach ''ssh'' ex_end"
proof -
  have "duplex_reach ''ssh'' (ex_duplex [ex_reg] (new_cli ''ssh'') 0)"
    using reach_dnet [OF reach_ex_open, of "''ssh''"] by (simp add: new_duplex_def dx_defs)
  then have "duplex_reach ''ssh'' (ex_duplex [ex_reg] (new_cli ''ssh'') 1)"
    by (rule reach_dstep [OF _ duplex_step.d_read]) (simp_all add: dx_defs ex_open_def)
  then have "duplex_reach ''ssh'' (ex_duplex [ex_reg] (ex_cli [ex_reg] (MAdded 1 0) []) 2)"
    by (rule reach_dstep [OF _ duplex_step.d_open [where
          f = "new_frame\<lparr>f_stream_id := 1, f_type := OPEN, f_target := ''ssh''\<rparr>" and fd = 5 and ref = 0]])
      (simp_all add: dx_defs ex_open_def AddConn_def)
  moreover have "main_step (ex_cli [ex_reg] (MAdded 1 0) []) (ex_cli [ex_reg] MReading [(1, 0, PRun)])"
    using main_step.m_spawn [of "ex_cli [ex_reg] (MAdded 1 0) []" 1 0] by (simp add: ex_cli_def new_cli_def)
  ultimately have "duplex_reach ''ssh'' (ex_duplex [ex_reg] (ex_cli [ex_reg] MReading [(1, 0, PRun)]) 2)"
    by (rule reach_dclient [OF _ disjI1]) (simp_all add: dx_defs new_frames_def)
  moreover have "send_frame True (new_frame\<lparr>f_stream_id := 1, f_type := DATA, f_data := ''hi''\<rparr>)
      (ex_cli [ex_reg] MReading [(1, 0, PRun)]) = (True, ex_cli [ex_reg, ex_answer] MReading [(1, 0, PRun)])"
    by (simp add: send_frame_def dx_defs)
  then have "pump_step (ex_cli [ex_reg] MReading [(1, 0, PRun)]) (ex_cli [ex_reg, ex_answer] MReading [(1, 0, PRun)])"
    using pump_step.q_data [of 0 "ex_cli [ex_reg] MReading [(1, 0, PRun)]" 1 0 True "''hi''" True] by (simp add: ex_cli_def new_cli_def)
  ultimately have "duplex_reach ''ssh'' (ex_duplex [ex_reg, ex_answer] (ex_cli [ex_reg, ex_answer] MReading [(1, 0, PRun)]) 2)"
    by (rule reach_dclient [OF _ disjI2]) (simp_all add: dx_defs new_frames_def)
  then have "duplex_reach ''ssh'' (ex_end\<lparr>dx_back := \<lparr>bk_net = ex_open, bk_in = [ex_answer], bk_read = [ex_reg],
      bk_out = (\<lambda>_. []), bk_phase = BIdle\<rparr>\<rparr>)"
    by (rule reach_dserver [OF _ back_step.b_register [of _ ex_reg "[ex_answer]" False]])
      (simp_all add: takes_def dx_defs ex_open_def new_net_def)
  then have "duplex_reach ''ssh'' (ex_end\<lparr>dx_back := \<lparr>bk_net = ex_open, bk_in = [], bk_read = [ex_reg, ex_answer],
      bk_out = (\<lambda>_. []), bk_phase = BGot 1 0 ''hi''\<rparr>\<rparr>)"
    by (rule reach_dserver [OF _ back_step.b_get [of _ ex_answer "[]" 0]])
      (simp_all add: takes_def dx_defs ex_open_def new_net_def GetConn_def smap_find_def)
  then show ?thesis by (rule reach_dserver [OF _ back_step.b_wrote [of _ 1 0 "''hi''"]]) (simp_all add: ex_end_def)
qed

theorem duplex_delivers_witness:
  "bk_out (dx_back ex_end) 0 = ''hi'' \<and> GetConn 1 (sess (dx_net ex_end)) = Some 0
   \<and> prefix (bk_out (dx_back ex_end) 0) (bytes_for 1 (dx_up ex_end)) \<and> data_ids (dx_up ex_end) \<subseteq> {1}"
proof -
  have g: "GetConn 1 (sess (dx_net ex_end)) = Some 0" "length (heap (sess (dx_net ex_end))) = 1"
    "set (opens (dx_down ex_end)) = {1}" "bk_out (dx_back ex_end) 0 = ''hi''"
    by (simp_all add: dx_defs ex_open_def GetConn_def smap_find_def)
  from duplex_delivers [OF reach_ex_end] obtain ow where
    "\<forall>i r. GetConn i (sess (dx_net ex_end)) = Some r \<longrightarrow> ow r = i"
    "\<forall>r < length (heap (sess (dx_net ex_end))). prefix (bk_out (dx_back ex_end) r) (bytes_for (ow r) (dx_up ex_end))"
    "data_ids (dx_up ex_end) \<subseteq> set (opens (dx_down ex_end))" by blast
  with g show ?thesis by (metis less_one)
qed

end
