(* ===== verification/Echo_Demo.thy ===== *)
theory Echo_Demo
  imports Tunnel_Session
begin

text \<open>
  The demonstration service the tunnel carries (\<open>grpc-tunnel/src/echo_service.cc\<close>, \<open>echo_call.cc\<close>,
  \<open>echo_client.cc\<close>) and the command lines of the three tunnel programs.  Whether the call was
  cancelled and whether a write succeeded, at the \<open>n\<close>-th turn of the streaming loop, are arguments.
\<close>

record SayRequest =
  sr_message :: string
  sr_count :: u32

record SayReply =
  sy_message :: string
  sy_served_by :: string
  sy_seq :: u64

datatype rpc_status = Status_OK | Status_CANCELLED | Status_Error string

definition EchoServiceImpl_Say :: "string \<Rightarrow> SayRequest \<Rightarrow> rpc_status \<times> SayReply" where
  "EchoServiceImpl_Say host req =
     (Status_OK, \<lparr>sy_message = ''echo: '' @ sr_message req, sy_served_by = host, sy_seq = 1\<rparr>)"

definition say_reply :: "string \<Rightarrow> SayRequest \<Rightarrow> u32 \<Rightarrow> SayReply" where
  "say_reply host req i = \<lparr>sy_message = ''echo: '' @ sr_message req, sy_served_by = host, sy_seq = ucast i\<rparr>"

text \<open>The counter is a 32-bit word and wraps, so the loop need not end: \<^term>\<open>None\<close> is not returning.\<close>

partial_function (option) say_loop ::
  "(nat \<Rightarrow> bool) \<Rightarrow> (nat \<Rightarrow> bool) \<Rightarrow> string \<Rightarrow> SayRequest \<Rightarrow> u32 \<Rightarrow> nat \<Rightarrow> u32 \<Rightarrow> SayReply list
     \<Rightarrow> (rpc_status \<times> SayReply list) option" where
  "say_loop cancelled written host req count n i out =
     (if i \<le> count then
        if cancelled n then Some (Status_CANCELLED, out)
        else if \<not> written n then Some (Status_OK, out)
        else say_loop cancelled written host req count (Suc n) (i + 1) (out @ [say_reply host req i])
      else Some (Status_OK, out))"

definition say_count :: "SayRequest \<Rightarrow> u32" where
  "say_count req = (if sr_count req = 0 then 3 else sr_count req)"

definition EchoServiceImpl_SayStream ::
  "(nat \<Rightarrow> bool) \<Rightarrow> (nat \<Rightarrow> bool) \<Rightarrow> string \<Rightarrow> SayRequest \<Rightarrow> (rpc_status \<times> SayReply list) option" where
  "EchoServiceImpl_SayStream cancelled written host req =
     say_loop cancelled written host req (say_count req) 0 1 []"

text \<open>
  The caller: \<open>Inl\<close> is the error text, \<open>Inr\<close> the reply.  \<open>rpc\<close> is what the stub's call gives.
\<close>

definition EchoCaller_Say :: "(SayRequest \<Rightarrow> rpc_status \<times> SayReply) \<Rightarrow> string \<Rightarrow> string + string" where
  "EchoCaller_Say rpc message =
     (case rpc \<lparr>sr_message = message, sr_count = 0\<rparr> of
        (Status_OK, res) \<Rightarrow> Inr (sy_message res @ ''  (served by '' @ sy_served_by res @ '')'')
      | (Status_CANCELLED, res) \<Rightarrow> Inl []
      | (Status_Error e, res) \<Rightarrow> Inl e)"

subsection \<open>Command lines\<close>

definition HasFlag :: "string list \<Rightarrow> string \<Rightarrow> bool" where
  "HasFlag as flag \<longleftrightarrow> flag \<in> set as"

record EchoArgs =
  ea_addr :: string
  ea_message :: string
  ea_count :: int
  ea_stream :: bool

text \<open>\<^term>\<open>None\<close> where the value of \<open>atoi\<close> is undefined.\<close>

definition echo_client_args :: "string list \<Rightarrow> EchoArgs option" where
  "echo_client_args as =
     map_option (\<lambda>n. \<lparr>ea_addr = the (Arg as ''--addr'' (Some ''127.0.0.1:50052'')),
         ea_message = the (Arg as ''--message'' (Some ''hello'')), ea_count = n,
         ea_stream = HasFlag as ''--stream''\<rparr>)
       (atoi (the (Arg as ''--count'' (Some ''3''))))"

record ClientArgs =
  ca_tunnel :: string
  ca_target :: string
  ca_retry :: int
  ca_keepalive :: int
  ca_serve_demo :: bool
  ca_host :: string
  ca_port :: int

definition tunnel_client_args :: "string list \<Rightarrow> (int + ClientArgs) option" where
  "tunnel_client_args as =
     (case (atoi (the (Arg as ''--retry'' (Some ''3''))), atoi (the (Arg as ''--keepalive'' (Some ''20'')))) of
        (Some retry, Some keepalive) \<Rightarrow>
          (let dial_arg = Arg as ''--dial'' None; echo_arg = Arg as ''--echo'' None in
           if dial_arg \<noteq> None \<and> echo_arg \<noteq> None then Some (Inl 1)
           else
             (let serve_demo = (dial_arg = None);
                  local_addr = (case dial_arg of Some a \<Rightarrow> a
                    | None \<Rightarrow> (case echo_arg of Some a \<Rightarrow> a | None \<Rightarrow> ''127.0.0.1:50060''))
              in case SplitHostPort local_addr of
                   None \<Rightarrow> Some (Inl 1)
                 | Some (host, port) \<Rightarrow>
                     Some (Inr \<lparr>ca_tunnel = the (Arg as ''--tunnel'' (Some ''tunnel-server:50051'')),
                       ca_target = the (Arg as ''--target'' (Some ''edge-1'')), ca_retry = retry,
                       ca_keepalive = keepalive, ca_serve_demo = serve_demo, ca_host = host, ca_port = port\<rparr>)))
      | _ \<Rightarrow> None)"

record ServerArgs =
  sv_listen :: string
  sv_forward :: string
  sv_target :: string
  sv_auto :: int
  sv_host :: string
  sv_port :: int

definition tunnel_server_args :: "string list \<Rightarrow> (int + ServerArgs) option" where
  "tunnel_server_args as =
     (let listen_addr = the (Arg as ''--listen'' (Some ''0.0.0.0:50051''));
          forward_addr = the (Arg as ''--forward'' (Some ''127.0.0.1:50052''));
          target = the (Arg as ''--target'' (Some ''edge-1''))
      in case atoi (the (Arg as ''--auto'' (Some ''0''))) of
           None \<Rightarrow> None
         | Some auto_period \<Rightarrow>
             (case SplitHostPort forward_addr of
                None \<Rightarrow> Some (Inl 1)
              | Some (host, port) \<Rightarrow>
                  Some (Inr \<lparr>sv_listen = listen_addr, sv_forward = forward_addr, sv_target = target,
                    sv_auto = auto_period, sv_host = host, sv_port = port\<rparr>)))"

subsection \<open>The streaming reply\<close>

lemma say_loop_counts:
  assumes "unat count < 2 ^ 32 - 1" "\<forall>k. \<not> cancelled k \<and> written k" "unat i \<le> Suc (unat count)" "i \<noteq> 0"
  shows "say_loop cancelled written host req count n i out =
    Some (Status_OK, out @ map (\<lambda>k. say_reply host req (of_nat k)) [unat i..<Suc (unat count)])"
  using assms(3,4)
proof (induction "Suc (unat count) - unat i" arbitrary: n i out)
  case 0
  then have "\<not> i \<le> count" by (simp add: word_le_nat_alt)
  with 0 show ?case by (subst say_loop.simps) simp
next
  case (Suc m)
  then have i: "i \<le> count" "unat i \<le> unat count" by (simp_all add: word_le_nat_alt)
  have u: "unat (i + 1) = Suc (unat i)" using i(2) assms(1) unat_add_lem [of i 1] by simp
  have nz: "i + 1 \<noteq> 0" using u by (metis nat.distinct(1) unat_0)
  have "say_loop cancelled written host req count n i out =
    say_loop cancelled written host req count (Suc n) (i + 1) (out @ [say_reply host req i])"
    using i(1) assms(2) by (subst say_loop.simps) simp
  also have "\<dots> = Some (Status_OK, (out @ [say_reply host req i]) @
      map (\<lambda>k. say_reply host req (of_nat k)) [unat (i + 1)..<Suc (unat count)])"
    using Suc.hyps(2) u i(2) nz by (intro Suc.hyps(1)) auto
  also have "\<dots> = Some (Status_OK, out @ map (\<lambda>k. say_reply host req (of_nat k)) [unat i..<Suc (unat count)])"
    using i(2) u by (simp only: upt_conv_Cons [of "unat i"] less_Suc_eq_le) simp
  finally show ?case .
qed

lemma say_loop_never:
  assumes "say_loop cancelled written host req count n i out = Some r"
  shows "count = - 1 \<longrightarrow> (\<exists>k. cancelled k \<or> \<not> written k)"
  by (rule say_loop.raw_induct [OF _ assms, of
        "\<lambda>cancelled written host req count n i out r. count = - 1 \<longrightarrow> (\<exists>k. cancelled k \<or> \<not> written k)"])
    (auto split: if_splits)

text \<open>
  C38. The streaming reply: asked for \<open>count\<close> messages (3 when it says 0), with a caller that stays,
  \<open>SayStream\<close> ends with status OK after exactly that many replies, numbered from 1; except that a
  request for 4294967295 messages is never finished, because the 32-bit counter of the loop wraps
  before it can exceed the bound.
\<close>

theorem say_stream_outcome:
  assumes "\<forall>k. \<not> cancelled k \<and> written k"
  shows "EchoServiceImpl_SayStream cancelled written host req =
    (if say_count req = 4294967295 then None
     else Some (Status_OK, map (\<lambda>k. say_reply host req (of_nat k)) [1..<Suc (unat (say_count req))]))"
proof (cases "say_count req = 4294967295")
  case True
  have "(4294967295 :: u32) = - 1" by simp
  with True have "say_loop cancelled written host req (say_count req) 0 1 [] = None"
    using say_loop_never [of cancelled written host req "say_count req" 0 1 "[]"] assms
    by (cases "say_loop cancelled written host req (say_count req) 0 1 []") auto
  with True show ?thesis by (simp add: EchoServiceImpl_SayStream_def)
next
  case False
  have "unat (say_count req) < 2 ^ 32 - 1"
  proof (rule ccontr)
    assume "\<not> unat (say_count req) < 2 ^ 32 - 1"
    moreover have "unat (say_count req) < 2 ^ 32" using unsigned_less [of "say_count req", where 'a = nat] by simp
    ultimately have "unat (say_count req) = unat (4294967295 :: u32)" by simp
    with False show False by (metis word_unat_eq_iff)
  qed
  moreover have "say_count req \<noteq> 0" by (simp add: say_count_def)
  then have "unat (1 :: u32) \<le> Suc (unat (say_count req))" by simp
  ultimately show ?thesis
    using say_loop_counts [of "say_count req" cancelled written 1 host req 0 "[]"] assms False
    by (simp add: EchoServiceImpl_SayStream_def)
qed

theorem say_stream_outcome_witness:
  "EchoServiceImpl_SayStream (\<lambda>_. False) (\<lambda>_. True) ''edge'' \<lparr>sr_message = ''hi'', sr_count = 0\<rparr> =
     Some (Status_OK, map (\<lambda>k. \<lparr>sy_message = ''echo: hi'', sy_served_by = ''edge'', sy_seq = k\<rparr>) [1, 2, 3])
   \<and> EchoServiceImpl_SayStream (\<lambda>_. False) (\<lambda>_. True) ''edge'' \<lparr>sr_message = ''hi'', sr_count = 4294967295\<rparr> = None"
  using say_stream_outcome [of "\<lambda>_. False" "\<lambda>_. True" "''edge''" "\<lparr>sr_message = ''hi'', sr_count = 0\<rparr>"]
    say_stream_outcome [of "\<lambda>_. False" "\<lambda>_. True" "''edge''" "\<lparr>sr_message = ''hi'', sr_count = 4294967295\<rparr>"]
  by (simp add: say_count_def say_reply_def upt_rec)

end
