(* ===== verification/Tunnel_Net.thy ===== *)
theory Tunnel_Net
  imports Tunnel_Endpoints "HOL-Library.Multiset"
begin

text \<open>
  The sockets of the tunnel, \<open>grpc-tunnel/src/net.cc\<close>, and the forwarder's accept loop
  (\<open>grpc-tunnel/src/tunnel_server.cc\<close>).  The state is the process's table of open descriptors; what the
  system calls return is an argument, one outcome per call in the order of the calls.
\<close>

record sockets =
  sk_open :: "int list"
  sk_nodelay :: "int list"
  sk_listening :: "(int \<times> 32 word \<times> u16) list"

definition os_socket :: "int \<Rightarrow> (sockets, int) eff" where
  "os_socket fd w = (fd, if fd < 0 then w else w\<lparr>sk_open := fd # sk_open w\<rparr>)"

definition os_close :: "int \<Rightarrow> sockets \<Rightarrow> sockets" where
  "os_close fd w = w\<lparr>sk_open := remove1 fd (sk_open w)\<rparr>"

definition SetNoDelay :: "int \<Rightarrow> sockets \<Rightarrow> sockets" where
  "SetNoDelay fd w = w\<lparr>sk_nodelay := fd # sk_nodelay w\<rparr>"

subsection \<open>Addresses\<close>

text \<open>
  \<open>inet_pton(AF_INET, s, _)\<close>: four decimal numbers up to 255 without leading zeros, separated by
  dots, read into the four bytes of the address in order.
\<close>

definition octet :: "string \<Rightarrow> nat option" where
  "octet s =
     (if s \<noteq> [] \<and> list_all is_digit s \<and> (s = ''0'' \<or> hd s \<noteq> CHR ''0'') \<and> digits_val s \<le> 255
      then Some (digits_val s) else None)"

fun split_dots :: "string \<Rightarrow> string \<Rightarrow> string list" where
  "split_dots cur [] = [cur]"
| "split_dots cur (c # s) = (if c = CHR ''.'' then cur # split_dots [] s else split_dots (cur @ [c]) s)"

definition inet_pton4 :: "string \<Rightarrow> 32 word option" where
  "inet_pton4 s =
     (case map octet (split_dots [] s) of
        [Some a, Some b, Some c, Some d] \<Rightarrow> Some (of_nat (((a * 256 + b) * 256 + c) * 256 + d))
      | _ \<Rightarrow> None)"

text \<open>The address \<open>ListenTcp\<close> binds: any address for the three wildcards, else the one parsed.\<close>

definition listen_address :: "string \<Rightarrow> 32 word option" where
  "listen_address host =
     (if host = [] \<or> host = ''0.0.0.0'' \<or> host = ''*'' then Some 0 else inet_pton4 host)"

record listen_outcome =
  lo_socket :: int
  lo_bind :: int
  lo_listen :: int

definition ListenTcp :: "listen_outcome \<Rightarrow> string \<Rightarrow> int \<Rightarrow> (sockets, int) eff" where
  "ListenTcp r host port w =
     (let (fd, w1) = os_socket (lo_socket r) w in
      if fd < 0 then (- 1, w1)
      else
        (case listen_address host of
           None \<Rightarrow> (- 1, os_close fd w1)
         | Some addr \<Rightarrow>
             if lo_bind r \<noteq> 0 \<or> lo_listen r \<noteq> 0 then (- 1, os_close fd w1)
             else (fd, w1\<lparr>sk_listening := (fd, addr, word_of_int port) # sk_listening w1\<rparr>)))"

text \<open>
  \<open>DialTcp\<close> over the addresses the resolver gives: for each one the results of \<open>socket\<close> and
  \<open>connect\<close>.  \<^term>\<open>None\<close> is a failed resolution.
\<close>

fun dial_loop :: "(int \<times> int) list \<Rightarrow> (sockets, int) eff" where
  "dial_loop [] w = (- 1, w)"
| "dial_loop ((s, c) # ais) w =
     (let (fd, w1) = os_socket s w in
      if fd < 0 then dial_loop ais w1
      else if c = 0 then (fd, w1)
      else dial_loop ais (os_close fd w1))"

definition DialTcp :: "(int \<times> int) list option \<Rightarrow> (sockets, int) eff" where
  "DialTcp resolved w =
     (case resolved of
        None \<Rightarrow> (- 1, w)
      | Some ais \<Rightarrow> (let (fd, w1) = dial_loop ais w in (fd, if 0 \<le> fd then SetNoDelay fd w1 else w1)))"

text \<open>\<open>gethostname\<close> into a buffer of 256 bytes, whose last byte is then set to the terminator.\<close>

definition Hostname :: "string option \<Rightarrow> string" where
  "Hostname res =
     (case res of None \<Rightarrow> ''unknown'' | Some buf \<Rightarrow> takeWhile (\<lambda>c. c \<noteq> CHR 0x00) (take 255 buf))"

subsection \<open>The forwarder\<close>

datatype accept_result = Accepted int | Interrupted | AcceptFailed

text \<open>
  \<open>fw_held\<close> are the descriptors handed to connection objects, which close them when the table and
  the pump have let go.  Between two turns of the loop other threads may change the sessions.
\<close>

record forwarder =
  fw_sockets :: sockets
  fw_sessions :: "nat \<Rightarrow> Session"
  fw_pumps :: "(nat \<times> u64 \<times> nat) list"
  fw_held :: "int list"

definition forward_accepted :: "string \<Rightarrow> Registry \<Rightarrow> bool \<Rightarrow> int \<Rightarrow> forwarder \<Rightarrow> forwarder" where
  "forward_accepted target reg written fd f =
     (let w = SetNoDelay fd ((fw_sockets f)\<lparr>sk_open := fd # sk_open (fw_sockets f)\<rparr>) in
      case forward_one written fd target reg (fw_sessions f) of
        None \<Rightarrow> f\<lparr>fw_sockets := os_close fd w\<rparr>
      | Some (p, s, pump) \<Rightarrow>
          f\<lparr>fw_sockets := w, fw_sessions := (fw_sessions f)(p := s), fw_held := fd # fw_held f,
            fw_pumps := (case pump of None \<Rightarrow> fw_pumps f | Some (i, ref) \<Rightarrow> fw_pumps f @ [(p, i, ref)])\<rparr>)"

text \<open>One turn: what the other threads did since the last one, the registry, and the outcomes.\<close>

record turn =
  tn_others :: "(nat \<Rightarrow> Session) \<Rightarrow> (nat \<Rightarrow> Session)"
  tn_accept :: accept_result
  tn_registry :: Registry
  tn_written :: bool

text \<open>The result says whether the loop has returned.\<close>

fun ForwarderLoop :: "string \<Rightarrow> turn list \<Rightarrow> forwarder \<Rightarrow> bool \<times> forwarder" where
  "ForwarderLoop target [] f = (False, f)"
| "ForwarderLoop target (t # ts) f =
     (let f1 = f\<lparr>fw_sessions := tn_others t (fw_sessions f)\<rparr> in
      case tn_accept t of
        Accepted fd \<Rightarrow> ForwarderLoop target ts (forward_accepted target (tn_registry t) (tn_written t) fd f1)
      | Interrupted \<Rightarrow> ForwarderLoop target ts f1
      | AcceptFailed \<Rightarrow> (True, f1))"

subsection \<open>No descriptor is lost\<close>

lemma listen_keeps:
  "ListenTcp r host port w = (fd, w') \<Longrightarrow>
     (if fd < 0 then w' = w
      else sk_open w' = fd # sk_open w \<and> sk_nodelay w' = sk_nodelay w
        \<and> (\<exists>addr. listen_address host = Some addr
              \<and> sk_listening w' = (fd, addr, word_of_int port) # sk_listening w))"
  by (auto simp: ListenTcp_def os_socket_def os_close_def Let_def split: if_splits option.splits)

lemma os_close_opened [simp]: "os_close fd (w\<lparr>sk_open := fd # sk_open w\<rparr>) = w"
  by (simp add: os_close_def)

lemma dial_loop_keeps:
  "dial_loop ais w =
     (case find (\<lambda>(s, c). 0 \<le> s \<and> c = 0) ais of
        None \<Rightarrow> (- 1, w)
      | Some (s, c) \<Rightarrow> (s, w\<lparr>sk_open := s # sk_open w\<rparr>))"
proof (induction ais arbitrary: w)
  case (Cons ai ais)
  obtain s c where ai: "ai = (s, c)" by (cases ai)
  show ?case
    by (cases "s < 0"; cases "c = 0") (simp_all add: ai Cons.IH os_socket_def split: option.split)
qed simp

lemma find_holds: "find P xs = Some x \<Longrightarrow> P x"
  by (auto simp: find_Some_iff)

text \<open>
  C32.  Sockets are neither leaked nor lost: whatever the system calls return, \<open>ListenTcp\<close> and
  \<open>DialTcp\<close> either return a negative number and leave every descriptor of the process as it was, or
  return one descriptor that is the only new open one.  \<open>DialTcp\<close> returns the socket of the first
  address, in the resolver's order, that can be connected to, with Nagle's algorithm off; \<open>ListenTcp\<close>
  listens on the address its text names.
\<close>

theorem sockets_not_leaked:
  "(case ListenTcp r host port w of (fd, w') \<Rightarrow>
      if fd < 0 then w' = w
      else sk_open w' = fd # sk_open w \<and>
        (\<exists>addr. listen_address host = Some addr \<and> sk_listening w' = (fd, addr, word_of_int port) # sk_listening w))
   \<and> DialTcp resolved w =
      (case find (\<lambda>(s, c). 0 \<le> s \<and> c = 0) (case resolved of None \<Rightarrow> [] | Some ais \<Rightarrow> ais) of
         None \<Rightarrow> (- 1, w)
       | Some (s, c) \<Rightarrow> (s, w\<lparr>sk_open := s # sk_open w, sk_nodelay := s # sk_nodelay w\<rparr>))"
proof
  show "case ListenTcp r host port w of (fd, w') \<Rightarrow>
      if fd < 0 then w' = w
      else sk_open w' = fd # sk_open w \<and>
        (\<exists>addr. listen_address host = Some addr \<and> sk_listening w' = (fd, addr, word_of_int port) # sk_listening w)"
    using listen_keeps [of r host port w] by (cases "ListenTcp r host port w") (auto split: if_splits)
  show "DialTcp resolved w =
      (case find (\<lambda>(s, c). 0 \<le> s \<and> c = 0) (case resolved of None \<Rightarrow> [] | Some ais \<Rightarrow> ais) of
         None \<Rightarrow> (- 1, w)
       | Some (s, c) \<Rightarrow> (s, w\<lparr>sk_open := s # sk_open w, sk_nodelay := s # sk_nodelay w\<rparr>))"
    by (auto simp: DialTcp_def dial_loop_keeps SetNoDelay_def dest: find_holds split: option.split)
qed

text \<open>The forwarder either closes an accepted socket or hands it to a connection.\<close>

lemma forward_accepted_fds:
  "mset (sk_open (fw_sockets (forward_accepted target reg written fd f))) + mset (fw_held f)
   = mset (sk_open (fw_sockets f)) + mset (fw_held (forward_accepted target reg written fd f))"
  by (auto simp: forward_accepted_def os_close_def SetNoDelay_def Let_def split: option.split)

lemma mset_balance:
  fixes a b c :: "'a multiset"
  assumes "a + h2 = s2 + h'" "s2 + h = s + h2"
  shows "a + h = s + h'"
proof -
  have "(a + h) + (h2 + s2) = (a + h2) + (s2 + h)" by (simp add: ac_simps)
  also have "\<dots> = (s2 + h') + (s + h2)" unfolding assms ..
  also have "\<dots> = (s + h') + (h2 + s2)" by (simp add: ac_simps)
  finally show ?thesis by simp
qed

lemma forwarder_fds:
  "ForwarderLoop target ts f = (r, f') \<Longrightarrow>
   mset (sk_open (fw_sockets f')) + mset (fw_held f) = mset (sk_open (fw_sockets f)) + mset (fw_held f')"
proof (induction ts arbitrary: f)
  case (Cons t ts)
  let ?f1 = "f\<lparr>fw_sessions := tn_others t (fw_sessions f)\<rparr>"
  show ?case
  proof (cases "tn_accept t")
    case (Accepted fd)
    let ?f2 = "forward_accepted target (tn_registry t) (tn_written t) fd ?f1"
    have "mset (sk_open (fw_sockets f')) + mset (fw_held ?f2)
        = mset (sk_open (fw_sockets ?f2)) + mset (fw_held f')"
      using Cons Accepted by (simp add: Let_def)
    moreover have "mset (sk_open (fw_sockets ?f2)) + mset (fw_held f)
        = mset (sk_open (fw_sockets f)) + mset (fw_held ?f2)"
      using forward_accepted_fds [of target "tn_registry t" "tn_written t" fd ?f1] by simp
    ultimately show ?thesis by (rule mset_balance)
  next
    case Interrupted
    with Cons.prems Cons.IH [of ?f1] show ?thesis by (simp add: Let_def)
  qed (use Cons.prems in \<open>auto simp: Let_def\<close>)
qed simp

text \<open>
  A port number that does not fit: \<open>SplitHostPort\<close> accepts any positive \<open>int\<close>, so a forward
  address with a port above 65535 is not refused, and \<open>ListenTcp\<close> listens on the port modulo 65536.
\<close>

theorem wide_port_is_truncated:
  assumes "SplitHostPort addr = Some (host, port)" "65536 \<le> port"
    and "ListenTcp r host port w = (fd, w')" "0 \<le> fd"
  shows "\<exists>a. hd (sk_listening w') = (fd, a, word_of_int (port - 65536))"
proof -
  have "(word_of_int (port - 65536) :: u16) = word_of_int port"
    by (simp add: word_of_int_eq_iff take_bit_eq_mod)
  with listen_keeps [OF assms(3)] assms(4) show ?thesis by auto
qed

theorem wide_port_is_truncated_witness:
  "let w' = \<lparr>sk_open = [3], sk_nodelay = [], sk_listening = [(3, 0, 4464)]\<rparr> in
   \<exists>a. hd (sk_listening w') = (3, a, word_of_int (70000 - 65536))"
  unfolding Let_def
proof (rule wide_port_is_truncated [of "''*:70000''" "''*''" 70000
      "\<lparr>lo_socket = 3, lo_bind = 0, lo_listen = 0\<rparr>" "\<lparr>sk_open = [], sk_nodelay = [], sk_listening = []\<rparr>"])
  have "show_nat 70000 = ''70000''"
    by (simp add: show_nat.simps digit_char_def char_of_def bit_0)
  then have "atoi ''70000'' = Some 70000"
    using atoi_to_string [of 70000] by (simp add: to_string_def in_signed_range_def)
  then show "SplitHostPort ''*:70000'' = Some (''*'', 70000)"
    by (simp add: SplitHostPort_def str_rfind_def str_find_def substr_def)
  show "ListenTcp \<lparr>lo_socket = 3, lo_bind = 0, lo_listen = 0\<rparr> ''*'' 70000
      \<lparr>sk_open = [], sk_nodelay = [], sk_listening = []\<rparr> =
    (3, \<lparr>sk_open = [3], sk_nodelay = [], sk_listening = [(3, 0, 4464)]\<rparr>)"
    by (simp add: ListenTcp_def os_socket_def listen_address_def)
qed simp_all

end
