(* ===== verification/Tunnel_Main.thy ===== *)
theory Tunnel_Main
  imports Echo_Demo Tunnel_Net
begin

text \<open>
  The main programs of the tunnel, \<open>grpc-tunnel/src/tunnel_server.cc\<close>, \<open>tunnel_client.cc\<close> and
  \<open>echo_client.cc\<close>, with the streaming caller (\<open>echo_call.cc\<close>) and the server's \<open>--auto\<close> loop.  What
  gRPC returns (whether a port could be bound, the replies and the status of a call) is an
  argument; the arguments of a command line whose \<open>atoi\<close> is undefined give \<^term>\<open>None\<close>.
\<close>

subsection \<open>The streaming caller and the echo client\<close>

definition echo_log :: "SayReply \<Rightarrow> string" where
  "echo_log res = ''  stream['' @ to_string (uint (sy_seq res)) @ ''] '' @ sy_message res
     @ ''  (served by '' @ sy_served_by res @ '')''"

text \<open>The replies read, one log line each, then the status.  \<open>Inl\<close> is the error text.\<close>

definition EchoCaller_SayStream ::
  "(SayRequest \<Rightarrow> rpc_status \<times> SayReply list) \<Rightarrow> string \<Rightarrow> u32 \<Rightarrow> (string + unit) \<times> string list" where
  "EchoCaller_SayStream rpc message n =
     (let (st, replies) = rpc \<lparr>sr_message = message, sr_count = n\<rparr> in
      (case st of Status_OK \<Rightarrow> Inr () | Status_CANCELLED \<Rightarrow> Inl [] | Status_Error e \<Rightarrow> Inl e, map echo_log replies))"

text \<open>The exit code and the log of the replies.\<close>

definition echo_client_main ::
  "(SayRequest \<Rightarrow> rpc_status \<times> SayReply) \<Rightarrow> (SayRequest \<Rightarrow> rpc_status \<times> SayReply list)
     \<Rightarrow> string list \<Rightarrow> (int \<times> string list) option" where
  "echo_client_main say say_stream as =
     (case echo_client_args as of
        None \<Rightarrow> None
      | Some a \<Rightarrow>
          (case EchoCaller_Say say (ea_message a) of
             Inl error \<Rightarrow> Some (1, [''Say FAILED: '' @ error])
           | Inr reply \<Rightarrow>
               (let out = [''Say -> '' @ reply] in
                if ea_stream a then
                  (case EchoCaller_SayStream say_stream (ea_message a) (word_of_int (ea_count a)) of
                     (Inl error, log) \<Rightarrow> Some (1, out @ log @ [''SayStream FAILED: '' @ error])
                   | (Inr _, log) \<Rightarrow> Some (0, out @ log))
                else Some (0, out))))"

subsection \<open>The server\<close>

text \<open>
  \<open>WaitFor\<close>: the registry as it is at successive wake-ups of the condition variable; the wait ends at
  the first one that has the name.
\<close>

fun Registry_WaitFor :: "string \<Rightarrow> Registry list \<Rightarrow> nat option" where
  "Registry_WaitFor target [] = None"
| "Registry_WaitFor target (reg # regs) =
     (case Registry_Get target reg of Some p \<Rightarrow> Some p | None \<Rightarrow> Registry_WaitFor target regs)"

text \<open>\<open>AutoCallLoop\<close> after the wait: the log line of each call, numbered from 1.\<close>

fun auto_loop :: "(SayRequest \<Rightarrow> rpc_status \<times> SayReply) list \<Rightarrow> u64 \<Rightarrow> string list" where
  "auto_loop [] n = []"
| "auto_loop (call # calls) n =
     (let msg = ''auto-'' @ to_string (uint (n + 1)) in
      (case EchoCaller_Say call msg of
         Inr reply \<Rightarrow> ''Say('' @ msg @ '') -> '' @ reply
       | Inl error \<Rightarrow> ''Say('' @ msg @ '') FAILED: '' @ error) # auto_loop calls (n + 1))"

definition AutoCallLoop ::
  "string \<Rightarrow> Registry list \<Rightarrow> (SayRequest \<Rightarrow> rpc_status \<times> SayReply) list \<Rightarrow> string list" where
  "AutoCallLoop target regs calls =
     (case Registry_WaitFor target regs of None \<Rightarrow> [] | Some _ \<Rightarrow> auto_loop calls 0)"

text \<open>
  The server's \<open>main\<close> up to \<open>Wait\<close>: the exit code, or the listening socket of the forwarder with its
  target and whether the \<open>--auto\<close> thread runs; and the sockets.
\<close>

definition tunnel_server_main ::
  "listen_outcome \<Rightarrow> bool \<Rightarrow> string list \<Rightarrow> sockets \<Rightarrow> ((int + int \<times> string \<times> bool) \<times> sockets) option" where
  "tunnel_server_main r bound as w =
     (case tunnel_server_args as of
        None \<Rightarrow> None
      | Some (Inl n) \<Rightarrow> Some (Inl n, w)
      | Some (Inr a) \<Rightarrow>
          (let (listen_fd, w1) = ListenTcp r (sv_host a) (sv_port a) w in
           if listen_fd < 0 then Some (Inl 1, w1)
           else if \<not> bound then Some (Inl 1, w1)
           else Some (Inr (listen_fd, sv_target a, 0 < sv_auto a), w1)))"

subsection \<open>The client\<close>

text \<open>
  The client's \<open>main\<close>: the exit code, or the sessions of successive attempts of the reconnect loop.
  \<open>bound\<close> is whether the Echo server could be started.
\<close>

definition tunnel_client_main ::
  "bool \<Rightarrow> string list \<Rightarrow> (bool \<times> (outcome \<times> Frame) list) list \<Rightarrow> (int + Client list) option" where
  "tunnel_client_main bound as attempts =
     (case tunnel_client_args as of
        None \<Rightarrow> None
      | Some (Inl n) \<Rightarrow> Some (Inl n)
      | Some (Inr a) \<Rightarrow>
          if ca_serve_demo a \<and> \<not> bound then Some (Inl 1)
          else Some (Inr (map (\<lambda>(registered, frames). RunTunnel (ca_target a) registered frames) attempts)))"

subsection \<open>What the programs do\<close>

lemma wait_for_finds:
  "Registry_WaitFor target regs = Some p \<Longrightarrow> \<exists>reg \<in> set regs. Registry_Get target reg = Some p"
  by (induction regs) (auto split: option.splits)

lemma auto_loop_length: "length (auto_loop calls n) = length calls"
  by (induction calls arbitrary: n) (auto simp: Let_def)

lemma auto_silent_until_registered:
  "\<forall>reg \<in> set regs. Registry_Get target reg = None \<Longrightarrow> AutoCallLoop target regs calls = []"
  using wait_for_finds [of target regs] by (cases "Registry_WaitFor target regs") (auto simp: AutoCallLoop_def)

lemma RunTunnel_ends:
  "\<not> alive (k_session (RunTunnel target registered frames))
   \<and> OpenStreams (k_session (RunTunnel target registered frames)) = 0"
  by (auto simp: RunTunnel_def Let_def Shutdown_def OpenStreams_def new_client_def new_session_def Send_def
      split: prod.split)

text \<open>The two ends of the demonstration together: the echo client against the echo service.\<close>

lemma echo_client_streams:
  assumes "echo_client_args as = Some a" "ea_stream a" "0 < ea_count a" "ea_count a < 2 ^ 32 - 1"
    and "\<forall>k. \<not> cancelled k \<and> written k"
  shows "echo_client_main (EchoServiceImpl_Say host)
      (\<lambda>req. the (EchoServiceImpl_SayStream cancelled written host req)) as =
    Some (0, (''Say -> echo: '' @ ea_message a @ ''  (served by '' @ host @ '')'') #
      map (\<lambda>k. echo_log (say_reply host \<lparr>sr_message = ea_message a, sr_count = word_of_int (ea_count a)\<rparr> (of_nat k)))
        [1..<Suc (nat (ea_count a))])"
proof -
  let ?n = "word_of_int (ea_count a) :: u32"
  have u: "unat ?n = nat (ea_count a)"
    using assms(3,4) by (simp add: unsigned_of_int take_bit_eq_mod)
  then have "0 < unat ?n" using assms(3) by simp
  then have "?n \<noteq> 0" by (rule iffD1 [OF unat_gt_0])
  then have c: "say_count \<lparr>sr_message = ea_message a, sr_count = ?n\<rparr> = ?n" by (simp add: say_count_def)
  have "unat ?n < 2 ^ 32 - 1" using u assms(3,4) by simp
  then have "EchoServiceImpl_SayStream cancelled written host \<lparr>sr_message = ea_message a, sr_count = ?n\<rparr> =
      Some (Status_OK, map (\<lambda>k. say_reply host \<lparr>sr_message = ea_message a, sr_count = ?n\<rparr> (of_nat k))
        [1..<Suc (nat (ea_count a))])"
    using say_loop_counts [of ?n cancelled written 1 host "\<lparr>sr_message = ea_message a, sr_count = ?n\<rparr>" 0 "[]"] assms(5) u
    by (simp add: EchoServiceImpl_SayStream_def c)
  then show ?thesis
    using assms(1,2)
    by (simp add: echo_client_main_def EchoCaller_Say_def EchoServiceImpl_Say_def EchoCaller_SayStream_def o_def)
qed

end
