(* ===== verification/Host_Tests.thy ===== *)
theory Host_Tests
  imports Direct_Action Gnmi_Tree Path_Policy Users
begin

text \<open>
  The repository's host test suite (\<open>test/*.cpp\<close>) run on the model: the doubles of \<open>test/mocks.hpp\<close> and
  \<open>test/modem_mock.hpp\<close>, and the expectations of the tests, one lemma for each test, evaluated in the
  kernel.  They check the definitions of the components against what the authors expect of the code.
  The one test that goes through \<open>smsctl::Executor\<close> is left out, because that class is outside the
  repository.
\<close>

subsection \<open>The doubles\<close>

text \<open>
  What the doubles record.  A test injects messages through the callback after \<open>start\<close>; \<open>inbox\<close> is the
  list of them.
\<close>

record Mocks =
  mk_sent :: "(string \<times> string) list"
  mk_started :: bool
  mk_next :: GnmiResult
  mk_last_get :: "string list"
  mk_last_set :: "(string \<times> string) list"
  mk_called :: bool

definition mocks :: "GnmiResult \<Rightarrow> Mocks" where
  "mocks r = \<lparr>mk_sent = [], mk_started = False, mk_next = r, mk_last_get = [], mk_last_set = [], mk_called = False\<rparr>"

definition MockTransport :: "InboundSms list \<Rightarrow> Mocks ISmsTransport" where
  "MockTransport inbox =
     \<lparr>tx_send = (\<lambda>to reply w. (True, w\<lparr>mk_sent := mk_sent w @ [(to, reply)]\<rparr>)),
      tx_start = (\<lambda>cb w. for_each (\<lambda>m. case cb of Some f \<Rightarrow> f m | None \<Rightarrow> id) inbox (w\<lparr>mk_started := True\<rparr>))\<rparr>"

definition MockGnmiSink :: "Mocks GnmiSink" where
  "MockGnmiSink =
     \<lparr>sink_get = (\<lambda>xpaths w. (mk_next w, w\<lparr>mk_last_get := xpaths\<rparr>)),
      sink_set = (\<lambda>updates w. (mk_next w, w\<lparr>mk_last_set := updates\<rparr>))\<rparr>"

record MockModem_state =
  mm_replies :: "(string \<times> AtResult) list"
  mm_sent_at :: "string list"
  mm_sent_sms :: "(string \<times> string) list"
  mm_started :: bool
  mm_got :: "InboundSms list"

definition mock_modem :: "(string \<times> string list) list \<Rightarrow> MockModem_state" where
  "mock_modem rs =
     \<lparr>mm_replies = map (\<lambda>(cmd, ls). (cmd, \<lparr>at_ok = True, at_lines = ls\<rparr>)) rs, mm_sent_at = [], mm_sent_sms = [],
      mm_started = False, mm_got = []\<rparr>"

definition MockModem :: "InboundSms list \<Rightarrow> MockModem_state IModem" where
  "MockModem inbox =
     \<lparr>md_at = (\<lambda>cmd w. (case map_of (mm_replies w) cmd of Some r \<Rightarrow> r | None \<Rightarrow> \<lparr>at_ok = True, at_lines = []\<rparr>,
        w\<lparr>mm_sent_at := mm_sent_at w @ [cmd]\<rparr>)),
      md_send_sms = (\<lambda>to reply w. (True, w\<lparr>mm_sent_sms := mm_sent_sms w @ [(to, reply)]\<rparr>)),
      md_start = (\<lambda>cb w. for_each (\<lambda>m. case cb of Some f \<Rightarrow> f m | None \<Rightarrow> id) inbox (w\<lparr>mm_started := True\<rparr>))\<rparr>"

text \<open>The tokenizer of the bridge tests, which splits at white space.\<close>

fun ws_loop :: "string \<Rightarrow> string \<Rightarrow> string list" where
  "ws_loop cur [] = (if cur \<noteq> [] then [cur] else [])"
| "ws_loop cur (c # s) =
     (if is_space c
      then (if cur \<noteq> [] then cur # ws_loop [] s else ws_loop [] s) else ws_loop (cur @ [c]) s)"

definition ws_tokenize :: "string \<Rightarrow> string list" where
  "ws_tokenize s = ws_loop [] s"

definition mock_executor :: "Access \<Rightarrow> Mocks GnmiExecutor" where
  "mock_executor a = \<lparr>gx_sink = MockGnmiSink, gx_auth = Some (\<lambda>_ w. (a, w))\<rparr>"

definition mock_bridge ::
  "InboundSms list \<Rightarrow> Access \<Rightarrow> (string \<Rightarrow> string \<Rightarrow> (Mocks, string) eff) callable
     \<Rightarrow> (string \<Rightarrow> (Mocks, bool) eff) callable \<Rightarrow> Mocks Bridge" where
  "mock_bridge inbox a fallback allow =
     \<lparr>br_tx = MockTransport inbox, br_gex = mock_executor a, br_tok = Some ws_tokenize, br_fallback = fallback,
      br_allow = allow\<rparr>"

abbreviation sms :: "string \<Rightarrow> string \<Rightarrow> InboundSms" where
  "sms sender t \<equiv> \<lparr>sms_sender = sender, sms_text = t, sms_ts = ''t0''\<rparr>"

definition ok_get :: GnmiResult where
  "ok_get = empty_result\<lparr>res_ok := True, res_paths := [\<lparr>pr_xpath = ''/a'', pr_value = ''1'', pr_error = []\<rparr>]\<rparr>"

text \<open>The doubles keep the contract the bridge asks of a transport and a backend.\<close>

interpretation mock: bridge_contract "mock_bridge inbox a None None" mk_sent for inbox a
  by unfold_locales
    (auto simp: mock_bridge_def MockTransport_def mock_executor_def MockGnmiSink_def gate_def after_auth_def)

subsection \<open>\<open>bridge_test.cpp\<close>\<close>

lemma Bridge_GnmiGetIsExecutedAndReplied:
  "let w = Bridge_start (mock_bridge [sms ''+123'' ''IOT GNMI GET /a''] Viewer None None) (mocks ok_get)
   in mk_started w \<and> mk_sent w = [(''+123'', ''OK GNMI GET /a=1'')]"
  by code_simp

definition says_ok :: "(string \<Rightarrow> string \<Rightarrow> (Mocks, string) eff) callable" where
  "says_ok = Some (\<lambda>_ t w. (''OK '' @ t, w\<lparr>mk_called := True\<rparr>))"

lemma Bridge_NonGnmiFallsBackToClassicEngine:
  "let w = Bridge_on_sms (mock_bridge [] Admin says_ok None) (sms ''+123'' ''IOT STATUS'') (mocks empty_result)
   in mk_called w \<and> mk_sent w = [(''+123'', ''OK IOT STATUS'')] \<and> mk_last_get w = []"
  by code_simp

lemma Bridge_NonGnmiWithoutFallbackIsDroppedSilently:
  "mk_sent (Bridge_on_sms (mock_bridge [] AccessNone None None) (sms ''+123'' ''just some text'') (mocks empty_result)) = []"
  by code_simp

lemma Bridge_DisallowedSenderIsDroppedSilently:
  "let br = mock_bridge [] Admin says_ok (Some (\<lambda>sender w. (sender = ''+allowed'', w)));
       w = Bridge_on_sms br (sms ''+blocked'' ''IOT STATUS'')
         (Bridge_on_sms br (sms ''+blocked'' ''IOT GNMI GET /a'') (mocks ok_get))
   in w = mocks ok_get
     \<and> mk_sent (Bridge_on_sms br (sms ''+allowed'' ''IOT GNMI GET /a'') w) = [(''+allowed'', ''OK GNMI GET /a=1'')]"
  by (simp add: Let_def Bridge_on_sms_def mock_bridge_def) code_simp

lemma Bridge_EmptyReplyIsNotSent:
  "mk_sent (Bridge_on_sms (mock_bridge [] Admin (Some (\<lambda>_ _ w. ([], w))) None) (sms ''+123'' ''IOT LOGIN alice secret'')
     (mocks empty_result)) = []"
  by code_simp

subsection \<open>\<open>gnmi_executor_test.cpp\<close>\<close>

abbreviation handles :: "Access \<Rightarrow> GnmiResult \<Rightarrow> GnmiCommand \<Rightarrow> string \<times> Mocks" where
  "handles a r cmd \<equiv> GnmiExecutor_handle (mock_executor a) cmd ''+123'' (mocks r)"

definition get1 :: GnmiCommand where
  "get1 = empty_command\<lparr>cmd_kind := Get, cmd_xpaths := [''/a'']\<rparr>"

definition set1 :: GnmiCommand where
  "set1 = empty_command\<lparr>cmd_kind := Set, cmd_updates := [(''/a'', ''1'')]\<rparr>"

lemma GnmiExecutor_GetRequiresSession:
  "fst (handles AccessNone empty_result get1) = ''ERR GNMI GET login required''"
  "mk_last_get (snd (handles AccessNone empty_result get1)) = []"
  by code_simp+

lemma GnmiExecutor_GetViewerOk:
  "fst (handles Viewer ok_get get1) = ''OK GNMI GET /a=1''" "mk_last_get (snd (handles Viewer ok_get get1)) = [''/a'']"
  by code_simp+

lemma GnmiExecutor_SetRejectsViewer:
  "fst (handles Viewer empty_result set1) = ''ERR GNMI SET admin login required''"
  "mk_last_set (snd (handles Viewer empty_result set1)) = []"
  by code_simp+

lemma GnmiExecutor_SetAdminOk:
  "fst (handles Admin (empty_result\<lparr>res_ok := True\<rparr>) set1) = ''OK GNMI SET 1 path(s) updated''"
  "mk_last_set (snd (handles Admin (empty_result\<lparr>res_ok := True\<rparr>) set1)) = [(''/a'', ''1'')]"
  by code_simp+

lemma GnmiExecutor_UnknownReportsError:
  "fst (handles Admin empty_result
     (empty_command\<lparr>cmd_kind := Unknown, cmd_error := ''gnmi set: xpath/value count mismatch''\<rparr>))
   = ''ERR gnmi set: xpath/value count mismatch''"
  by code_simp

subsection \<open>\<open>gnmi_command_test.cpp\<close>\<close>

lemma GnmiCommand_NonGnmiIsPassedThrough:
  "cmd_kind (parse_gnmi [''IOT'', ''STATUS'']) = NotGnmi" "cmd_kind (parse_gnmi [''hello'']) = NotGnmi"
  "cmd_kind (parse_gnmi []) = NotGnmi"
  by code_simp+

lemma GnmiCommand_PrefixIsCaseInsensitive: "cmd_kind (parse_gnmi [''iot'', ''GnMi'', ''get'', ''/a'']) = Get"
  by code_simp

lemma GnmiCommand_GetSingleAndCsv:
  "let g = parse_gnmi [''IOT'', ''GNMI'', ''GET'', ''/a,/b,/c'']
   in cmd_kind g = Get \<and> length (cmd_xpaths g) = 3 \<and> cmd_xpaths g ! 1 = ''/b''"
  by code_simp

lemma GnmiCommand_GetMissingXpathIsUnknown: "cmd_kind (parse_gnmi [''IOT'', ''GNMI'', ''GET'']) = Unknown"
  by code_simp

lemma GnmiCommand_SetPairsPositionally:
  "let s = parse_gnmi [''IOT'', ''GNMI'', ''SET'', ''/a,/b'', ''1,2'']
   in cmd_kind s = Set \<and> cmd_updates s = [(''/a'', ''1''), (''/b'', ''2'')]"
  by code_simp

lemma GnmiCommand_SetCountMismatchIsUnknown:
  "let s = parse_gnmi [''IOT'', ''GNMI'', ''SET'', ''/a,/b'', ''1''] in cmd_kind s = Unknown \<and> cmd_error s \<noteq> []"
  by code_simp

lemma GnmiCommand_UnknownOp: "cmd_kind (parse_gnmi [''IOT'', ''GNMI'', ''frobnicate'']) = Unknown"
  by code_simp

subsection \<open>\<open>gnmi_reply_test.cpp\<close>\<close>

abbreviation row :: "string \<Rightarrow> string \<Rightarrow> string \<Rightarrow> GnmiPathResult" where
  "row x v e \<equiv> \<lparr>pr_xpath = x, pr_value = v, pr_error = e\<rparr>"

abbreviation good :: "GnmiPathResult list \<Rightarrow> GnmiResult" where
  "good rows \<equiv> empty_result\<lparr>res_ok := True, res_paths := rows\<rparr>"

abbreviation bad :: "int \<Rightarrow> string \<Rightarrow> GnmiResult" where
  "bad code msg \<equiv> empty_result\<lparr>res_grpc_status := code, res_grpc_message := msg\<rparr>"

lemma GnmiReply_GetOkFormatsPairs:
  "format_get (good [row ''/a'' ''1'' [], row ''/b'' ''hi'' []]) = ''OK GNMI GET /a=1; /b=hi''"
  by code_simp

lemma GnmiReply_GetPerPathErrorHidesValue:
  "format_get (good [row ''/secret'' ''hunter2'' ''denied'']) = ''OK GNMI GET /secret=<denied>''"
  by code_simp

lemma GnmiReply_GetMixedGoodAndDeniedInOneReply:
  "format_get (good [row ''/system/config/hostname'' ''router-7'' [],
     row ''/aaa/user[name=admin]/password'' ''s3cr3t'' ''sensitive path denied''])
   = ''OK GNMI GET /system/config/hostname=router-7; /aaa/user[name=admin]/password=<sensitive path denied>''"
  by code_simp

lemma GnmiReply_GetTransportError: "format_get (bad (- 1) ''unavailable'') = ''ERR GNMI GET unavailable''"
  by code_simp

lemma GnmiReply_SetOkCountsPaths: "format_set (good []) 2 = ''OK GNMI SET 2 path(s) updated''"
  by code_simp

lemma GnmiReply_SetError: "format_set (bad (- 1) ''invalid-argument'') 1 = ''ERR GNMI SET invalid-argument''"
  by code_simp

lemma GnmiReply_StatusNameUsedWhenServerSendsNoMessage:
  "format_set (bad 7 []) 1 = ''ERR GNMI SET permission denied''" "format_get (bad 5 []) = ''ERR GNMI GET not found''"
  "format_get (bad (- 1) []) = ''ERR GNMI GET transport error''"
  by code_simp+

lemma GnmiReply_ServerMessageWinsOverStatusName:
  "format_set (bad 7 ''role ADMIN required'') 1 = ''ERR GNMI SET role ADMIN required''"
  by code_simp

lemma GnmiReply_StatusTextCoversUnknownAndZero: "grpc_status_text 0 = ''failed''" "grpc_status_text 99 = ''status 99''"
  by code_simp+

lemma GnmiReply_ClampAddsEllipsis:
  "let out = clamp_reply (replicate 300 (CHR ''x'')) in length out = kMaxReply \<and> drop (length out - 3) out = ''...''"
  by (simp add: clamp_sms_def kMaxReply_def substr_def Let_def)

subsection \<open>\<open>gnmi_tree_test.cpp\<close>\<close>

definition seeded :: GnmiTree where
  "seeded = for_each (\<lambda>(x, v) t. GnmiTree_set t x v)
     [(''/system/config/hostname'', ''demo-router''), (''/system/config/domain-name'', ''example.net''),
      (''/system/state/boot-time'', ''1755400000''), (''/interfaces/interface[name=eth0]/config/enabled'', ''true''),
      (''/interfaces/interface[name=eth01]/config/enabled'', ''false'')] empty_tree"

lemma GnmiTree_ExactLeafWins:
  "GnmiTree_lookup seeded ''/system/config/hostname''
   = [\<lparr>te_xpath = ''/system/config/hostname'', te_value = ''demo-router''\<rparr>]"
  by code_simp

lemma GnmiTree_NonLeafReturnsSubtree:
  "let rows = GnmiTree_lookup seeded ''/system/config''
   in length rows = 2 \<and> list_all (\<lambda>r. prefix ''/system/config/'' (te_xpath r)) rows"
  by code_simp

lemma GnmiTree_RootReturnsEverything: "length (GnmiTree_lookup seeded ''/'') = GnmiTree_size seeded"
  by code_simp

lemma GnmiTree_SubtreePrefixDoesNotStrattleSiblingNames:
  "GnmiTree_lookup seeded ''/interfaces/interface[name=eth0]''
   = [\<lparr>te_xpath = ''/interfaces/interface[name=eth0]/config/enabled'', te_value = ''true''\<rparr>]"
  by code_simp

lemma GnmiTree_UnknownPathIsEmpty: "GnmiTree_lookup seeded ''/nope/not/here'' = []"
  by code_simp

lemma GnmiTree_SetInsertsAndOverwrites:
  "let t = GnmiTree_set seeded ''/system/config/hostname'' ''router-7''
   in te_value (GnmiTree_lookup t ''/system/config/hostname'' ! 0) = ''router-7''
     \<and> GnmiTree_size (GnmiTree_set t ''/system/config/new-leaf'' ''x'') = GnmiTree_size t + 1"
  by code_simp

lemma GnmiTree_EraseLeafAndSubtree:
  "let (n, t) = GnmiTree_erase seeded ''/system/config/hostname''; (n', t') = GnmiTree_erase t ''/system''
   in n = 1 \<and> GnmiTree_lookup t ''/system/config/hostname'' = [] \<and> n' = 2 \<and> GnmiTree_lookup t' ''/system'' = []
     \<and> fst (GnmiTree_erase t' ''/gone'') = 0"
  by code_simp

subsection \<open>\<open>path_policy_test.cpp\<close> and \<open>sms_util_test.cpp\<close>\<close>

lemma PathPolicy_DefaultDenylistCatchesSecrets:
  "is_sensitive_path_default ''/system/aaa/authentication/users/user[name=admin]/config/password''"
  "is_sensitive_path_default ''/wifi/networks/network[ssid=home]/config/psk''"
  "is_sensitive_path_default ''/ipsec/config/pre-shared-key''"
  "is_sensitive_path_default ''/system/config/api-key''"
  by code_simp+

lemma PathPolicy_CaseInsensitive:
  "is_sensitive_path_default ''/System/Config/PASSWORD''" "is_sensitive_path_default ''/a/Secret/b''"
  by code_simp+

lemma PathPolicy_OrdinaryPathsAllowed:
  "\<not> is_sensitive_path_default ''/interfaces/interface[name=eth0]/state/oper-status''"
  "\<not> is_sensitive_path_default ''/system/config/hostname''" "\<not> is_sensitive_path_default ''/''"
  by code_simp+

lemma PathPolicy_ContainerPathDoesNotInheritItsChildrensSensitivity:
  "\<not> is_sensitive_path_default ''/system/aaa''" "\<not> is_sensitive_path_default ''/system''"
  "is_sensitive_path_default ''/system/aaa/user[name=admin]/config/password''"
  by code_simp+

lemma PathPolicy_CustomTokens:
  "is_sensitive_path ''/sim/config/iccid'' [''mrn'', ''iccid'']"
  "\<not> is_sensitive_path ''/system/config/password'' [''mrn'', ''iccid'']"
  by code_simp+

lemma PathPolicy_EmptyTokenIsIgnored: "\<not> is_sensitive_path ''/anything'' [[]]"
  by code_simp

lemma SmsUtil_E164NumbersAreReachable:
  "list_all is_reachable_sender [''+14155550123'', ''+91 98765 43210'', ''447700900123'', ''+1-415-555-0123'']"
  by code_simp

lemma SmsUtil_AlphanumericSenderIdsAreNotReachable:
  "\<not> list_ex is_reachable_sender [''AZ-AIRTEL-S'', ''VODAFONE'', ''Amazon'']"
  by code_simp

lemma SmsUtil_SevenDigitsIsTheBoundary:
  "\<not> list_ex is_reachable_sender [''12345'', ''+123456'', []]" "is_reachable_sender ''1234567''"
  by code_simp+

subsection \<open>\<open>users_test.cpp\<close> and \<open>config_test.cpp\<close>\<close>

definition file_of :: "string list \<Rightarrow> string" where
  "file_of ls = concat (map (\<lambda>l. l @ [newline]) ls)"

definition hash1 :: string where
  "hash1 = ''5e884898da28047151d0e56f8dc6292773603d0d6aabbdd62a11ef721d1542d8''"

lemma Users_ParsesRecords:
  "let s = UserStore_parse (file_of [''# id:sha256:access'', ''admin:'' @ hash1 @ '':Admin'', ''alice:2bb80d537b1d:Viewer'', []])
   in UserStore_size s = 2 \<and> UserStore_lookup s ''admin'' = Some \<lparr>usr_id = ''admin'', usr_hash = hash1, usr_access = ''Admin''\<rparr>
     \<and> length hash1 = 64 \<and> map_option usr_access (UserStore_lookup s ''alice'') = Some ''Viewer''
     \<and> UserStore_lookup s ''bob'' = None"
  by code_simp

lemma Users_UnknownAccessDefaultsToViewer:
  "map_option usr_access (UserStore_lookup (UserStore_parse (file_of [''carol:abc123:superuser''])) ''carol'') = Some ''Viewer''"
  by code_simp

lemma Users_MalformedLinesSkipped:
  "let s = UserStore_parse (file_of [''no-colons-here'', ''onlyone:field'', '':emptyid:Admin'', ''noHash::Admin'', ''good:hash:Admin''])
   in UserStore_size s = 1 \<and> UserStore_lookup s ''good'' \<noteq> None"
  by code_simp

lemma Config_DefaultsWhenEmpty:
  "let c = parse_config [] in \<not> enabled c \<and> gnmi_host c = ''127.0.0.1'' \<and> gnmi_port c = 50051
     \<and> session_ttl_sec c = 600 \<and> allowed_numbers c = []"
  by code_simp

text \<open>One line at a time, so that numbers are read by the simplifier.\<close>

lemma config_line_cut:
  "let line = trim (strip_comment raw) in
     line \<noteq> [] \<and> (case str_find CHR ''='' line of None \<Rightarrow> False
       | Some eq \<Rightarrow> trim (substr 0 eq line) = k \<and> trim (drop (eq + 1) line) = v) \<Longrightarrow>
   config_line raw c = apply_key k v c"
  by (cases "str_find CHR ''='' (trim (strip_comment raw))") (simp_all add: config_line_def Let_def del: str_find_None)

lemma known_lines:
  "config_line ''enabled = true'' c = apply_key ''enabled'' ''true'' c"
  "config_line ''gnmi.host = 127.0.0.1'' c = apply_key ''gnmi.host'' ''127.0.0.1'' c"
  "config_line ''gnmi.port = 57400'' c = apply_key ''gnmi.port'' ''57400'' c"
  "config_line ''allowed.numbers = +919096383701, +4915112345678'' c =
     apply_key ''allowed.numbers'' ''+919096383701, +4915112345678'' c"
  "config_line ''session.ttl.sec = 300'' c = apply_key ''session.ttl.sec'' ''300'' c"
  "config_line ''modem.dev = /dev/ttyUSB3'' c = apply_key ''modem.dev'' ''/dev/ttyUSB3'' c"
  "config_line ''modem.baud = 921600'' c = apply_key ''modem.baud'' ''921600'' c"
  by (rule config_line_cut, code_simp)+

lemma known_numbers: "to_u32 ''57400'' d = 57400" "to_u32 ''300'' d = 300" "to_u32 ''921600'' d = 921600"
  by (simp_all add: to_u32_def stol_def strtol10_def is_space_def is_digit_def digits_val_def digit_val_def in_signed_range_def)

lemma Config_ParsesKnownKeys:
  "let c = parse_config (file_of [''enabled = true'', ''gnmi.host = 127.0.0.1'', ''gnmi.port = 57400'',
     ''allowed.numbers = +919096383701, +4915112345678'', ''session.ttl.sec = 300'', ''modem.dev = /dev/ttyUSB3'',
     ''modem.baud = 921600''])
   in enabled c \<and> gnmi_port c = 57400 \<and> allowed_numbers c = [''+919096383701'', ''+4915112345678'']
     \<and> session_ttl_sec c = 300 \<and> modem_dev c = ''/dev/ttyUSB3'' \<and> modem_baud c = 921600"
proof -
  let ?ls = "[''enabled = true'', ''gnmi.host = 127.0.0.1'', ''gnmi.port = 57400'',
     ''allowed.numbers = +919096383701, +4915112345678'', ''session.ttl.sec = 300'', ''modem.dev = /dev/ttyUSB3'',
     ''modem.baud = 921600'']"
  have "getlines (file_of ?ls) = ?ls" by code_simp
  moreover have "split_csv ''+919096383701, +4915112345678'' = [''+919096383701'', ''+4915112345678'']" by code_simp
  ultimately show ?thesis by (simp add: parse_config_def known_lines apply_key_def known_numbers to_bool_def)
qed

lemma Config_CommentsAndBlankLinesIgnored:
  "let c = parse_config (file_of [''# a comment'', [], ''enabled = yes   # inline comment'', ''   '',
     ''bogus line with no equals'', ''unknown.key = whatever''])
   in enabled c \<and> gnmi_port c = 50051"
  by code_simp

lemma Config_BoolForms:
  "enabled (parse_config ''enabled = 1'')" "enabled (parse_config ''enabled = on'')"
  "\<not> enabled (parse_config ''enabled = 0'')" "\<not> enabled (parse_config ''enabled = nope'')"
  by code_simp+

lemma Config_ModemTypeDefaultsToAuto:
  "modem_type (parse_config []) = Auto" "modem_type (parse_config ''modem.type = whatever'') = Auto"
  by code_simp+

lemma Config_ModemTypeParsesFamilies:
  "modem_type (parse_config ''modem.type = sierra'') = Sierra" "modem_type (parse_config ''modem.type = QUECTEL'') = Quectel"
  "modem_type (parse_config ''modem.type = u-blox'') = UBlox" "modem_type (parse_config ''modem.type = generic'') = Generic"
  "modem_type (parse_config ''modem.type = auto'') = Auto"
  by code_simp+

lemma Config_ModemTypeName: "modem_type_name Sierra = ''sierra''" "modem_type_name Auto = ''auto''"
  by simp_all

subsection \<open>\<open>modem_test.cpp\<close>, \<open>at_modem_transport_test.cpp\<close> and \<open>direct_action_sink_test.cpp\<close>\<close>

lemma Modem_LineWithFindsPrefix:
  "line_with \<lparr>at_ok = True, at_lines = [''+CSQ: 17,99'', ''OK-ish'']\<rparr> ''+CSQ:'' = ''+CSQ: 17,99''"
  "line_with \<lparr>at_ok = True, at_lines = [''+CSQ: 17,99'', ''OK-ish'']\<rparr> ''+CREG:'' = []"
  by code_simp+

lemma Modem_MockRecordsAndReplies:
  "let (r, w) = md_at (MockModem []) ''AT+CSQ'' (mock_modem [(''AT+CSQ'', [''+CSQ: 20,99''])])
   in at_ok r \<and> line_with r ''+CSQ:'' = ''+CSQ: 20,99'' \<and> mm_sent_at w = [''AT+CSQ'']
     \<and> at_ok (fst (md_at (MockModem []) ''AT+CFUN=1'' w))"
  by code_simp

lemma AtModemTransport_StartStartsModem: "mm_started (tx_start (AtModemTransport (MockModem [])) None (mock_modem []))"
  by code_simp

lemma AtModemTransport_SendGoesToModem:
  "let (b, w) = tx_send (AtModemTransport (MockModem [])) ''+15551230000'' ''OK GNMI GET /a=1'' (mock_modem [])
   in b \<and> mm_sent_sms w = [(''+15551230000'', ''OK GNMI GET /a=1'')]"
  by code_simp

lemma AtModemTransport_InboundIsDeliveredToCallback:
  "let m = sms ''+919096383701'' ''IOT GNMI GET /system/config/hostname''
   in mm_got (tx_start (AtModemTransport (MockModem [m])) (Some (\<lambda>i w. w\<lparr>mm_got := mm_got w @ [i]\<rparr>)) (mock_modem [])) = [m]"
  by code_simp

lemma DirectActionSink_ApnIssuesCgdcont:
  "let (b, w) = DirectActionSink_set (MockModem []) ''cell.apn'' ''internet'' (mock_modem [])
   in b \<and> ''AT+CGDCONT=1,'' @ quoted ''IP'' @ '','' @ quoted ''internet'' \<in> set (mm_sent_at w)"
  by code_simp

lemma DirectActionSink_ResetCyclesCfun:
  "let (b, w) = DirectActionSink_set (MockModem []) ''cell.reset.request'' ''12345'' (mock_modem [])
   in b \<and> ''AT+CFUN=0'' \<in> set (mm_sent_at w) \<and> ''AT+CFUN=1'' \<in> set (mm_sent_at w)"
  by code_simp

definition status_modem :: MockModem_state where
  "status_modem = mock_modem [(''AT+CREG?'', [''+CREG: 0,1'']), (''AT+CSQ'', [''+CSQ: 17,99'']),
     (''AT+CGPADDR=1'', [''+CGPADDR: 1,'' @ quoted ''10.1.2.3''])]"

abbreviation reads :: "string \<Rightarrow> MockModem_state \<Rightarrow> string option" where
  "reads key w \<equiv> fst (DirectActionSink_get (MockModem []) key w)"

lemma DirectActionSink_StatusReadsMapToAt:
  "reads ''cell.reg'' status_modem = Some ''home''" "reads ''cell.signal.dbm'' status_modem = Some ''-79''"
  "reads ''cell.ip'' status_modem = Some ''10.1.2.3''" "reads ''vpn.state'' status_modem = None"
  "reads ''wifi.assoc.ssid'' status_modem = None"
  by code_simp+

lemma DirectActionSink_UnknownSignalIsAbsent:
  "reads ''cell.signal.dbm'' (mock_modem [(''AT+CSQ'', [''+CSQ: 99,99''])]) = None"
  by code_simp

lemma DirectActionSink_RebootTriggerCallsInjectedFn:
  "DirectActionSink_arm_trigger trg (Some (\<lambda>w. (True, w\<lparr>mm_started := True\<rparr>))) trg c w = (True, w\<lparr>mm_started := True\<rparr>)"
  "DirectActionSink_arm_trigger trg None trg c w = (False, w)"
  by (simp_all add: DirectActionSink_arm_trigger_def)

end
