(* ===== verification/Spec2Isabelle.thy ===== *)
theory Spec2Isabelle
  imports Sim_Wire Simd_Log Users Daemon_Dialog Appliance_Conversation At_Clock Tunnel_Duplex Tunnel_Log Tunnel_Main Host_Tests
begin

text \<open>
  zero-touch provisions a device over SMS: a text such as \<open>IOT GNMI GET /system/mtu\<close> is
  authenticated against a login session, turned into a gNMI request to the device-local server, and
  answered by SMS; other \<open>IOT\<close> commands go to the classic engine \<open>smsctl\<close>.  The same core runs in
  three programs: a daemon on a data store, a stand-alone appliance on a serial modem, and
  simulators.  Beside it stands a reverse tunnel for gRPC.  This development models the C++ sources
  of all of them and proves what makes each part correct.

  \<^bold>\<open>Conventions.\<close>  A C++ call that changes something is a function from a state to its result and the
  next state (\<open>eff\<close>, theory \<open>Zt_Prelude\<close>).  Structs and classes are records, enumerations are
  datatypes, \<open>std::function\<close> members are options, fixed-width integers are words, \<open>std::string\<close> is
  \<open>string\<close> (a list of bytes), \<open>std::map\<close> is a sorted association list behind the interface \<open>std_map\<close>
  (theory \<open>Std_Map\<close>).  An exception or early error return is a \<open>None\<close> or a value of a sum.  Loops are
  recursive functions; the loops that may not end (\<open>say_loop\<close>, whose end depends on wrap-around, and
  \<open>clk_write_loop\<close> and \<open>clk_loop\<close>, which depend on the port and the clock) are partial functions, \<open>None\<close>
  being no return.  There is no fuel: loops over what the outside delivers (frames,
  serial slices, results of system calls) recurse on the list or number of deliveries, which is
  arbitrary.

  \<^bold>\<open>Code outside the repository\<close> is a record of parameters: \<open>smsctl\<close> (theory \<open>Smsctl\<close>), the data-store
  client \<open>ds_client\<close> (\<open>Ds_Sms_Transport\<close>), the gNMI protobuf library and client call \<open>gnmi_lib\<close>, \<open>rpc\<close>
  (\<open>Local_Gnmi_Sink\<close>), \<open>nlohmann::json\<close> (\<open>Zerotouchd\<close>), the serial port and the \<open>cellular\<close> PDU library
  (\<open>At_Modem\<close>), and clocks as functions from the number of the reading.  Theorems hold for every
  instance, or name the law they need (for example \<open>codec_ok\<close>, \<open>plain_store\<close>, \<open>keeps_off\<close>).

  \<^bold>\<open>The core\<close> (\<open>src/\<close>, \<open>inc/zerotouch/\<close>):
  \<^item> \<open>Cpp_Std\<close>, \<open>Cpp_Num\<close>, \<open>Std_Map\<close>: what the sources use of the standard library, with the laws the
    components rest on (cutting and trimming texts, printing and reading numbers, map laws).
  \<^item> \<open>Gnmi_Command\<close> (\<open>gnmi_command.cpp\<close>): the grammar of the commands, characterised in both directions.
  \<^item> \<open>Gnmi_Reply\<close> (\<open>gnmi_reply.cpp\<close>): replies fit one SMS, tell the outcome, and do not depend on masked
    values.
  \<^item> \<open>Path_Policy\<close> (\<open>path_policy.cpp\<close>): what the denylist catches, and where it falls short of
    what its header promises.
  \<^item> \<open>Gnmi_Executor\<close> (\<open>gnmi_executor.cpp\<close>): access control; the interface \<open>masking_sink\<close> of a backend.
  \<^item> \<open>Local_Gnmi_Sink\<close> (\<open>local_gnmi_sink.cpp\<close>): the production backend keeps \<open>masking_sink\<close>, and a GET
    reply does not depend on the values behind sensitive paths; exactly which request leaves the device.
  \<^item> \<open>Sms_Bridge\<close> (\<open>bridge.cpp\<close>, \<open>sms_util.cpp\<close>): gate, routing and reply of one SMS; the interface
    \<open>bridge_contract\<close> of transport and engines, under which at most one reply is sent.
  \<^item> \<open>Config_File\<close>, \<open>Users\<close> (\<open>config.cpp\<close>, \<open>users.cpp\<close>): which line decides, widths of numbers, round trips.
  \<^item> \<open>Ds_Sms_Transport\<close> (\<open>ds_sms_transport.cpp\<close>): refinement of an inbox machine event by event, with reads that
    may fail; exactly what is delivered over every interleaving, and the limits of the replay guard.
  \<^item> \<open>Direct_Action\<close> (\<open>modem.hpp\<close>, \<open>direct_action_sink.cpp\<close>): response fields and the classic commands.
  \<^item> \<open>At_Modem\<close> (\<open>at_modem.cpp\<close>): the AT command engine reads a response however the line cuts it; the
    poll takes each stored message once and deletes exactly what it took.
  \<^item> \<open>At_Transcript\<close>: the bytes the driver writes: what a submission is on every path, also on a port whose
    writes fail, when it succeeds, and what passes for the prompt.
  \<^item> \<open>At_Clock\<close>: the same engine on a running clock, with writes that may be refused for the moment; it
    returns when the deadline comes, its runs are runs of \<open>At_Modem\<close>, and when it does not return.

  \<^bold>\<open>The programs\<close> (\<open>daemon/\<close>, \<open>sim/\<close>):
  \<^item> \<open>Zerotouchd\<close>, \<open>Daemon_Events\<close> (\<open>zerotouchd.cpp\<close>): configuration, accounts, callbacks and wiring; who
    reaches the gNMI server; changed configuration applies; as a state machine over all its events
    the daemon is inert until enabled.
  \<^item> \<open>Daemon_Conversation\<close>: the daemon, its data store and the simulated server composed; a SET and a GET
    that arrive by SMS are answered in the store with the acknowledgement and the value written.
  \<^item> \<open>Reference_Server\<close>: what a command means on the server's tree, as a function (\<open>ref_answer\<close>); the
    production backend, the wire and the handlers of the simulated server together compute it.
  \<^item> \<open>Daemon_Dialog\<close>: any number of messages by an administrator, with the other events of the daemon
    (\<open>pause_step\<close>) and writes of other processes (bounded by the predicate \<open>calm\<close>) between and during the
    deliveries; the replies and the tree are those of the reference function run on the commands.
  \<^item> \<open>Provisioning\<close>: what the two devices share: the interface \<open>provisioning\<close> of a bridge over sessions and a
    server, under which a command by an administrator is answered as the backend answers it.  Daemon
    and appliance are its interpretations \<open>dae\<close> and \<open>app\<close>.
  \<^item> \<open>Standalone\<close> (\<open>zerotouchd_standalone.cpp\<close>, \<open>modem_factory.cpp\<close>, the two command lines): the appliance
    is inert unless its file enables it.
  \<^item> \<open>Appliance_Conversation\<close>: the appliance, its modem and the simulated server composed; any number of polls,
    timer ticks and arrivals, each poll with any number of messages; every byte on the serial line and
    the server's tree are determined by the reference function.
  \<^item> \<open>Gnmi_Tree\<close>, \<open>Gnmi_Simd\<close>, \<open>Simd_Server\<close> (\<open>sim/gnmi_tree.hpp\<close>, \<open>sim/zt_gnmi_simd.cpp\<close>): the simulated gNMI
    server; what was set is read back over the wire; the Set handler refines its specification on
    the map from paths to values; from the Lua seed through any events the tree is the history of the
    Sets received;
    how numbers of the seed are shown.
  \<^item> \<open>Simd_Log\<close>: the same handlers with their log calls; logging changes no result, and the lines of a Set
    tell every change in order.
  \<^item> \<open>Sim\<close> (\<open>sim/zt_sim.cpp\<close>): the SMS simulator with every console command and the bytes it prints, on
    both gNMI backends; what was set is read back by SMS, at most one reply per line.
  \<^item> \<open>Sim_Wire\<close>: the two backends of the simulator side by side; a simulation relation shows that a
    conversation looks the same in memory and over gRPC, and where it does not.

  \<^bold>\<open>The tunnel\<close> (\<open>grpc-tunnel/src/\<close>):
  \<^item> \<open>Tunnel_Session\<close> (\<open>session.cc\<close>), \<open>Tunnel_Endpoints\<close> (\<open>tunnel_server.cc\<close>, \<open>tunnel_client.cc\<close>): every
    frame at both ends; a finished session leaves no name behind; a stream arrives in order.
  \<^item> \<open>Tunnel_Net\<close> (\<open>net.cc\<close>): listening, dialling and accepting over a table of open descriptors, none of
    which is lost on any branch.
  \<^item> \<open>Tunnel_Threads\<close>: handler, forwarder and pumps of a server session interleaved at the grain of the
    locks; over every interleaving nothing is written after shutdown (the interface \<open>write_fence\<close>, kept
    by both ends) and no pump is left behind.  Stream ids are assumed not to run through all of 64 bits.
  \<^item> \<open>Tunnel_Wire\<close>: over the same interleavings the frames obey the rules of \<open>SPEC.md\<close> on ids and order,
    and composed with the client the bytes of a stream come out whole and in order.
  \<^item> \<open>Tunnel_Back\<close>: the way back; over the same interleavings a socket of the server takes the bytes of its
    own stream only, in order and without gaps, from the moment its connection was made.
  \<^item> \<open>Client_Threads\<close>: reader, keep-alive thread and pumps of the client interleaved, with the mutex and
    condition variable of \<open>Keepalive\<close>; the fence holds, the join ends, and what can still be written
    before the fence.  A keep-alive wake-up for nothing is a step of its own, because no bound on
    their number exists.
  \<^item> \<open>Tunnel_Duplex\<close>: the threads of both ends interleaved with the frames under way; what the client's
    pumps send for a stream comes out of the server's socket from the first byte on, and the client
    speaks only of streams it was told of.
  \<^item> \<open>Echo_Demo\<close>, \<open>Tunnel_Main\<close>: the demonstration service and its callers, the command lines and the main
    programs.
  \<^item> \<open>Tunnel_Log\<close> (\<open>log.h\<close>): time stamps, and lines that stay whole whatever threads log.

  \<^bold>\<open>The tests\<close>: \<open>Host_Tests\<close> states the expectations of the host suite (\<open>test/\<close>) on the model, with its doubles,
  and evaluates them; the doubles keep the interface \<open>bridge_contract\<close>.

  This theory holds what spans the components: the start-up of the appliance from its file and the
  store of its modem to the bridge.

  \<^bold>\<open>Not modelled\<close>: which log lines the other components write, and usage texts, on which no state depends;
  the ACE reactor and gRPC set-up (their events are the steps of the machines above); deadlines and sleeps
  other than those of the AT engine; what a system call or a
  gRPC operation does beyond its result, which is arbitrary; and, of the unit tests, the one that runs
  the \<open>smsctl\<close> executor.
\<close>

section \<open>Start-up of the appliance\<close>

text \<open>
  C29.  What is in the modem's store when the appliance starts is executed: the messages that were
  stored before, every one that decodes, go through the bridge like new ones (sender gate, gNMI
  executor or classic engine, reply), in the order of the store, before the first poll; then they
  are deleted.  \<open>s2\<close> is the loaded client with its modem newly made, \<open>s1\<close> the client when the listing
  has been read.
\<close>

theorem appliance_boot_executes_stored:
  assumes "s2 = (sa_load S files config_path s)\<lparr>mc_modem := new_AtModem
      (make_modem (sa_config (sa_load S files config_path s))) reasm (am_dev (mc_modem s))\<rparr>"
    and "on_machine (open_port dev) s2 = (True, s0)"
    and "on_machine (AtModem_at dev ''AT+CMGL=4'') (modem_setup dev cell s0) =
      (\<lparr>at_ok = True, at_lines = concat (map entry_lines es) @ trailing\<rparr>, s1)"
    and "list_all (entry_ok cell) es" "list_all not_header trailing" "list_all (\<lambda>m. sm_total m = 0) (taken es)"
  shows "sa_run S dev cell reasm action clk lib call files config_path s =
    for_each (delete_stored dev) (map sm_index (taken es))
      (for_each (\<lambda>m. Bridge_on_sms (sa_bridge S dev cell action clk lib call) (inbound m)) (taken es) s1)"
proof -
  have m: "mc_modem (sa_load S files config_path s) = mc_modem s" by (simp add: sa_load_def Let_def)
  have "sa_run S dev cell reasm action clk lib call files config_path s =
      AtModem_start dev cell (Some (Bridge_on_sms (sa_bridge S dev cell action clk lib call))) s2"
    by (simp add: sa_run_def sa_bridge_start assms(1) m Let_def)
  also have "\<dots> = for_each (delete_stored dev) (map sm_index (taken es))
      (for_each (\<lambda>m. Bridge_on_sms (sa_bridge S dev cell action clk lib call) (inbound m)) (taken es) s1)"
    using assms(2-6) by (rule start_replays_stored)
  finally show ?thesis .
qed

text \<open>An enabled appliance whose modem holds a gNMI command from before the start.\<close>

definition boot_client :: "((unit, string option list) AtModem, unit, nat) StandaloneClient" where
  "boot_client =
     \<lparr>mc_modem = tape_modem (replicate 6 ok_line @ [Some (at_text [''+CMGL: 4,1,,9'', ''IOT GNMI GET /a'', ''OK''])]
        @ [ok_line, Some ''> '', ok_line, ok_line]),
      mc_reads = 0, sa_config = default_config, sa_users = \<lparr>m_users = []\<rparr>,
      sa_sessions = (), sa_handled = 0, sa_net = 0\<rparr>"

definition boot_files :: "string \<Rightarrow> string option" where
  "boot_files path = (if path = ''/etc/zerotouch/zerotouch.conf'' then Some ''enabled=true'' else None)"

definition boot_ready :: "((unit, string option list) AtModem, unit, nat) StandaloneClient" where
  "boot_ready = (sa_load demo_smsctl boot_files ''/etc/zerotouch/zerotouch.conf'' boot_client)\<lparr>mc_modem := new_AtModem
      (make_modem (sa_config (sa_load demo_smsctl boot_files ''/etc/zerotouch/zerotouch.conf'' boot_client))) ()
      (am_dev (mc_modem boot_client))\<rparr>"

definition boot_opened :: "((unit, string option list) AtModem, unit, nat) StandaloneClient" where
  "boot_opened = snd (on_machine (open_port tape) boot_ready)"

definition boot_listed :: "((unit, string option list) AtModem, unit, nat) StandaloneClient" where
  "boot_listed = snd (on_machine (AtModem_at tape ''AT+CMGL=4'') (modem_setup tape plain_cell boot_opened))"

definition boot_entry :: "unit stored" where
  "boot_entry = ([], ''+CMGL: 4,1,,9'', ''IOT GNMI GET /a'', 4, decode_sms_deliver plain_cell ''IOT GNMI GET /a'')"

abbreviation boot_action :: "(unit, string option list) AtModem Machine DsSink" where
  "boot_action \<equiv> sa_action tape plain_cell ''/run/reboot'' (\<lambda>m. (True, m)) (\<lambda>_. 0)"

theorem appliance_boot_executes_stored_witness:
  "sa_net (sa_run demo_smsctl tape plain_cell () boot_action (\<lambda>_. 0) plain_lib counting_call boot_files
     ''/etc/zerotouch/zerotouch.conf'' boot_client) = 1"
proof -
  have "on_machine (open_port tape) boot_ready = (True, boot_opened)" by code_simp
  moreover have "on_machine (AtModem_at tape ''AT+CMGL=4'') (modem_setup tape plain_cell boot_opened) =
      (\<lparr>at_ok = True, at_lines = concat (map entry_lines [boot_entry]) @ []\<rparr>, boot_listed)" by code_simp
  moreover have "list_all (entry_ok plain_cell) [boot_entry]" by code_simp
  moreover have "list_all (\<lambda>m. sm_total m = 0) (taken [boot_entry])" by code_simp
  ultimately have "sa_run demo_smsctl tape plain_cell () boot_action (\<lambda>_. 0) plain_lib counting_call boot_files
      ''/etc/zerotouch/zerotouch.conf'' boot_client =
    for_each (delete_stored tape) (map sm_index (taken [boot_entry]))
      (for_each (\<lambda>m. Bridge_on_sms (sa_bridge demo_smsctl tape plain_cell boot_action (\<lambda>_. 0) plain_lib counting_call)
        (inbound m)) (taken [boot_entry]) boot_listed)"
    by (intro appliance_boot_executes_stored [OF boot_ready_def, where trailing = "[]"]) simp_all
  also have "sa_net \<dots> = 1" by code_simp
  finally show ?thesis .
qed

end
